(* ===== verification/Prelude.thy ===== *)
theory Prelude
  imports Main "HOL-Library.Word"
begin

text \<open>
  What every theory of the development shares: the integer and byte types of
  \<open>shared/Common.h\<close>, the two ways a C++ operation can fail to deliver a value (it throws an
  exception derived from \<^verbatim>\<open>std::exception\<close>, or the standard gives it no meaning), the sequencing
  of fallible operations, and generic facts on lists and words.
\<close>

section \<open>The types of Common.h\<close>

type_synonym uint8 = "8 word"
type_synonym uint16 = "16 word"
type_synonym uint32 = "32 word"
type_synonym uint64 = "64 word"

text \<open>A signed 64-bit integer is the same 64 bits, read with \<^const>\<open>sint\<close>.\<close>

type_synonym int64 = "64 word"

type_synonym byte = "8 word"
type_synonym BinaryData = "byte list"

section \<open>Failure\<close>

text \<open>
  \<open>Exception what\<close> is a throw that a handler for \<^verbatim>\<open>std::exception\<close> catches; \<open>Undefined why\<close> is
  behaviour the C++ standard leaves undefined or a call that aborts the process, which no
  handler catches.
\<close>

datatype fault = Exception string | Undefined string

type_synonym 'a result = "fault + 'a"

definition bindR :: "'a result \<Rightarrow> ('a \<Rightarrow> 'b result) \<Rightarrow> 'b result" where
  "bindR m f = (case m of Inl e \<Rightarrow> Inl e | Inr a \<Rightarrow> f a)"

named_theorems result_simps \<open>evaluation of fallible operations\<close>

lemma bindR_Inr [simp, result_simps]: "bindR (Inr a) f = f a"
  by (simp add: bindR_def)

lemma bindR_Inl [simp, result_simps]: "bindR (Inl e) f = Inl e"
  by (simp add: bindR_def)

lemma bindR_eq_Inr_iff: "bindR m f = Inr b \<longleftrightarrow> (\<exists>a. m = Inr a \<and> f a = Inr b)"
  by (cases m) simp_all

lemma bindR_eq_InrE [elim]:
  assumes "bindR m f = Inr b"
  obtains a where "m = Inr a" "f a = Inr b"
  using assms by (auto simp: bindR_eq_Inr_iff)

lemma bindR_split:
  "P (bindR m f) \<longleftrightarrow> (\<forall>e. m = Inl e \<longrightarrow> P (Inl e)) \<and> (\<forall>a. m = Inr a \<longrightarrow> P (f a))"
  by (cases m) simp_all

text \<open>Running a fallible operation over a list, left to right, stopping at the first failure.\<close>

fun foldR :: "('a \<Rightarrow> 's \<Rightarrow> 's result) \<Rightarrow> 'a list \<Rightarrow> 's \<Rightarrow> 's result" where
  "foldR f [] s = Inr s"
| "foldR f (x # xs) s = bindR (f x s) (foldR f xs)"

section \<open>Lists\<close>

lemma nth_append_mid [simp]: "(pre @ x # post) ! length pre = x"
  by (simp add: nth_append)

lemma list_update_append_mid [simp]: "(pre @ x # post)[length pre := y] = pre @ y # post"
  by (simp add: list_update_append)

lemma fold_snoc_map: "fold (\<lambda>x acc. acc @ [f x]) xs acc = acc @ map f xs"
  by (induction xs arbitrary: acc) simp_all

section \<open>Words\<close>

text \<open>
  A word is the sum of its bytes at their places: the partial sum over the first \<open>n\<close> bytes is
  the word's low \<open>8 * n\<close> bits.
\<close>

lemma take_bit_add_byte:
  fixes w :: "'a::len word"
  shows "take_bit n w + push_bit n (take_bit 8 (drop_bit n w)) = take_bit (n + 8) w"
proof -
  have "take_bit (n + 8) w
      = push_bit n (drop_bit n (take_bit (n + 8) w)) + take_bit n (take_bit (n + 8) w)"
    by (simp only: bits_ident)
  also have "drop_bit n (take_bit (n + 8) w) = take_bit 8 (drop_bit n w)"
    by (simp add: drop_bit_take_bit)
  finally show ?thesis by (simp add: add.commute)
qed

lemma ucast_ucast_byte: "(ucast (ucast w :: byte) :: 'a::len word) = take_bit 8 w"
  for w :: "'a::len word"
  by (rule bit_word_eqI) (auto simp: bit_simps)

lemma unat_of_nat_fits [simp]: "n < 2 ^ LENGTH('a) \<Longrightarrow> unat (of_nat n :: 'a::len word) = n"
  by (simp add: unat_of_nat take_bit_nat_eq_self)

lemma unat_plus_fits:
  "unat a + unat b < 2 ^ LENGTH('a) \<Longrightarrow> unat (a + b) = unat a + unat b" for a b :: "'a::len word"
  by (simp add: unat_word_ariths)

lemma byte_eq_nibbles: "of_nat (unat b div 16) * 16 + of_nat (unat b mod 16) = b" for b :: byte
proof -
  have "of_nat (unat b div 16 * 16 + unat b mod 16) = b"
    by (simp only: div_mult_mod_eq) simp
  then show ?thesis by (simp only: of_nat_add of_nat_mult of_nat_numeral)
qed

lemma unat_ucast_fits [simp]:
  "unat w < 2 ^ LENGTH('b) \<Longrightarrow> unat (ucast w :: 'b::len word) = unat w" for w :: "'a::len word"
  by (simp add: unsigned_ucast_eq take_bit_nat_eq_self)

lemma ucast_ucast_fits:
  assumes "unat w < 2 ^ LENGTH('b)"
  shows "(ucast (ucast w :: 'b::len word) :: 'a::len word) = w"
proof (rule word_unat_eq_iff [THEN iffD2])
  show "unat (ucast (ucast w :: 'b word) :: 'a word) = unat w"
    using assms by simp
qed

section \<open>Keyed stores\<close>

definition store_all :: "('k \<Rightarrow> 'v \<Rightarrow> 'm \<Rightarrow> 'm) \<Rightarrow> ('k \<times> 'v) list \<Rightarrow> 'm \<Rightarrow> 'm" where
  "store_all store kvs m = fold (\<lambda>(k, v). store k v) kvs m"

text \<open>
  What a container with keys promises to the code that fills it and looks things up: a store is
  found under its key, and nothing else changes.
\<close>

locale keyed_store =
  fixes find_key :: "'m \<Rightarrow> 'k \<Rightarrow> 'v option"
    and store :: "'k \<Rightarrow> 'v \<Rightarrow> 'm \<Rightarrow> 'm"
  assumes find_store: "find_key (store k v m) k' = (if k' = k then Some v else find_key m k')"
begin

text \<open>After a sequence of stores the last one under a key counts.\<close>

lemma find_store_all:
  "find_key (store_all store kvs m) k = (case map_of (rev kvs) k of Some v \<Rightarrow> Some v | None \<Rightarrow> find_key m k)"
proof (induction kvs arbitrary: m)
  case (Cons kv kvs)
  then show ?case
    by (cases kv) (auto simp: store_all_def find_store map_add_def split: option.splits)
qed (simp add: store_all_def)

lemma find_store_all_distinct:
  "distinct (map fst kvs) \<Longrightarrow> (k, v) \<in> set kvs \<Longrightarrow> find_key (store_all store kvs m) k = Some v"
  using map_of_is_SomeI [of "rev kvs" k v] by (simp add: find_store_all rev_map [symmetric])

end

section \<open>First-in first-out containers\<close>

fun take_many :: "('q \<Rightarrow> ('a \<times> 'q) option) \<Rightarrow> nat \<Rightarrow> 'q \<Rightarrow> ('a list \<times> 'q) option" where
  "take_many get 0 q = Some ([], q)"
| "take_many get (Suc n) q =
     (case get q of None \<Rightarrow> None
      | Some (x, q) \<Rightarrow> map_option (\<lambda>(xs, q). (x # xs, q)) (take_many get n q))"

text \<open>
  What a queue promises to those who fill it and those who empty it, while it is open: an element
  goes to the end, and the first one is handed out.
\<close>

locale fifo =
  fixes items :: "'q \<Rightarrow> 'a list"
    and put :: "'a \<Rightarrow> 'q \<Rightarrow> 'q"
    and get :: "'q \<Rightarrow> ('a \<times> 'q) option"
    and is_open :: "'q \<Rightarrow> bool"
  assumes items_put: "items (put x q) = items q @ [x]"
    and open_put: "is_open q \<Longrightarrow> is_open (put x q)"
    and get_first: "is_open q \<Longrightarrow> items q = x # xs \<Longrightarrow>
      \<exists>q'. get q = Some (x, q') \<and> items q' = xs \<and> is_open q'"
begin

lemma items_put_list: "items (fold put xs q) = items q @ xs"
  by (induction xs arbitrary: q) (simp_all add: items_put)

lemma open_put_list: "is_open q \<Longrightarrow> is_open (fold put xs q)"
  by (induction xs arbitrary: q) (simp_all add: open_put)

lemma take_many_items:
  "is_open q \<Longrightarrow> n \<le> length (items q) \<Longrightarrow>
     \<exists>q'. take_many get n q = Some (take n (items q), q') \<and> items q' = drop n (items q) \<and> is_open q'"
proof (induction n arbitrary: q)
  case (Suc n)
  then obtain x xs where q: "items q = x # xs" by (cases "items q") auto
  with Suc.prems get_first obtain r where r: "get q = Some (x, r)" "items r = xs" "is_open r" by blast
  with Suc.prems q Suc.IH [of r] show ?case by auto
qed simp

text \<open>What was put in comes out in the same order.\<close>

lemma first_in_first_out:
  assumes "is_open q" and "items q = []"
  shows "\<exists>q'. take_many get (length xs) (fold put xs q) = Some (xs, q') \<and> items q' = []"
  using take_many_items [OF open_put_list [OF assms(1)], of "length xs" xs]
  by (auto simp: items_put_list assms(2))

end

section \<open>Transition systems\<close>

text \<open>The states a system can get into, and how an invariant covers them.\<close>

inductive reach :: "('s \<Rightarrow> bool) \<Rightarrow> ('s \<Rightarrow> 's \<Rightarrow> bool) \<Rightarrow> 's \<Rightarrow> bool"
  for init :: "'s \<Rightarrow> bool" and step :: "'s \<Rightarrow> 's \<Rightarrow> bool" where
  reach_init: "init s \<Longrightarrow> reach init step s"
| reach_step: "reach init step s \<Longrightarrow> step s s' \<Longrightarrow> reach init step s'"

locale invariant_system =
  fixes init :: "'s \<Rightarrow> bool"
    and step :: "'s \<Rightarrow> 's \<Rightarrow> bool"
    and inv :: "'s \<Rightarrow> bool"
  assumes init_inv: "init s \<Longrightarrow> inv s"
    and step_inv: "inv s \<Longrightarrow> step s s' \<Longrightarrow> inv s'"
begin

lemma reach_inv: "reach init step s \<Longrightarrow> inv s"
  by (induction rule: reach.induct) (auto intro: init_inv step_inv)

end

section \<open>Refinement\<close>

text \<open>
  A system implements an abstract one when each of its steps is matched by steps of the abstract one
  that keep the two states related: then every run of it is, seen through the relation, a run of the
  abstract system.
\<close>

lemma reach_steps: "step\<^sup>*\<^sup>* s s' \<Longrightarrow> reach init step s \<Longrightarrow> reach init step s'"
  by (induction rule: rtranclp_induct) (auto intro: reach_step)

locale simulation =
  fixes init :: "'s \<Rightarrow> bool"
    and step :: "'s \<Rightarrow> 's \<Rightarrow> bool"
    and ainit :: "'a \<Rightarrow> bool"
    and astep :: "'a \<Rightarrow> 'a \<Rightarrow> bool"
    and R :: "'s \<Rightarrow> 'a \<Rightarrow> bool"
  assumes sim_init: "init s \<Longrightarrow> \<exists>a. ainit a \<and> R s a"
    and sim_step: "R s a \<Longrightarrow> step s s' \<Longrightarrow> \<exists>a'. astep\<^sup>*\<^sup>* a a' \<and> R s' a'"
begin

lemma run_related: "step\<^sup>*\<^sup>* s s' \<Longrightarrow> R s a \<Longrightarrow> \<exists>a'. astep\<^sup>*\<^sup>* a a' \<and> R s' a'"
proof (induction rule: rtranclp_induct)
  case (step t u)
  then obtain b where "astep\<^sup>*\<^sup>* a b" "R t b" by blast
  moreover from sim_step [OF this(2) step.hyps(2)] obtain b' where "astep\<^sup>*\<^sup>* b b'" "R u b'" by blast
  ultimately show ?case using rtranclp_trans [of astep a b b'] by blast
qed blast

lemma reach_related: "reach init step s \<Longrightarrow> \<exists>a. reach ainit astep a \<and> R s a"
proof (induction rule: reach.induct)
  case (reach_init s)
  from sim_init [OF this] obtain a where "ainit a" "R s a" by blast
  then show ?case using reach.reach_init [of ainit a astep] by blast
next
  case (reach_step s s')
  then obtain a where "reach ainit astep a" "R s a" by blast
  moreover from sim_step [OF this(2) reach_step.hyps(2)] obtain a' where "astep\<^sup>*\<^sup>* a a'" "R s' a'" by blast
  ultimately show ?case using reach_steps [of astep a a' ainit] by blast
qed

end

end
