(* ===== verification/Effects.thy ===== *)
theory Effects
  imports Prelude
begin

text \<open>
  Operations that change a state and may throw: the state reached so far is kept when an
  exception is thrown, as in the program, where the members of an object keep the values they
  had at the throw.
\<close>

type_synonym ('s, 'a) eff = "'s \<Rightarrow> 's \<times> 'a result"

named_theorems eff_simps \<open>evaluation of operations on a state\<close>

definition returnE :: "'a \<Rightarrow> ('s, 'a) eff" where
  "returnE a s = (s, Inr a)"

definition bindE :: "('s, 'a) eff \<Rightarrow> ('a \<Rightarrow> ('s, 'b) eff) \<Rightarrow> ('s, 'b) eff" where
  "bindE m f s = (case m s of (s, Inl e) \<Rightarrow> (s, Inl e) | (s, Inr a) \<Rightarrow> f a s)"

text \<open>A fallible computation that does not look at the state.\<close>

definition liftE :: "'a result \<Rightarrow> ('s, 'a) eff" where
  "liftE r s = (s, r)"

definition getE :: "('s \<Rightarrow> 'a) \<Rightarrow> ('s, 'a) eff" where
  "getE f s = (s, Inr (f s))"

definition modE :: "('s \<Rightarrow> 's) \<Rightarrow> ('s, unit) eff" where
  "modE f s = (f s, Inr ())"

text \<open>\<^verbatim>\<open>catch (std::exception&)\<close>: undefined behaviour is not caught.\<close>

definition tryE :: "('s, 'a) eff \<Rightarrow> (string \<Rightarrow> ('s, 'a) eff) \<Rightarrow> ('s, 'a) eff" where
  "tryE m handler s = (case m s of (s, Inl (Exception what)) \<Rightarrow> handler what s | r \<Rightarrow> r)"

lemma returnE_apply [eff_simps]: "returnE a s = (s, Inr a)"
  by (simp add: returnE_def)

lemma liftE_apply [eff_simps]: "liftE r s = (s, r)"
  by (simp add: liftE_def)

lemma getE_apply [eff_simps]: "getE f s = (s, Inr (f s))"
  by (simp add: getE_def)

lemma modE_apply [eff_simps]: "modE f s = (f s, Inr ())"
  by (simp add: modE_def)

lemma bindE_return [eff_simps]: "bindE (returnE a) f s = f a s"
  by (simp add: bindE_def returnE_def)

lemma bindE_lift [eff_simps]:
  "bindE (liftE r) f s = (case r of Inl e \<Rightarrow> (s, Inl e) | Inr a \<Rightarrow> f a s)"
  by (simp add: bindE_def liftE_def)

lemma bindE_get [eff_simps]: "bindE (getE g) f s = f (g s) s"
  by (simp add: bindE_def getE_def)

lemma bindE_mod [eff_simps]: "bindE (modE g) f s = f () (g s)"
  by (simp add: bindE_def modE_def)

lemma bindE_eq: "m s = (s', Inr a) \<Longrightarrow> bindE m f s = f a s'"
  by (simp add: bindE_def)

lemma bindE_eq_Inl: "m s = (s', Inl e) \<Longrightarrow> bindE m f s = (s', Inl e)"
  by (simp add: bindE_def)

lemma bindE_assoc: "bindE (bindE m f) g = bindE m (\<lambda>x. bindE (f x) g)"
  by (rule ext) (simp add: bindE_def split: prod.split sum.split)

section \<open>What an operation keeps\<close>

text \<open>
  \<open>keeps P m\<close>: whatever \<open>m\<close> does, and also when it fails, the relation \<open>P\<close> holds between the state
  before and the state after. For a reflexive and transitive \<open>P\<close> it composes along the operators.
\<close>

definition keeps :: "('s \<Rightarrow> 's \<Rightarrow> bool) \<Rightarrow> ('s, 'a) eff \<Rightarrow> bool" where
  "keeps P m \<longleftrightarrow> (\<forall>s. P s (fst (m s)))"

lemma keepsD: "keeps P m \<Longrightarrow> m s = (s', r) \<Longrightarrow> P s s'"
  by (metis keeps_def fst_conv)

lemma keeps_modE: "(\<And>s. P s (f s)) \<Longrightarrow> keeps P (modE f)"
  by (simp add: keeps_def modE_def)

locale kept_relation =
  fixes P :: "'s \<Rightarrow> 's \<Rightarrow> bool"
  assumes kept_refl: "P s s"
    and kept_trans: "P s t \<Longrightarrow> P t u \<Longrightarrow> P s u"
begin

lemma keeps_returnE: "keeps P (returnE a)"
  by (simp add: keeps_def returnE_def kept_refl)

lemma keeps_liftE: "keeps P (liftE r)"
  by (simp add: keeps_def liftE_def kept_refl)

lemma keeps_getE: "keeps P (getE f)"
  by (simp add: keeps_def getE_def kept_refl)

lemma keeps_bindE:
  assumes m: "keeps P m" and f: "\<And>a. keeps P (f a)"
  shows "keeps P (bindE m f)"
  unfolding keeps_def
proof
  fix s
  obtain s' r where ms: "m s = (s', r)" by (cases "m s")
  with m have 1: "P s s'" by (rule keepsD)
  show "P s (fst (bindE m f s))"
  proof (cases r)
    case (Inr a)
    have "P s' (fst (f a s'))" using f by (simp add: keeps_def)
    with 1 show ?thesis by (auto simp: bindE_def ms Inr intro: kept_trans)
  qed (use 1 in \<open>simp add: bindE_def ms\<close>)
qed

lemma keeps_tryE:
  assumes m: "keeps P m" and h: "\<And>e. keeps P (h e)"
  shows "keeps P (tryE m h)"
  unfolding keeps_def
proof
  fix s
  obtain s' r where ms: "m s = (s', r)" by (cases "m s")
  with m have 1: "P s s'" by (rule keepsD)
  have "P s' (fst (h e s'))" for e using h by (simp add: keeps_def)
  with 1 show "P s (fst (tryE m h s))"
    by (auto simp: tryE_def ms intro: kept_trans split: sum.splits fault.splits)
qed

lemma keeps_if: "keeps P m \<Longrightarrow> keeps P n \<Longrightarrow> keeps P (if b then m else n)"
  by simp

lemma keeps_option: "keeps P m \<Longrightarrow> (\<And>x. keeps P (f x)) \<Longrightarrow> keeps P (case v of None \<Rightarrow> m | Some x \<Rightarrow> f x)"
  by (cases v) simp_all

lemma keeps_prod: "(\<And>a b. keeps P (f a b)) \<Longrightarrow> keeps P (case p of (a, b) \<Rightarrow> f a b)"
  by (cases p) simp

lemmas keeps_intros = keeps_returnE keeps_liftE keeps_getE keeps_bindE keeps_tryE keeps_if
  keeps_option keeps_prod keeps_modE

end

text \<open>Relations that compare a part of the state before and after.\<close>

lemma kept_eq: "kept_relation (\<lambda>s t. f s = f t)"
  by unfold_locales simp_all

lemma kept_le: "kept_relation (\<lambda>s t. f s \<le> f t)" for f :: "'s \<Rightarrow> 'b::order"
  by unfold_locales auto

section \<open>Exceptions\<close>

text \<open>The operation throws no exception that its caller could see; it may end in undefined behaviour.\<close>

definition nothrow :: "('s, 'a) eff \<Rightarrow> bool" where
  "nothrow m \<longleftrightarrow> (\<forall>s what. snd (m s) \<noteq> Inl (Exception what))"

lemma nothrow_bindE: "nothrow m \<Longrightarrow> (\<And>a. nothrow (f a)) \<Longrightarrow> nothrow (bindE m f)"
  by (auto simp: nothrow_def bindE_def split: prod.splits sum.splits) (metis snd_conv)+

lemma nothrow_tryE: "(\<And>e. nothrow (h e)) \<Longrightarrow> nothrow (tryE m h)"
  by (auto simp: nothrow_def tryE_def split: prod.splits sum.splits fault.splits)

lemma nothrow_if: "(b \<Longrightarrow> nothrow m) \<Longrightarrow> (\<not> b \<Longrightarrow> nothrow n) \<Longrightarrow> nothrow (if b then m else n)"
  by simp

lemma nothrow_prod: "(\<And>a b. nothrow (f a b)) \<Longrightarrow> nothrow (case p of (a, b) \<Rightarrow> f a b)"
  by (cases p) simp

lemma nothrow_basic: "nothrow (returnE a)" "nothrow (getE g)" "nothrow (modE k)"
  by (simp_all add: nothrow_def returnE_def getE_def modE_def)

lemmas nothrow_intros = nothrow_bindE nothrow_tryE nothrow_if nothrow_prod nothrow_basic

section \<open>Invariants\<close>

text \<open>
  \<open>pres I m\<close>: the operation \<open>m\<close> keeps the invariant \<open>I\<close>, also when it fails. In a sequence, the
  second operation may rely on what the first one returned from a state with the invariant.
\<close>

definition pres :: "('s \<Rightarrow> bool) \<Rightarrow> ('s, 'a) eff \<Rightarrow> bool" where
  "pres I m \<longleftrightarrow> (\<forall>s. I s \<longrightarrow> I (fst (m s)))"

lemma presD: "pres I m \<Longrightarrow> I s \<Longrightarrow> m s = (s', r) \<Longrightarrow> I s'"
  by (metis pres_def fst_conv)

lemma pres_bindE:
  assumes m: "pres I m" and f: "\<And>s s' a. I s \<Longrightarrow> m s = (s', Inr a) \<Longrightarrow> pres I (f a)"
  shows "pres I (bindE m f)"
  unfolding pres_def
proof (intro allI impI)
  fix s assume s: "I s"
  obtain s' r where ms: "m s = (s', r)" by (cases "m s")
  have s': "I s'" by (rule presD [OF m s ms])
  show "I (fst (bindE m f s))"
  proof (cases r)
    case (Inr a)
    have "pres I (f a)" by (rule f [OF s]) (simp add: ms Inr)
    with s' show ?thesis by (simp add: bindE_def ms Inr pres_def)
  qed (use s' in \<open>simp add: bindE_def ms\<close>)
qed

lemma pres_tryE:
  assumes m: "pres I m" and h: "\<And>e. pres I (h e)"
  shows "pres I (tryE m h)"
  unfolding pres_def
proof (intro allI impI)
  fix s assume s: "I s"
  obtain s' r where ms: "m s = (s', r)" by (cases "m s")
  have s': "I s'" by (rule presD [OF m s ms])
  with h show "I (fst (tryE m h s))"
    by (auto simp: tryE_def ms pres_def split: sum.splits fault.splits)
qed

lemma pres_returnE: "pres I (returnE a)"
  by (simp add: pres_def returnE_def)

lemma pres_liftE: "pres I (liftE r)"
  by (simp add: pres_def liftE_def)

lemma pres_getE: "pres I (getE f)"
  by (simp add: pres_def getE_def)

lemma pres_modE: "(\<And>s. I s \<Longrightarrow> I (f s)) \<Longrightarrow> pres I (modE f)"
  by (simp add: pres_def modE_def)

lemma pres_bind_lift: "(\<And>a. r = Inr a \<Longrightarrow> pres I (f a)) \<Longrightarrow> pres I (bindE (liftE r) f)"
  by (rule pres_bindE) (auto simp: liftE_def pres_liftE)

lemma pres_bind_get: "(\<And>s. I s \<Longrightarrow> pres I (f (g s))) \<Longrightarrow> pres I (bindE (getE g) f)"
  by (rule pres_bindE) (auto simp: getE_def pres_getE)

lemma pres_if: "(b \<Longrightarrow> pres I m) \<Longrightarrow> (\<not> b \<Longrightarrow> pres I n) \<Longrightarrow> pres I (if b then m else n)"
  by simp

lemma pres_option: "(v = None \<Longrightarrow> pres I m) \<Longrightarrow> (\<And>x. v = Some x \<Longrightarrow> pres I (f x))
    \<Longrightarrow> pres I (case v of None \<Rightarrow> m | Some x \<Rightarrow> f x)"
  by (cases v) simp_all

lemma pres_prod: "(\<And>a b. p = (a, b) \<Longrightarrow> pres I (f a b)) \<Longrightarrow> pres I (case p of (a, b) \<Rightarrow> f a b)"
  by (cases p) simp

lemma pres_keeps:
  assumes "keeps P m" and "\<And>s s'. P s s' \<Longrightarrow> I s \<Longrightarrow> I s'"
  shows "pres I m"
  using assms unfolding keeps_def pres_def by blast

lemmas pres_intros = pres_bind_lift pres_bind_get pres_returnE pres_liftE pres_getE pres_if pres_option
  pres_prod pres_tryE

end
