(* ===== verification/Byte_Buffer.thy ===== *)
theory Byte_Buffer
  imports Prelude
begin

text \<open>
  The byte buffer of \<open>shared/ByteBuffer.h\<close>: a growing vector of bytes and a read pointer. Integers
  are written and read little-endian at their own width. The second half states what a
  serialisable type promises (the locale \<open>codec\<close>) and proves once that a vector of such values is
  serialisable too.
\<close>

section \<open>The buffer and its operations\<close>

record ByteBuffer =
  pointer :: uint64
  vec :: BinaryData

text \<open>The default constructor, and the constructor from bytes.\<close>

definition ByteBuffer_new :: ByteBuffer where
  "ByteBuffer_new = \<lparr>pointer = 0, vec = []\<rparr>"

definition ByteBuffer_of :: "BinaryData \<Rightarrow> ByteBuffer" where
  "ByteBuffer_of data = \<lparr>pointer = 0, vec = data\<rparr>"

text \<open>\<^verbatim>\<open>sizeof(T)\<close> of an integer type.\<close>

definition sizeof :: "'a::len word \<Rightarrow> nat" where
  "sizeof w = LENGTH('a) div 8"

text \<open>\<^verbatim>\<open>Append<T>\<close> pushes the bytes of its argument one by one, the lowest first.\<close>

definition Append :: "'a::len word \<Rightarrow> ByteBuffer \<Rightarrow> ByteBuffer" where
  "Append data b =
     b\<lparr>vec := fold (\<lambda>i v. v @ [ucast (drop_bit (i * 8) data)]) [0..<sizeof data] (vec b)\<rparr>"

definition AppendBinary :: "BinaryData \<Rightarrow> ByteBuffer \<Rightarrow> ByteBuffer" where
  "AppendBinary data b = b\<lparr>vec := vec b @ data\<rparr>"

text \<open>
  \<^verbatim>\<open>ReadBinary\<close>. The bounds test adds two 64-bit values, so it wraps around for a huge \<open>n\<close>; the
  range constructor is then called on iterators that are not a range of the vector, which the
  standard leaves undefined.
\<close>

definition ReadBinary :: "uint64 \<Rightarrow> ByteBuffer \<Rightarrow> (BinaryData \<times> ByteBuffer) result" where
  "ReadBinary n b =
     (if of_nat (length (vec b)) < pointer b + n then Inr ([], b)
      else
        let p = pointer b + n; from = unat (p - n); to = unat p in
        if from \<le> to \<and> to \<le> length (vec b)
        then Inr (take (to - from) (drop from (vec b)), b\<lparr>pointer := p\<rparr>)
        else Inl (Undefined ''range outside the vector''))"

text \<open>\<^verbatim>\<open>Read<T>\<close> returns 0 and stays where it is when too few bytes are left.\<close>

definition Read :: "ByteBuffer \<Rightarrow> ('a::len word \<times> ByteBuffer) result" where
  "Read b =
     (let n = sizeof (0 :: 'a word) in
      if of_nat (length (vec b)) < pointer b + of_nat n then Inr (0, b)
      else if unat (pointer b) + n \<le> length (vec b)
      then Inr (fold (\<lambda>i data. data + push_bit (i * 8) (ucast (vec b ! (unat (pointer b) + i))))
                  [0..<n] 0,
                b\<lparr>pointer := pointer b + of_nat n\<rparr>)
      else Inl (Undefined ''index outside the vector''))"

definition Binary :: "ByteBuffer \<Rightarrow> BinaryData" where
  "Binary b = vec b"

definition Size :: "ByteBuffer \<Rightarrow> uint64" where
  "Size b = of_nat (length (vec b))"

section \<open>Well-formed buffers and what is left to read\<close>

text \<open>
  The pointer is within the vector, and the vector is no longer than an object can be (the
  largest difference of two pointers).
\<close>

definition bb_ok :: "ByteBuffer \<Rightarrow> bool" where
  "bb_ok b \<longleftrightarrow> unat (pointer b) \<le> length (vec b) \<and> length (vec b) < 2 ^ 63"

definition remaining :: "ByteBuffer \<Rightarrow> BinaryData" where
  "remaining b = drop (unat (pointer b)) (vec b)"

definition advance :: "nat \<Rightarrow> ByteBuffer \<Rightarrow> ByteBuffer" where
  "advance n b = b\<lparr>pointer := pointer b + of_nat n\<rparr>"

definition word_bytes :: "'a::len word \<Rightarrow> BinaryData" where
  "word_bytes w = map (\<lambda>i. ucast (drop_bit (i * 8) w)) [0..<sizeof w]"

lemma bb_ok_new [simp]: "bb_ok ByteBuffer_new"
  by (simp add: bb_ok_def ByteBuffer_new_def)

lemma bb_ok_of [simp]: "bb_ok (ByteBuffer_of data) \<longleftrightarrow> length data < 2 ^ 63"
  by (simp add: bb_ok_def ByteBuffer_of_def)

lemma remaining_of [simp]: "remaining (ByteBuffer_of data) = data"
  by (simp add: remaining_def ByteBuffer_of_def)

lemma vec_advance [simp]: "vec (advance n b) = vec b"
  by (simp add: advance_def)

lemma advance_0 [simp]: "advance 0 b = b"
  by (simp add: advance_def)

lemma advance_advance [simp]: "advance m (advance n b) = advance (n + m) b"
  by (simp add: advance_def add.assoc)

lemma length_word_bytes [simp]: "length (word_bytes w) = LENGTH('a) div 8" for w :: "'a::len word"
  by (simp add: word_bytes_def sizeof_def)

lemma vec_Append [simp]: "Append w b = b\<lparr>vec := vec b @ word_bytes w\<rparr>"
  by (simp add: Append_def word_bytes_def fold_snoc_map)

lemma remaining_fits:
  "bb_ok b \<Longrightarrow> n \<le> length (remaining b) \<Longrightarrow> unat (pointer b) + n \<le> length (vec b)"
  by (auto simp: bb_ok_def remaining_def)

lemma unat_pointer_advance:
  assumes "bb_ok b" and "n \<le> length (remaining b)"
  shows "unat (pointer (advance n b)) = unat (pointer b) + n"
proof -
  have "unat (pointer b) + n < 2 ^ 63"
    using assms by (auto simp: bb_ok_def remaining_def)
  then have "unat (pointer b + of_nat n) = unat (pointer b) + unat (of_nat n :: uint64)"
    by (intro unat_plus_fits) simp
  with \<open>unat (pointer b) + n < 2 ^ 63\<close> show ?thesis by (simp add: advance_def)
qed

lemma bb_ok_advance [simp, intro]:
  "bb_ok b \<Longrightarrow> n \<le> length (remaining b) \<Longrightarrow> bb_ok (advance n b)"
  using unat_pointer_advance [of b n] by (auto simp: bb_ok_def remaining_def)

lemma remaining_advance [simp]:
  "bb_ok b \<Longrightarrow> n \<le> length (remaining b) \<Longrightarrow> remaining (advance n b) = drop n (remaining b)"
  using unat_pointer_advance [of b n] by (simp add: remaining_def add.commute)


section \<open>Writing and reading back\<close>

text \<open>Summing the first \<open>n\<close> bytes at their places gives the low \<open>8 * n\<close> bits.\<close>

lemma fold_bytes_take_bit:
  fixes w :: "'a::len word"
  assumes "\<And>i. i < n \<Longrightarrow> f i = (ucast (drop_bit (i * 8) w) :: byte)"
  shows "fold (\<lambda>i data. data + push_bit (i * 8) (ucast (f i))) [0..<n] 0 = take_bit (n * 8) w"
  using assms
proof (induction n)
  case 0
  then show ?case by simp
next
  case (Suc n)
  then have "fold (\<lambda>i data. data + push_bit (i * 8) (ucast (f i))) [0..<n] 0 = take_bit (n * 8) w"
    by simp
  with Suc.prems show ?case
    by (simp add: ucast_ucast_byte take_bit_add_byte add.commute)
qed

lemma sizeof_le_4 [simp]: "sizeof (w :: 8 word) = 1" "sizeof (w2 :: 16 word) = 2"
  "sizeof (w4 :: 32 word) = 4" "sizeof (w8 :: 64 word) = 8"
  by (simp_all add: sizeof_def)

text \<open>Reading where the bytes of a word stand returns the word and moves past it.\<close>

lemma Read_word_bytes:
  fixes w :: "'a::len word"
  assumes ok: "bb_ok b" and rem: "remaining b = word_bytes w @ rest"
    and width: "LENGTH('a) = 8 * (LENGTH('a) div 8)" and small: "LENGTH('a) \<le> 64"
  shows "Read b = Inr (w, advance (length (word_bytes w)) b)"
proof -
  let ?n = "LENGTH('a) div 8" and ?p = "unat (pointer b)"
  have len: "?p + ?n \<le> length (vec b)"
    by (rule remaining_fits [OF ok]) (simp add: rem)
  have nth: "vec b ! (?p + i) = ucast (drop_bit (i * 8) w)" if "i < ?n" for i
  proof -
    have "vec b ! (?p + i) = remaining b ! i"
      using ok by (simp add: remaining_def bb_ok_def)
    also have "\<dots> = ucast (drop_bit (i * 8) w)"
      using that by (simp add: rem nth_append) (simp add: word_bytes_def sizeof_def)
    finally show ?thesis .
  qed
  have "fold (\<lambda>i data. data + push_bit (i * 8) (ucast (vec b ! (?p + i)))) [0..<?n] 0 = w"
    using fold_bytes_take_bit [of ?n "\<lambda>i. vec b ! (?p + i)" w] nth width
    by (simp add: mult.commute take_bit_word_eq_self)
  moreover have "\<not> of_nat (length (vec b)) < pointer b + of_nat ?n"
  proof -
    have "?n \<le> length (remaining b)" by (simp add: rem)
    then have "unat (pointer b + of_nat ?n) = ?p + ?n"
      using unat_pointer_advance [OF ok] by (simp add: advance_def)
    then show ?thesis
      using ok len by (simp add: word_less_nat_alt bb_ok_def)
  qed
  ultimately show ?thesis
    using len by (simp add: Read_def Let_def sizeof_def advance_def)
qed

lemma Read_short:
  assumes ok: "bb_ok b" and short: "length (remaining b) < LENGTH('a) div 8"
    and small: "LENGTH('a) \<le> 64"
  shows "Read b = Inr (0 :: 'a::len word, b)"
proof -
  have "unat (pointer b + of_nat (LENGTH('a) div 8)) = unat (pointer b) + LENGTH('a) div 8"
    using ok small by (subst unat_plus_fits) (auto simp: bb_ok_def)
  then have "of_nat (length (vec b)) < pointer b + of_nat (LENGTH('a) div 8)"
    using ok short by (simp add: word_less_nat_alt bb_ok_def remaining_def)
  then show ?thesis by (simp add: Read_def Let_def sizeof_def)
qed

lemma ReadBinary_bytes:
  assumes ok: "bb_ok b" and rem: "remaining b = data @ rest"
  shows "ReadBinary (of_nat (length data)) b = Inr (data, advance (length data) b)"
proof -
  have n: "length data \<le> length (remaining b)" by (simp add: rem)
  have to: "unat (pointer b + of_nat (length data)) = unat (pointer b) + length data"
    using unat_pointer_advance [OF ok n] by (simp add: advance_def)
  have len: "unat (pointer b) + length data \<le> length (vec b)"
    by (rule remaining_fits [OF ok n])
  then have "\<not> of_nat (length (vec b)) < pointer b + of_nat (length data)"
    using ok to by (simp add: word_less_nat_alt bb_ok_def)
  with to len show ?thesis
    using rem by (simp add: ReadBinary_def Let_def advance_def remaining_def)
qed


section \<open>Reading arbitrary bytes\<close>

text \<open>A read leaves the bytes alone and moves the pointer over bytes that are there.\<close>

definition moves :: "ByteBuffer \<Rightarrow> ByteBuffer \<Rightarrow> bool" where
  "moves b b' \<longleftrightarrow> (\<exists>n \<le> length (remaining b). b' = advance n b)"

lemma moves_refl [simp, intro]: "moves b b"
  unfolding moves_def by (rule exI [of _ 0]) simp

lemma moves_ok: "moves b b' \<Longrightarrow> bb_ok b \<Longrightarrow> bb_ok b'"
  by (auto simp: moves_def)

lemma moves_vec: "moves b b' \<Longrightarrow> vec b' = vec b"
  by (auto simp: moves_def)

lemma moves_trans:
  assumes "moves a b" and "moves b c" and ok: "bb_ok a"
  shows "moves a c"
proof -
  from assms obtain n m where n: "n \<le> length (remaining a)" and b: "b = advance n a"
    and m: "m \<le> length (remaining b)" and c: "c = advance m b"
    by (auto simp: moves_def)
  from n ok have "length (remaining b) = length (remaining a) - n" by (simp add: b)
  with n m have "n + m \<le> length (remaining a)" by simp
  moreover have "c = advance (n + m) a" by (simp add: b c)
  ultimately show ?thesis by (auto simp: moves_def)
qed

lemma Read_moves:
  fixes w :: "'a::len word"
  assumes ok: "bb_ok b" and read: "Read b = Inr (w, b')"
  shows "moves b b'"
proof (cases "unat (pointer b) + sizeof w \<le> length (vec b)")
  case True
  then have "sizeof w \<le> length (remaining b)" using ok by (simp add: remaining_def)
  moreover have "b' = b \<or> b' = advance (sizeof w) b"
    using read by (auto simp: Read_def Let_def advance_def sizeof_def split: if_splits)
  ultimately show ?thesis by (auto simp: moves_def intro: exI [of _ 0])
next
  case False
  then have "b' = b" using read by (auto simp: Read_def Let_def sizeof_def split: if_splits)
  then show ?thesis by simp
qed

lemma ReadBinary_moves:
  assumes ok: "bb_ok b" and read: "ReadBinary n b = Inr (data, b')"
  shows "moves b b'"
proof (cases "of_nat (length (vec b)) < pointer b + n")
  case True
  with read show ?thesis by (simp add: ReadBinary_def)
next
  case False
  let ?p = "pointer b + n"
  from read False have le: "unat (pointer b) \<le> unat ?p" and len: "unat ?p \<le> length (vec b)"
    and b': "b' = b\<lparr>pointer := ?p\<rparr>"
    by (auto simp: ReadBinary_def Let_def split: if_splits)
  let ?k = "unat ?p - unat (pointer b)"
  have "pointer b + of_nat ?k = ?p" using le by simp
  then have "b' = advance ?k b" by (simp add: b' advance_def)
  moreover have "?k \<le> length (remaining b)" using le len by (simp add: remaining_def)
  ultimately show ?thesis by (auto simp: moves_def)
qed

section \<open>Parsers\<close>

text \<open>
  \<open>parses g e x\<close>: standing in front of the bytes \<open>e\<close>, whatever follows them, \<open>g\<close> returns \<open>x\<close> and
  moves past them. \<open>safe g\<close>: on arbitrary bytes, \<open>g\<close> only moves the pointer forward, inside the
  vector, and the only failure is the range error of \<^const>\<open>ReadBinary\<close>. Both compose along
  \<^const>\<open>bindR\<close>.
\<close>

type_synonym 'a reader = "ByteBuffer \<Rightarrow> ('a \<times> ByteBuffer) result"

definition parses :: "'a reader \<Rightarrow> BinaryData \<Rightarrow> 'a \<Rightarrow> bool" where
  "parses g e x \<longleftrightarrow> (\<forall>b rest. bb_ok b \<longrightarrow> remaining b = e @ rest \<longrightarrow> g b = Inr (x, advance (length e) b))"

definition safe :: "'a reader \<Rightarrow> bool" where
  "safe g \<longleftrightarrow> (\<forall>b. bb_ok b \<longrightarrow>
     (case g b of Inl e \<Rightarrow> e = Undefined ''range outside the vector'' | Inr (x, b') \<Rightarrow> moves b b'))"

lemma safeD:
  assumes "safe g" and "bb_ok b"
  shows "g b = Inl e \<Longrightarrow> e = Undefined ''range outside the vector''"
    and "g b = Inr (x, b') \<Longrightarrow> moves b b'"
  using assms by (auto simp: safe_def split: sum.splits)

lemma parsesI:
  "(\<And>b rest. bb_ok b \<Longrightarrow> remaining b = e @ rest \<Longrightarrow> g b = Inr (x, advance (length e) b)) \<Longrightarrow> parses g e x"
  by (simp add: parses_def)

lemma parsesD:
  "parses g e x \<Longrightarrow> bb_ok b \<Longrightarrow> remaining b = e @ rest \<Longrightarrow> g b = Inr (x, advance (length e) b)"
  by (simp add: parses_def)

lemma parses_return: "parses (\<lambda>b. Inr (x, b)) [] x"
  by (simp add: parses_def)

lemma parses_bind:
  assumes g: "parses g e x" and h: "parses (h x) e' y"
  shows "parses (\<lambda>b. bindR (g b) (\<lambda>(x, b). h x b)) (e @ e') y"
proof (rule parsesI)
  fix b rest
  assume ok: "bb_ok b" and rem: "remaining b = (e @ e') @ rest"
  let ?c = "advance (length e) b"
  have "g b = Inr (x, ?c)" using g ok by (rule parsesD) (simp add: rem)
  moreover have "h x ?c = Inr (y, advance (length e') ?c)"
    using ok rem by (intro parsesD [OF h, where rest = rest]) simp_all
  ultimately show "bindR (g b) (\<lambda>(x, b). h x b) = Inr (y, advance (length (e @ e')) b)" by simp
qed

lemma parses_last:
  "parses g e x \<Longrightarrow> k x = y \<Longrightarrow> parses (\<lambda>b. bindR (g b) (\<lambda>(x, b). Inr (k x, b))) e y"
  using parses_bind [of g e x "\<lambda>x b. Inr (k x, b)" "[]" y] by (auto simp: parses_return)

lemma safe_return: "safe (\<lambda>b. Inr (x, b))"
  by (simp add: safe_def)

lemma safe_bind:
  assumes g: "safe g" and h: "\<And>x. safe (h x)"
  shows "safe (\<lambda>b. bindR (g b) (\<lambda>(x, b). h x b))"
  unfolding safe_def
proof (intro allI impI)
  fix b
  assume ok: "bb_ok b"
  show "case bindR (g b) (\<lambda>(x, b). h x b) of
      Inl e \<Rightarrow> e = Undefined ''range outside the vector'' | Inr (x, c) \<Rightarrow> moves b c"
  proof (cases "g b")
    case (Inl e)
    then show ?thesis using safeD [OF g ok] by simp
  next
    case (Inr xb)
    then obtain x b' where gb: "g b = Inr (x, b')" by (cases xb) simp
    with safeD [OF g ok] have m: "moves b b'" by simp
    from m ok have ok': "bb_ok b'" by (rule moves_ok)
    from m show ?thesis
      using safeD [OF h ok'] by (auto simp: gb split: sum.splits intro: moves_trans [OF _ _ ok])
  qed
qed

lemma safe_if: "safe g \<Longrightarrow> safe h \<Longrightarrow> safe (\<lambda>b. if P then g b else h b)"
  by (cases P) simp_all

text \<open>The bounds test of \<^const>\<open>Read\<close> adds at most 8, which does not wrap around.\<close>

lemma Read_defined:
  assumes ok: "bb_ok b" and small: "LENGTH('a::len) \<le> 64"
  shows "(Read b :: ('a word \<times> ByteBuffer) result) \<noteq> Inl e"
proof (cases "of_nat (length (vec b)) < pointer b + of_nat (LENGTH('a) div 8)")
  case True
  then show ?thesis by (simp add: Read_def Let_def sizeof_def)
next
  case False
  let ?n = "LENGTH('a) div 8"
  have "?n \<le> 8" using small by linarith
  moreover have "unat (pointer b) < 2 ^ 63" using ok by (simp add: bb_ok_def)
  ultimately have "unat (pointer b + of_nat ?n) = unat (pointer b) + ?n"
    by (subst unat_plus_fits) simp_all
  moreover have "unat (pointer b + of_nat ?n) \<le> length (vec b)"
    using False ok by (simp add: word_less_nat_alt bb_ok_def)
  ultimately show ?thesis by (simp add: Read_def Let_def sizeof_def)
qed

lemma safe_Read:
  assumes "LENGTH('a::len) \<le> 64"
  shows "safe (Read :: ('a word) reader)"
  using Read_defined [OF _ assms] by (auto simp: safe_def split: sum.splits intro: Read_moves)

lemmas safe_Read_int = safe_Read [where ?'a = 8] safe_Read [where ?'a = 16]
  safe_Read [where ?'a = 32] safe_Read [where ?'a = 64]

lemma safe_ReadBinary: "safe (ReadBinary n)"
proof -
  have "e = Undefined ''range outside the vector''" if "ReadBinary n b = Inl e" for b e
    using that by (auto simp: ReadBinary_def Let_def split: if_splits)
  then show ?thesis by (auto simp: safe_def split: sum.splits intro: ReadBinary_moves)
qed

lemma parses_ReadBinary: "of_nat (length d) = n \<Longrightarrow> parses (ReadBinary n) d d"
  using ReadBinary_bytes by (auto simp: parses_def)

lemmas safe_intros = safe_bind safe_return safe_if safe_Read_int [simplified] safe_ReadBinary

section \<open>Serialisable types\<close>

text \<open>The loops that write and read the elements of a vector.\<close>

definition put_all :: "('a \<Rightarrow> ByteBuffer \<Rightarrow> ByteBuffer) \<Rightarrow> 'a list \<Rightarrow> ByteBuffer \<Rightarrow> ByteBuffer" where
  "put_all put xs b = fold put xs b"

fun get_all :: "'a reader \<Rightarrow> nat \<Rightarrow> ('a list) reader" where
  "get_all get 0 b = Inr ([], b)"
| "get_all get (Suc n) b =
     bindR (get b) (\<lambda>(x, b). bindR (get_all get n b) (\<lambda>(xs, b). Inr (x # xs, b)))"

text \<open>
  What a pair of stream operators promises: \<open>put\<close> appends an encoding \<open>enc\<close>, \<open>get\<close> parses the
  encoding of every well-formed value, and \<open>get\<close> is safe on any bytes.
\<close>

locale codec =
  fixes put :: "'a \<Rightarrow> ByteBuffer \<Rightarrow> ByteBuffer"
    and get :: "'a reader"
    and enc :: "'a \<Rightarrow> BinaryData"
    and wf :: "'a \<Rightarrow> bool"
  assumes put_enc: "put x b = b\<lparr>vec := vec b @ enc x\<rparr>"
    and get_parses: "wf x \<Longrightarrow> parses get (enc x) x"
    and get_safe: "safe get"
begin

lemma put_all_enc: "put_all put xs b = b\<lparr>vec := vec b @ concat (map enc xs)\<rparr>"
  by (induction xs arbitrary: b) (simp_all add: put_all_def put_enc)

lemma get_all_parses: "list_all wf xs \<Longrightarrow> parses (get_all get (length xs)) (concat (map enc xs)) xs"
proof (induction xs)
  case Nil
  then show ?case by (simp add: parses_def)
next
  case (Cons x xs)
  then have "parses (\<lambda>b. bindR (get b) (\<lambda>(x, b).
      bindR (get_all get (length xs) b) (\<lambda>(xs, b). Inr (x # xs, b)))) (enc x @ concat (map enc xs)) (x # xs)"
    by (intro parses_bind [OF get_parses] parses_last) simp_all
  then show ?case by (simp add: parses_def)
qed

lemma get_all_safe: "safe (get_all get n)"
proof (induction n)
  case 0
  then show ?case by (simp add: safe_def)
next
  case (Suc n)
  then have "safe (\<lambda>b. bindR (get b) (\<lambda>(x, b). bindR (get_all get n b) (\<lambda>(xs, b). Inr (x # xs, b))))"
    by (intro safe_intros get_safe)
  then show ?case by (simp add: safe_def)
qed

text \<open>Writing a value to a fresh buffer and reading the buffer gives the value back.\<close>

lemma round_trip:
  assumes "wf x" and "length (enc x) < 2 ^ 63"
  shows "get (put x ByteBuffer_new) = Inr (x, advance (length (enc x)) (put x ByteBuffer_new))"
  using assms by (intro parsesD [OF get_parses, where rest = "[]"])
    (simp_all add: put_enc bb_ok_def remaining_def ByteBuffer_new_def)

end

section \<open>The integers are serialisable\<close>

lemma word_codec:
  assumes "LENGTH('a) = 8 * (LENGTH('a) div 8)" and "LENGTH('a) \<le> 64"
  shows "codec Append Read (word_bytes :: 'a::len word \<Rightarrow> BinaryData) (\<lambda>_. True)"
  using assms by unfold_locales (auto intro: parsesI Read_word_bytes safe_Read)

interpretation u8_codec: codec Append Read "word_bytes :: uint8 \<Rightarrow> BinaryData" "\<lambda>_. True"
  by (rule word_codec) simp_all

interpretation u16_codec: codec Append Read "word_bytes :: uint16 \<Rightarrow> BinaryData" "\<lambda>_. True"
  by (rule word_codec) simp_all

interpretation u32_codec: codec Append Read "word_bytes :: uint32 \<Rightarrow> BinaryData" "\<lambda>_. True"
  by (rule word_codec) simp_all

interpretation u64_codec: codec Append Read "word_bytes :: uint64 \<Rightarrow> BinaryData" "\<lambda>_. True"
  by (rule word_codec) simp_all

lemma word_bytes_u8 [simp]: "word_bytes (w :: uint8) = [w]"
  by (simp add: word_bytes_def)

lemmas word_parses = u8_codec.get_parses [OF TrueI] u16_codec.get_parses [OF TrueI]
  u32_codec.get_parses [OF TrueI] u64_codec.get_parses [OF TrueI]

section \<open>The bounds test of ReadBinary\<close>

text \<open>
  A count that reaches past \<open>2 ^ 64\<close> when it is added to the read pointer passes the bounds
  test of \<^verbatim>\<open>ReadBinary\<close>, and the vector is then built from iterators that are not a range: the
  test does not protect against a huge count read from the network.
\<close>

theorem ReadBinary_overflow:
  assumes ok: "bb_ok b" and wrap: "2 ^ 64 \<le> unat (pointer b) + unat n"
  shows "ReadBinary n b = Inl (Undefined ''range outside the vector'')"
proof -
  let ?p = "unat (pointer b)"
  let ?q = "?p + unat n - 2 ^ 64"
  have n: "unat n < 2 ^ 64" using unsigned_less [of n] by simp
  have p: "?p \<le> length (vec b)" "length (vec b) < 2 ^ 63" using ok by (simp_all add: bb_ok_def)
  have sum: "?p + unat n = ?q + 2 ^ 64" using wrap by linarith
  have "unat (pointer b + n) = (?p + unat n) mod 2 ^ 64" by (simp add: unat_word_ariths)
  also have "\<dots> = ?q mod 2 ^ 64" by (subst sum) simp
  also have "\<dots> = ?q" using n p by (intro mod_less) simp
  finally have q: "unat (pointer b + n) = ?q" .
  have "?q < ?p" using n wrap by linarith
  moreover from this have "?q \<le> length (vec b)" using p by linarith
  moreover have "\<not> of_nat (length (vec b)) < pointer b + n"
    using calculation p by (simp add: word_less_nat_alt q)
  ultimately show ?thesis by (simp add: ReadBinary_def Let_def q)
qed

theorem ReadBinary_overflow_witness:
  "ReadBinary (-1) \<lparr>pointer = 1, vec = [0, 7]\<rparr> = Inl (Undefined ''range outside the vector'')"
  using ReadBinary_overflow [of "\<lparr>pointer = 1, vec = [0, 7]\<rparr>" "-1"]
  by (simp add: bb_ok_def unsigned_minus_1_eq_mask mask_eq_exp_minus_1)

end
