(* ===== verification/Serialization.thy ===== *)
theory Serialization
  imports Byte_Buffer
begin

text \<open>
  The Bitcoin data types of \<open>shared/Bitcoin\<close> (\<open>VarInt.h\<close>, \<open>Script.h\<close>, \<open>Transaction.h\<close>, \<open>Block.h\<close>) and
  their stream operators (\<open>Serialization.cpp\<close>). Every operator pair is a \<open>codec\<close>: what is written
  is read back, and reading arbitrary bytes stays inside the buffer.
\<close>

section \<open>Data\<close>

record Script =
  script :: BinaryData

record OutPoint =
  op_hash :: BinaryData
  op_n :: uint32

record TxIn =
  in_prevout :: OutPoint
  in_script :: Script
  in_n :: uint32

record TxOut =
  out_value :: int64
  out_scriptPubKey :: Script

record Transaction =
  tx_version :: uint32
  tx_in :: "TxIn list"
  tx_out :: "TxOut list"
  tx_lockTime :: uint32

text \<open>\<^verbatim>\<open>Block\<close> with the fields it inherits from \<^verbatim>\<open>BlockHeader\<close>.\<close>

record Block =
  blk_version :: uint32
  blk_prevBlockHash :: BinaryData
  blk_merkleRootHash :: BinaryData
  blk_time :: uint32
  blk_bits :: uint32
  blk_nonce :: uint32
  blk_signature :: BinaryData
  blk_tx :: "Transaction list"
  blk_merkleTree :: "BinaryData list"

section \<open>The stream operators\<close>

text \<open>
  Variable-length integers. \<^verbatim>\<open>operator>>\<close> for them has no \<^verbatim>\<open>return\<close> statement; no caller uses the
  value it should return, and the model is its effect on its two arguments.
\<close>

definition write_VarInt :: "uint64 \<Rightarrow> ByteBuffer \<Rightarrow> ByteBuffer" where
  "write_VarInt v a =
     (if v < 0xfd then Append (ucast v :: uint8) a
      else if v \<le> 0xffff then Append (ucast v :: uint16) (Append (0xfd :: uint8) a)
      else if v \<le> 0xffffffff then Append (ucast v :: uint32) (Append (0xfe :: uint8) a)
      else Append v (Append (0xff :: uint8) a))"

definition read_VarInt :: "ByteBuffer \<Rightarrow> (uint64 \<times> ByteBuffer) result" where
  "read_VarInt a =
     bindR (Read a) (\<lambda>(sz :: uint8, a).
       if sz < 0xfd then Inr (ucast sz, a)
       else if sz = 0xfd then bindR (Read a) (\<lambda>(v :: uint16, a). Inr (ucast v, a))
       else if sz = 0xfe then bindR (Read a) (\<lambda>(v :: uint32, a). Inr (ucast v, a))
       else Read a)"

definition write_Script :: "Script \<Rightarrow> ByteBuffer \<Rightarrow> ByteBuffer" where
  "write_Script s a = AppendBinary (script s) (write_VarInt (of_nat (length (script s))) a)"

definition read_Script :: "ByteBuffer \<Rightarrow> (Script \<times> ByteBuffer) result" where
  "read_Script a =
     bindR (read_VarInt a) (\<lambda>(n, a).
     bindR (ReadBinary n a) (\<lambda>(d, a). Inr (\<lparr>script = d\<rparr>, a)))"

definition write_OutPoint :: "OutPoint \<Rightarrow> ByteBuffer \<Rightarrow> ByteBuffer" where
  "write_OutPoint p a = Append (op_n p) (AppendBinary (op_hash p) a)"

definition read_OutPoint :: "ByteBuffer \<Rightarrow> (OutPoint \<times> ByteBuffer) result" where
  "read_OutPoint a =
     bindR (ReadBinary 32 a) (\<lambda>(h, a).
     bindR (Read a) (\<lambda>(n, a). Inr (\<lparr>op_hash = h, op_n = n\<rparr>, a)))"

definition write_TxIn :: "TxIn \<Rightarrow> ByteBuffer \<Rightarrow> ByteBuffer" where
  "write_TxIn i a = Append (in_n i) (write_Script (in_script i) (write_OutPoint (in_prevout i) a))"

definition read_TxIn :: "ByteBuffer \<Rightarrow> (TxIn \<times> ByteBuffer) result" where
  "read_TxIn a =
     bindR (read_OutPoint a) (\<lambda>(p, a).
     bindR (read_Script a) (\<lambda>(s, a).
     bindR (Read a) (\<lambda>(n, a). Inr (\<lparr>in_prevout = p, in_script = s, in_n = n\<rparr>, a))))"

definition write_TxOut :: "TxOut \<Rightarrow> ByteBuffer \<Rightarrow> ByteBuffer" where
  "write_TxOut out a = write_Script (out_scriptPubKey out) (Append (out_value out) a)"

definition read_TxOut :: "ByteBuffer \<Rightarrow> (TxOut \<times> ByteBuffer) result" where
  "read_TxOut a =
     bindR (Read a) (\<lambda>(v, a).
     bindR (read_Script a) (\<lambda>(s, a). Inr (\<lparr>out_value = v, out_scriptPubKey = s\<rparr>, a)))"

text \<open>
  The loops over the elements run to the count that was written or read; in the reading
  operator the vector has been resized to that count, and every element is overwritten.
\<close>

definition write_Transaction :: "Transaction \<Rightarrow> ByteBuffer \<Rightarrow> ByteBuffer" where
  "write_Transaction t a =
     (let a = Append (tx_version t) a;
          a = write_VarInt (of_nat (length (tx_in t))) a;
          a = put_all write_TxIn (tx_in t) a;
          a = write_VarInt (of_nat (length (tx_out t))) a;
          a = put_all write_TxOut (tx_out t) a
      in Append (tx_lockTime t) a)"

definition read_Transaction :: "ByteBuffer \<Rightarrow> (Transaction \<times> ByteBuffer) result" where
  "read_Transaction a =
     bindR (Read a) (\<lambda>(v, a).
     bindR (read_VarInt a) (\<lambda>(insize, a).
     bindR (get_all read_TxIn (unat insize) a) (\<lambda>(ins, a).
     bindR (read_VarInt a) (\<lambda>(outsize, a).
     bindR (get_all read_TxOut (unat outsize) a) (\<lambda>(outs, a).
     bindR (Read a) (\<lambda>(lock, a).
       Inr (\<lparr>tx_version = v, tx_in = ins, tx_out = outs, tx_lockTime = lock\<rparr>, a)))))))"

text \<open>The header fields in the order in which \<^verbatim>\<open>operator<<\<close> for blocks and \<^verbatim>\<open>Block::GetHash\<close> write them.\<close>

definition write_header :: "Block \<Rightarrow> ByteBuffer \<Rightarrow> ByteBuffer" where
  "write_header b a =
     (let a = Append (blk_version b) a;
          a = AppendBinary (blk_prevBlockHash b) a;
          a = AppendBinary (blk_merkleRootHash b) a;
          a = Append (blk_time b) a;
          a = Append (blk_bits b) a
      in Append (blk_nonce b) a)"

definition write_Block :: "Block \<Rightarrow> ByteBuffer \<Rightarrow> ByteBuffer" where
  "write_Block b a =
     (let a = write_header b a;
          a = write_VarInt (of_nat (length (blk_tx b))) a
      in put_all write_Transaction (blk_tx b) a)"

text \<open>Reading a block fills an existing object; its signature and Merkle tree stay as they were.\<close>

definition read_Block :: "Block \<Rightarrow> ByteBuffer \<Rightarrow> (Block \<times> ByteBuffer) result" where
  "read_Block b a =
     bindR (Read a) (\<lambda>(v, a).
     bindR (ReadBinary 32 a) (\<lambda>(prev, a).
     bindR (ReadBinary 32 a) (\<lambda>(root, a).
     bindR (Read a) (\<lambda>(t, a).
     bindR (Read a) (\<lambda>(bits, a).
     bindR (Read a) (\<lambda>(nonce, a).
     bindR (read_VarInt a) (\<lambda>(n, a).
     bindR (get_all read_Transaction (unat n) a) (\<lambda>(txs, a).
       Inr (b\<lparr>blk_version := v, blk_prevBlockHash := prev, blk_merkleRootHash := root, blk_time := t,
              blk_bits := bits, blk_nonce := nonce, blk_tx := txs\<rparr>, a)))))))))"

section \<open>Encodings\<close>

text \<open>The bytes each operator appends, and the values that survive the trip.\<close>

definition enc_VarInt :: "uint64 \<Rightarrow> BinaryData" where
  "enc_VarInt v =
     (if v < 0xfd then [ucast v]
      else if v \<le> 0xffff then 0xfd # word_bytes (ucast v :: uint16)
      else if v \<le> 0xffffffff then 0xfe # word_bytes (ucast v :: uint32)
      else 0xff # word_bytes v)"

definition enc_Script :: "Script \<Rightarrow> BinaryData" where
  "enc_Script s = enc_VarInt (of_nat (length (script s))) @ script s"

definition enc_OutPoint :: "OutPoint \<Rightarrow> BinaryData" where
  "enc_OutPoint p = op_hash p @ word_bytes (op_n p)"

definition enc_TxIn :: "TxIn \<Rightarrow> BinaryData" where
  "enc_TxIn i = enc_OutPoint (in_prevout i) @ enc_Script (in_script i) @ word_bytes (in_n i)"

definition enc_TxOut :: "TxOut \<Rightarrow> BinaryData" where
  "enc_TxOut out = word_bytes (out_value out) @ enc_Script (out_scriptPubKey out)"

definition enc_Transaction :: "Transaction \<Rightarrow> BinaryData" where
  "enc_Transaction t =
     word_bytes (tx_version t) @ enc_VarInt (of_nat (length (tx_in t))) @ concat (map enc_TxIn (tx_in t))
     @ enc_VarInt (of_nat (length (tx_out t))) @ concat (map enc_TxOut (tx_out t))
     @ word_bytes (tx_lockTime t)"

definition enc_header :: "Block \<Rightarrow> BinaryData" where
  "enc_header b = word_bytes (blk_version b) @ blk_prevBlockHash b @ blk_merkleRootHash b
     @ word_bytes (blk_time b) @ word_bytes (blk_bits b) @ word_bytes (blk_nonce b)"

definition enc_Block :: "Block \<Rightarrow> BinaryData" where
  "enc_Block b = enc_header b @ enc_VarInt (of_nat (length (blk_tx b)))
     @ concat (map enc_Transaction (blk_tx b))"

text \<open>Sizes fit their 64-bit count, hashes are 32 bytes.\<close>

definition wf_Script :: "Script \<Rightarrow> bool" where
  "wf_Script s \<longleftrightarrow> length (script s) < 2 ^ 64"

definition wf_OutPoint :: "OutPoint \<Rightarrow> bool" where
  "wf_OutPoint p \<longleftrightarrow> length (op_hash p) = 32"

definition wf_TxIn :: "TxIn \<Rightarrow> bool" where
  "wf_TxIn i \<longleftrightarrow> wf_OutPoint (in_prevout i) \<and> wf_Script (in_script i)"

definition wf_TxOut :: "TxOut \<Rightarrow> bool" where
  "wf_TxOut out \<longleftrightarrow> wf_Script (out_scriptPubKey out)"

definition wf_Transaction :: "Transaction \<Rightarrow> bool" where
  "wf_Transaction t \<longleftrightarrow> length (tx_in t) < 2 ^ 64 \<and> length (tx_out t) < 2 ^ 64
     \<and> list_all wf_TxIn (tx_in t) \<and> list_all wf_TxOut (tx_out t)"

definition wf_Block :: "Block \<Rightarrow> bool" where
  "wf_Block b \<longleftrightarrow> length (blk_prevBlockHash b) = 32 \<and> length (blk_merkleRootHash b) = 32
     \<and> length (blk_tx b) < 2 ^ 64 \<and> list_all wf_Transaction (blk_tx b)"


section \<open>Every operator pair is a codec\<close>

lemma put_VarInt: "write_VarInt v a = a\<lparr>vec := vec a @ enc_VarInt v\<rparr>"
  by (simp add: write_VarInt_def enc_VarInt_def)

lemma parses_VarInt: "parses read_VarInt (enc_VarInt v) v"
proof -
  let ?tail = "\<lambda>sz a.
       if (sz :: uint8) < 0xfd then Inr (ucast sz :: uint64, a)
       else if sz = 0xfd then bindR (Read a) (\<lambda>(v :: uint16, a). Inr (ucast v, a))
       else if sz = 0xfe then bindR (Read a) (\<lambda>(v :: uint32, a). Inr (ucast v, a))
       else Read a"
  have eq: "read_VarInt = (\<lambda>a. bindR (Read a) (\<lambda>(sz, a). ?tail sz a))"
    by (simp add: read_VarInt_def fun_eq_iff)
  consider (one) "v < 0xfd" | (two) "\<not> v < 0xfd" "v \<le> 0xffff"
    | (four) "\<not> v < 0xfd" "\<not> v \<le> 0xffff" "v \<le> 0xffffffff"
    | (eight) "\<not> v < 0xfd" "\<not> v \<le> 0xffff" "\<not> v \<le> 0xffffffff"
    by blast
  then show ?thesis
  proof cases
    case one
    then have "unat v < 253" by (simp add: word_less_nat_alt)
    then have "ucast v < (0xfd :: uint8)" and "ucast (ucast v :: uint8) = v"
      by (simp_all add: word_less_nat_alt ucast_ucast_fits)
    with one show ?thesis
      using parses_bind [OF word_parses(1) [of "ucast v"], of ?tail "[]" v]
      by (simp add: eq enc_VarInt_def parses_return)
  next
    case two
    then have "ucast (ucast v :: uint16) = v" by (simp add: word_le_nat_alt ucast_ucast_fits)
    then have "parses (?tail 0xfd) (word_bytes (ucast v :: uint16)) v"
      using parses_last [OF word_parses(2), where k = ucast and y = v] by simp
    from parses_bind [where h = ?tail, OF word_parses(1) this] two show ?thesis
      by (simp add: eq enc_VarInt_def)
  next
    case four
    then have "ucast (ucast v :: uint32) = v" by (simp add: word_le_nat_alt ucast_ucast_fits)
    then have "parses (?tail 0xfe) (word_bytes (ucast v :: uint32)) v"
      using parses_last [OF word_parses(3), where k = ucast and y = v] by simp
    from parses_bind [where h = ?tail, OF word_parses(1) this] four show ?thesis
      by (simp add: eq enc_VarInt_def)
  next
    case eight
    have "parses (?tail 0xff) (word_bytes v) v"
      by (simp add: word_parses)
    from parses_bind [where h = ?tail, OF word_parses(1) this] eight show ?thesis
      by (simp add: eq enc_VarInt_def)
  qed
qed

lemma safe_VarInt: "safe read_VarInt"
  unfolding read_VarInt_def by (intro safe_intros)

interpretation VarInt_codec: codec write_VarInt read_VarInt enc_VarInt "\<lambda>_. True"
  by unfold_locales (simp_all add: put_VarInt parses_VarInt safe_VarInt)

text \<open>The composite types, each from the codecs of its fields.\<close>

interpretation Script_codec: codec write_Script read_Script enc_Script wf_Script
proof
  show "write_Script s a = a\<lparr>vec := vec a @ enc_Script s\<rparr>" for s a
    by (simp add: write_Script_def enc_Script_def AppendBinary_def put_VarInt)
  show "parses read_Script (enc_Script s) s" if "wf_Script s" for s
    unfolding read_Script_def enc_Script_def
    by (intro parses_bind [OF parses_VarInt] parses_last [OF parses_ReadBinary]) simp_all
  show "safe read_Script"
    unfolding read_Script_def by (intro safe_intros safe_VarInt)
qed

interpretation OutPoint_codec: codec write_OutPoint read_OutPoint enc_OutPoint wf_OutPoint
proof
  show "write_OutPoint p a = a\<lparr>vec := vec a @ enc_OutPoint p\<rparr>" for p a
    by (simp add: write_OutPoint_def enc_OutPoint_def AppendBinary_def)
  show "parses read_OutPoint (enc_OutPoint p) p" if "wf_OutPoint p" for p
    using that unfolding read_OutPoint_def enc_OutPoint_def wf_OutPoint_def
    by (intro parses_bind [OF parses_ReadBinary] parses_last [OF word_parses(3)]) simp_all
  show "safe read_OutPoint"
    unfolding read_OutPoint_def by (intro safe_intros)
qed

interpretation TxIn_codec: codec write_TxIn read_TxIn enc_TxIn wf_TxIn
proof
  show "write_TxIn i a = a\<lparr>vec := vec a @ enc_TxIn i\<rparr>" for i a
    by (simp add: write_TxIn_def enc_TxIn_def Script_codec.put_enc OutPoint_codec.put_enc)
  show "parses read_TxIn (enc_TxIn i) i" if "wf_TxIn i" for i
    using that unfolding read_TxIn_def enc_TxIn_def wf_TxIn_def
    by (intro parses_bind [OF OutPoint_codec.get_parses] parses_bind [OF Script_codec.get_parses]
        parses_last [OF word_parses(3)]) simp_all
  show "safe read_TxIn"
    unfolding read_TxIn_def by (intro safe_intros OutPoint_codec.get_safe Script_codec.get_safe)
qed

interpretation TxOut_codec: codec write_TxOut read_TxOut enc_TxOut wf_TxOut
proof
  show "write_TxOut out a = a\<lparr>vec := vec a @ enc_TxOut out\<rparr>" for out a
    by (simp add: write_TxOut_def enc_TxOut_def Script_codec.put_enc)
  show "parses read_TxOut (enc_TxOut out) out" if "wf_TxOut out" for out
    using that unfolding read_TxOut_def enc_TxOut_def wf_TxOut_def
    by (intro parses_bind [OF word_parses(4)] parses_last [OF Script_codec.get_parses]) simp_all
  show "safe read_TxOut"
    unfolding read_TxOut_def by (intro safe_intros Script_codec.get_safe)
qed

interpretation Transaction_codec: codec write_Transaction read_Transaction enc_Transaction wf_Transaction
proof
  show "write_Transaction t a = a\<lparr>vec := vec a @ enc_Transaction t\<rparr>" for t a
    by (simp add: write_Transaction_def enc_Transaction_def Let_def put_VarInt
        TxIn_codec.put_all_enc TxOut_codec.put_all_enc)
  show "parses read_Transaction (enc_Transaction t) t" if "wf_Transaction t" for t
  proof -
    have ins: "parses (get_all read_TxIn (unat (of_nat (length (tx_in t)) :: uint64)))
        (concat (map enc_TxIn (tx_in t))) (tx_in t)"
      using that TxIn_codec.get_all_parses by (simp add: wf_Transaction_def)
    have outs: "parses (get_all read_TxOut (unat (of_nat (length (tx_out t)) :: uint64)))
        (concat (map enc_TxOut (tx_out t))) (tx_out t)"
      using that TxOut_codec.get_all_parses by (simp add: wf_Transaction_def)
    show ?thesis
      unfolding read_Transaction_def enc_Transaction_def
      by (intro parses_bind [OF word_parses(3)] parses_bind [OF parses_VarInt] parses_bind [OF ins]
          parses_bind [OF outs] parses_last [OF word_parses(3)]) simp
  qed
  show "safe read_Transaction"
    unfolding read_Transaction_def
    by (intro safe_intros safe_VarInt TxIn_codec.get_all_safe TxOut_codec.get_all_safe)
qed

text \<open>
  Reading a block needs the object that is filled, whose signature and Merkle tree are not
  part of the encoding.
\<close>

interpretation Block_codec: codec write_Block "read_Block b" enc_Block
  "\<lambda>x. wf_Block x \<and> blk_signature x = blk_signature b \<and> blk_merkleTree x = blk_merkleTree b" for b
proof
  show "write_Block x a = a\<lparr>vec := vec a @ enc_Block x\<rparr>" for x a
    by (simp add: write_Block_def write_header_def enc_Block_def enc_header_def Let_def put_VarInt
        AppendBinary_def Transaction_codec.put_all_enc)
  show "parses (read_Block b) (enc_Block x) x"
    if "wf_Block x \<and> blk_signature x = blk_signature b \<and> blk_merkleTree x = blk_merkleTree b" for x
  proof -
    have txs: "parses (get_all read_Transaction (unat (of_nat (length (blk_tx x)) :: uint64)))
        (concat (map enc_Transaction (blk_tx x))) (blk_tx x)"
      using that Transaction_codec.get_all_parses by (simp add: wf_Block_def)
    have prev: "parses (ReadBinary 32) (blk_prevBlockHash x) (blk_prevBlockHash x)"
      and root: "parses (ReadBinary 32) (blk_merkleRootHash x) (blk_merkleRootHash x)"
      using that by (auto simp: wf_Block_def intro!: parses_ReadBinary)
    show ?thesis
      unfolding read_Block_def enc_Block_def enc_header_def append_assoc
      using that
      by (intro parses_bind [OF word_parses(3)] parses_bind [OF prev] parses_bind [OF root]
          parses_bind [OF parses_VarInt] parses_last [OF txs]) simp
  qed
  show "safe (read_Block b)"
    unfolding read_Block_def by (intro safe_intros safe_VarInt Transaction_codec.get_all_safe)
qed

section \<open>Properties\<close>

text \<open>
  A variable-length integer is read back from what was written, for every 64-bit value, and
  takes 1, 3, 5 or 9 bytes.
\<close>

theorem VarInt_round_trip:
  "read_VarInt (write_VarInt v ByteBuffer_new)
     = Inr (v, advance (length (enc_VarInt v)) (write_VarInt v ByteBuffer_new))
   \<and> length (vec (write_VarInt v ByteBuffer_new))
     = (if v < 0xfd then 1 else if v \<le> 0xffff then 3 else if v \<le> 0xffffffff then 5 else 9)"
proof
  show "read_VarInt (write_VarInt v ByteBuffer_new)
     = Inr (v, advance (length (enc_VarInt v)) (write_VarInt v ByteBuffer_new))"
    by (rule VarInt_codec.round_trip) (simp_all add: enc_VarInt_def)
  show "length (vec (write_VarInt v ByteBuffer_new))
     = (if v < 0xfd then 1 else if v \<le> 0xffff then 3 else if v \<le> 0xffffffff then 5 else 9)"
    by (simp add: put_VarInt enc_VarInt_def ByteBuffer_new_def)
qed

text \<open>A buffer that was written from the start and read to the end.\<close>

lemma remaining_written:
  "length e < 2 ^ 63 \<Longrightarrow> vec b = e \<Longrightarrow> pointer b = 0 \<Longrightarrow> remaining (advance (length e) b) = []"
  using remaining_advance [of b "length e"] by (simp add: bb_ok_def remaining_def)

text \<open>
  A transaction is read back from the bytes written for it, field by field, and the reader
  has then consumed all of them.
\<close>

theorem Transaction_round_trip:
  assumes "wf_Transaction t" and "length (enc_Transaction t) < 2 ^ 63"
  shows "\<exists>b. read_Transaction (write_Transaction t ByteBuffer_new) = Inr (t, b) \<and> remaining b = []"
  using Transaction_codec.round_trip [OF assms] assms(2)
  by (auto simp: Transaction_codec.put_enc ByteBuffer_new_def intro!: remaining_written)

theorem Transaction_round_trip_witness:
  "\<exists>b. read_Transaction (write_Transaction \<lparr>tx_version = 1,
      tx_in = [\<lparr>in_prevout = \<lparr>op_hash = replicate 32 7, op_n = 3\<rparr>, in_script = \<lparr>script = [1, 2]\<rparr>, in_n = 9\<rparr>],
      tx_out = [\<lparr>out_value = 50, out_scriptPubKey = \<lparr>script = [0xAC]\<rparr>\<rparr>], tx_lockTime = 5\<rparr> ByteBuffer_new)
     = Inr (\<lparr>tx_version = 1,
      tx_in = [\<lparr>in_prevout = \<lparr>op_hash = replicate 32 7, op_n = 3\<rparr>, in_script = \<lparr>script = [1, 2]\<rparr>, in_n = 9\<rparr>],
      tx_out = [\<lparr>out_value = 50, out_scriptPubKey = \<lparr>script = [0xAC]\<rparr>\<rparr>], tx_lockTime = 5\<rparr>, b)
     \<and> remaining b = []"
  by (rule Transaction_round_trip)
    (simp_all add: wf_Transaction_def wf_TxIn_def wf_OutPoint_def wf_Script_def wf_TxOut_def
      enc_Transaction_def enc_TxIn_def enc_OutPoint_def enc_TxOut_def enc_Script_def enc_VarInt_def)

text \<open>What \<^verbatim>\<open>operator<<\<close> wrote, \<^verbatim>\<open>operator>>\<close> reads.\<close>

lemma block_read_back:
  assumes "wf_Block x" and "length (enc_Block x) < 2 ^ 63"
  shows "\<exists>b. read_Block old (write_Block x ByteBuffer_new)
      = Inr (x\<lparr>blk_signature := blk_signature old, blk_merkleTree := blk_merkleTree old\<rparr>, b)
    \<and> remaining b = []"
proof -
  let ?x = "x\<lparr>blk_signature := blk_signature old, blk_merkleTree := blk_merkleTree old\<rparr>"
  have enc: "enc_Block ?x = enc_Block x" by (simp add: enc_Block_def enc_header_def)
  have put: "write_Block ?x ByteBuffer_new = write_Block x ByteBuffer_new"
    by (simp add: Block_codec.put_enc enc)
  have "wf_Block ?x" using assms(1) by (simp add: wf_Block_def)
  with assms(2) have "read_Block old (write_Block x ByteBuffer_new)
      = Inr (?x, advance (length (enc_Block x)) (write_Block x ByteBuffer_new))"
    using Block_codec.round_trip [of ?x old] by (simp add: enc put)
  moreover have "remaining (advance (length (enc_Block x)) (write_Block x ByteBuffer_new)) = []"
    using assms(2) by (intro remaining_written) (simp_all add: Block_codec.put_enc ByteBuffer_new_def)
  ultimately show ?thesis by blast
qed

text \<open>
  C35. A block is read back from its serialisation, into any block object: all header fields and
  transactions are restored, and the signature and Merkle tree of the object stay.
\<close>

theorem Block_round_trip:
  assumes "wf_Block x" and "length (enc_Block x) < 2 ^ 63"
  shows "\<exists>b. read_Block old (write_Block x ByteBuffer_new)
      = Inr (x\<lparr>blk_signature := blk_signature old, blk_merkleTree := blk_merkleTree old\<rparr>, b)
    \<and> remaining b = []"
  using assms by (rule block_read_back)

definition sample_block :: Block where
  "sample_block = \<lparr>blk_version = 2, blk_prevBlockHash = replicate 32 1,
     blk_merkleRootHash = replicate 32 2, blk_time = 3, blk_bits = 4, blk_nonce = 5,
     blk_signature = [], blk_tx = [\<lparr>tx_version = 1, tx_in = [], tx_out = [], tx_lockTime = 0\<rparr>],
     blk_merkleTree = []\<rparr>"

theorem Block_round_trip_witness:
  "\<exists>b. read_Block sample_block (write_Block sample_block ByteBuffer_new)
      = Inr (sample_block\<lparr>blk_signature := [], blk_merkleTree := []\<rparr>, b) \<and> remaining b = []"
  using Block_round_trip [of sample_block sample_block]
  by (simp add: sample_block_def wf_Block_def wf_Transaction_def enc_Block_def enc_header_def
      enc_Transaction_def enc_VarInt_def)



end
