(* ===== verification/Hex.thy ===== *)
theory Hex
  imports Prelude
begin

text \<open>
  The text forms of bytes and numbers: the hexadecimal coding of byte strings and the byte-list
  helpers of \<open>shared/Util.cpp\<close>, and the hexadecimal stream output and input of 32-bit integers with
  which \<open>Stratum/Client.cpp\<close> prints and reads job numbers.
\<close>

section \<open>Hexadecimal coding of bytes (Util.cpp)\<close>

text \<open>
  The comparisons are on \<^verbatim>\<open>char\<close> codes; a code above 127 is negative in the source and satisfies
  none of the three tests, as here.
\<close>

definition ASCIIToHex :: "char \<Rightarrow> uint8" where
  "ASCIIToHex ch =
     (let c = (of_char ch :: nat) in
      if c > 47 \<and> c < 58 then of_nat (c - 48)
      else if c > 64 \<and> c < 71 then of_nat (c - 55)
      else if c > 96 \<and> c < 103 then of_nat (c - 87)
      else 0)"

definition ASCIIToBin_step :: "string \<Rightarrow> nat \<Rightarrow> BinaryData \<Rightarrow> BinaryData" where
  "ASCIIToBin_step str i data =
     (if i mod 2 \<noteq> 0 then data[i div 2 := data ! (i div 2) + ASCIIToHex (str ! i)]
      else data[i div 2 := data ! (i div 2) + ASCIIToHex (str ! i) * 16])"

definition ASCIIToBin :: "string \<Rightarrow> BinaryData" where
  "ASCIIToBin str =
     fold (ASCIIToBin_step str) [0..<length str] (replicate ((length str + 1) div 2) 0)"

definition hex_digit :: "uint8 \<Rightarrow> char" where
  "hex_digit n = ''0123456789abcdef'' ! unat n"

definition BinToASCII :: "BinaryData \<Rightarrow> string" where
  "BinToASCII data = fold (\<lambda>b str. (str @ [hex_digit (b div 16)]) @ [hex_digit (b mod 16)]) data []"

definition Reverse :: "BinaryData \<Rightarrow> BinaryData" where
  "Reverse data = rev data"

definition Join :: "BinaryData \<Rightarrow> BinaryData \<Rightarrow> BinaryData" where
  "Join v1 v2 = v1 @ v2"

subsection \<open>Reference definitions\<close>

text \<open>Two digits a byte, the high one first; a single digit at the end is a high one.\<close>

fun hex_bytes :: "string \<Rightarrow> BinaryData" where
  "hex_bytes [] = []"
| "hex_bytes [c] = [ASCIIToHex c * 16]"
| "hex_bytes (c # d # s) = (ASCIIToHex c * 16 + ASCIIToHex d) # hex_bytes s"

lemma length_hex_bytes: "length (hex_bytes s) = (length s + 1) div 2"
  by (induction s rule: hex_bytes.induct) simp_all

lemma nth_hex_bytes:
  "2 * j < length s \<Longrightarrow> hex_bytes s ! j =
     ASCIIToHex (s ! (2 * j)) * 16 + (if 2 * j + 1 < length s then ASCIIToHex (s ! (2 * j + 1)) else 0)"
proof (induction s arbitrary: j rule: hex_bytes.induct)
  case (3 c d s)
  then show ?case by (cases j) simp_all
qed simp_all

text \<open>Byte \<open>j\<close> after the decoding loop has seen \<open>k\<close> characters.\<close>

definition hex_partial :: "string \<Rightarrow> nat \<Rightarrow> nat \<Rightarrow> byte" where
  "hex_partial str k j =
     (if 2 * j < k then ASCIIToHex (str ! (2 * j)) * 16 else 0)
     + (if 2 * j + 1 < k then ASCIIToHex (str ! (2 * j + 1)) else 0)"

lemma hex_partial_other: "j \<noteq> k div 2 \<Longrightarrow> hex_partial str (Suc k) j = hex_partial str k j"
  by (auto simp: hex_partial_def)

lemma hex_partial_even: "k mod 2 = 0 \<Longrightarrow>
    hex_partial str (Suc k) (k div 2) = hex_partial str k (k div 2) + ASCIIToHex (str ! k) * 16"
  by (auto simp: hex_partial_def)

lemma hex_partial_odd:
  assumes "k mod 2 \<noteq> 0"
  shows "hex_partial str (Suc k) (k div 2) = hex_partial str k (k div 2) + ASCIIToHex (str ! k)"
proof -
  from assms have "odd k" by presburger
  then obtain m where "k = 2 * m + 1" by (rule oddE)
  then show ?thesis by (simp add: hex_partial_def)
qed

lemma ASCIIToBin_loop:
  "k \<le> length str \<Longrightarrow>
     fold (ASCIIToBin_step str) [0..<k] (replicate ((length str + 1) div 2) 0)
     = map (hex_partial str k) [0..<(length str + 1) div 2]"
proof (induction k)
  case 0
  have "hex_partial str 0 = (\<lambda>_. 0)" by (simp add: hex_partial_def fun_eq_iff)
  then show ?case by (simp add: map_replicate_const)
next
  case (Suc k)
  let ?n = "(length str + 1) div 2"
  have k: "k div 2 < ?n" using Suc.prems by simp
  have upd: "(map (hex_partial str k) [0..<?n])[k div 2 := hex_partial str (Suc k) (k div 2)]
      = map (hex_partial str (Suc k)) [0..<?n]" (is "?l = ?r")
  proof (rule nth_equalityI)
    show "?l ! i = ?r ! i" if "i < length ?l" for i
      using that by (cases "i = k div 2") (simp_all add: hex_partial_other)
  qed simp
  have "fold (ASCIIToBin_step str) [0..<Suc k] (replicate ?n 0)
      = ASCIIToBin_step str k (map (hex_partial str k) [0..<?n])"
    using Suc by simp
  also have "\<dots> = map (hex_partial str (Suc k)) [0..<?n]"
    using k by (cases "k mod 2 = 0")
      (simp_all add: ASCIIToBin_step_def hex_partial_even [symmetric] hex_partial_odd [symmetric]
        upd [simplified])
  finally show ?case .
qed

text \<open>The index loop of the source computes the same bytes as the reference.\<close>

lemma ASCIIToBin_eq: "ASCIIToBin s = hex_bytes s"
proof (rule nth_equalityI)
  show "length (ASCIIToBin s) = length (hex_bytes s)"
    unfolding ASCIIToBin_def ASCIIToBin_loop [OF order_refl] by (simp add: length_hex_bytes)
next
  fix j assume "j < length (ASCIIToBin s)"
  then have "j < (length s + 1) div 2" unfolding ASCIIToBin_def ASCIIToBin_loop [OF order_refl] by simp
  then have "2 * j < length s" and "j < (length s + 1) div 2" by simp_all
  then show "ASCIIToBin s ! j = hex_bytes s ! j"
    unfolding ASCIIToBin_def ASCIIToBin_loop [OF order_refl]
    by (simp add: nth_hex_bytes hex_partial_def)
qed

lemma BinToASCII_eq: "BinToASCII data = concat (map (\<lambda>b. [hex_digit (b div 16), hex_digit (b mod 16)]) data)"
proof -
  have "fold (\<lambda>b str. (str @ [hex_digit (b div 16)]) @ [hex_digit (b mod 16)]) data acc
      = acc @ concat (map (\<lambda>b. [hex_digit (b div 16), hex_digit (b mod 16)]) data)" for acc
    by (induction data arbitrary: acc) simp_all
  then show ?thesis by (simp add: BinToASCII_def)
qed

subsection \<open>Round trips\<close>

lemma ASCIIToHex_digit_nat: "n < 16 \<Longrightarrow> ASCIIToHex (''0123456789abcdef'' ! n) = of_nat n"
proof -
  have "list_all (\<lambda>n. ASCIIToHex (''0123456789abcdef'' ! n) = of_nat n) [0..<16]"
    by (simp add: upt_rec ASCIIToHex_def)
  then show "n < 16 \<Longrightarrow> ASCIIToHex (''0123456789abcdef'' ! n) = of_nat n"
    by (simp add: list_all_iff)
qed

lemma ASCIIToHex_hex_digit: "n < 16 \<Longrightarrow> ASCIIToHex (hex_digit n) = n"
  by (simp add: hex_digit_def ASCIIToHex_digit_nat word_less_nat_alt)

lemma ASCIIToHex_byte: "ASCIIToHex (hex_digit (b div 16)) * 16 + ASCIIToHex (hex_digit (b mod 16)) = b"
proof -
  have "unat b < 256" using unsigned_less [of b] by simp
  then have "b div 16 < 16" and "b mod 16 < 16"
    by (simp_all add: word_less_nat_alt unat_div unat_mod)
  then show ?thesis by (simp add: ASCIIToHex_hex_digit div_mult_mod_eq)
qed

lemma BinToASCII_round_trip: "ASCIIToBin (BinToASCII data) = data"
  unfolding ASCIIToBin_eq BinToASCII_eq
  by (induction data) (simp_all add: ASCIIToHex_byte)

lemma length_BinToASCII [simp]: "length (BinToASCII data) = 2 * length data"
  unfolding BinToASCII_eq by (induction data) simp_all

lemma length_ASCIIToBin [simp]: "length (ASCIIToBin str) = (length str + 1) div 2"
  by (simp add: ASCIIToBin_eq length_hex_bytes)

section \<open>Stream output and input of 32-bit numbers in hexadecimal\<close>

text \<open>\<^verbatim>\<open>ss << std::hex << n\<close>: lower-case digits, no prefix, no leading zeros.\<close>

fun show_hex :: "nat \<Rightarrow> string" where
  "show_hex n =
     (if n < 16 then [''0123456789abcdef'' ! n]
      else show_hex (n div 16) @ [''0123456789abcdef'' ! (n mod 16)])"

declare show_hex.simps [simp del]

definition write_hex_u32 :: "uint32 \<Rightarrow> string" where
  "write_hex_u32 n = show_hex (unat n)"

definition is_space :: "char \<Rightarrow> bool" where
  "is_space c \<longleftrightarrow> (of_char c :: nat) \<in> {9, 10, 11, 12, 13, 32}"

definition is_hex :: "char \<Rightarrow> bool" where
  "is_hex ch \<longleftrightarrow>
     (let c = (of_char ch :: nat) in 47 < c \<and> c < 58 \<or> 64 < c \<and> c < 71 \<or> 96 < c \<and> c < 103)"

definition hex_value :: "string \<Rightarrow> nat" where
  "hex_value ds = foldl (\<lambda>v c. 16 * v + unat (ASCIIToHex c)) 0 ds"

fun skip_0x :: "string \<Rightarrow> string" where
  "skip_0x (c # x # r) = (if c = CHR ''0'' \<and> (x = CHR ''x'' \<or> x = CHR ''X'') then r else c # x # r)"
| "skip_0x s = s"

text \<open>
  \<^verbatim>\<open>ss >> n\<close> of an unsigned 32-bit \<open>n\<close> on a stream in hexadecimal mode. White space is skipped; if
  nothing is left the extraction does not start and \<open>n\<close> keeps its value \<open>old\<close>. Then come an optional
  sign, an optional prefix \<open>0x\<close>, and as many digits as there are: without any, 0 is stored; a
  value too large for the type stores the type's maximum; a minus sign negates modulo \<open>2 ^ 32\<close>.
\<close>

definition read_hex_u32 :: "uint32 \<Rightarrow> string \<Rightarrow> uint32" where
  "read_hex_u32 old str =
     (let s = dropWhile is_space str in
      if s = [] then old
      else
        let neg = (hd s = CHR ''-'');
            s = (if hd s = CHR ''-'' \<or> hd s = CHR ''+'' then tl s else s);
            ds = takeWhile is_hex (skip_0x s)
        in if ds = [] then 0
           else if hex_value ds \<ge> 2 ^ 32 then - 1
           else if neg then - of_nat (hex_value ds) else of_nat (hex_value ds))"

lemma hex_digit_props:
  assumes "n < 16"
  shows "is_hex (''0123456789abcdef'' ! n)" "\<not> is_space (''0123456789abcdef'' ! n)"
    "''0123456789abcdef'' ! n \<noteq> CHR ''-''" "''0123456789abcdef'' ! n \<noteq> CHR ''+''"
    "''0123456789abcdef'' ! n \<noteq> CHR ''x''" "''0123456789abcdef'' ! n \<noteq> CHR ''X''"
proof -
  have "list_all (\<lambda>n. let d = ''0123456789abcdef'' ! n in is_hex d \<and> \<not> is_space d
      \<and> d \<noteq> CHR ''-'' \<and> d \<noteq> CHR ''+'' \<and> d \<noteq> CHR ''x'' \<and> d \<noteq> CHR ''X'') [0..<16]"
    by (simp add: upt_rec is_hex_def is_space_def)
  with assms show "is_hex (''0123456789abcdef'' ! n)" "\<not> is_space (''0123456789abcdef'' ! n)"
    "''0123456789abcdef'' ! n \<noteq> CHR ''-''" "''0123456789abcdef'' ! n \<noteq> CHR ''+''"
    "''0123456789abcdef'' ! n \<noteq> CHR ''x''" "''0123456789abcdef'' ! n \<noteq> CHR ''X''"
    by (simp_all add: list_all_iff Let_def)
qed

lemma set_show_hex: "set (show_hex n) \<subseteq> {''0123456789abcdef'' ! k | k. k < 16}"
proof (induction n rule: show_hex.induct)
  case (1 n)
  then show ?case by (subst show_hex.simps) (auto intro: exI [of _ "n mod 16"])
qed

lemma BinToASCII_digits: "set (BinToASCII bs) \<subseteq> set ''0123456789abcdef''"
proof -
  have digit: "hex_digit n \<in> set ''0123456789abcdef''" if "unat n < 16" for n
    unfolding hex_digit_def by (rule nth_mem) (use that in simp)
  have "unat (b div 16) < 16" "unat (b mod 16) < 16" for b :: byte
    using unsigned_less [of b, where ?'a = nat] by (simp_all add: unat_div unat_mod)
  with digit show ?thesis by (induction bs) (auto simp: BinToASCII_eq)
qed

lemma hex_no_quotes:
  "set (BinToASCII bs) \<inter> {CHR 0x22, CHR 0x27} = {}" "set (write_hex_u32 k) \<inter> {CHR 0x22, CHR 0x27} = {}"
proof -
  show "set (BinToASCII bs) \<inter> {CHR 0x22, CHR 0x27} = {}" using BinToASCII_digits [of bs] by auto
  have "''0123456789abcdef'' ! n \<in> set ''0123456789abcdef''" if "n < 16" for n
    by (rule nth_mem) (use that in simp)
  then have "set (write_hex_u32 k) \<subseteq> set ''0123456789abcdef''"
    using set_show_hex [of "unat k"] unfolding write_hex_u32_def by blast
  then show "set (write_hex_u32 k) \<inter> {CHR 0x22, CHR 0x27} = {}" by auto
qed

lemma show_hex_nonempty: "show_hex n \<noteq> []"
  by (subst show_hex.simps) simp

lemma hex_value_show_hex: "hex_value (show_hex n) = n"
proof (induction n rule: show_hex.induct)
  case (1 n)
  then show ?case
    by (subst show_hex.simps) (auto simp: hex_value_def ASCIIToHex_digit_nat)
qed

lemma read_hex_digits:
  assumes "ds \<noteq> []" and digits: "set ds \<subseteq> {''0123456789abcdef'' ! k | k. k < 16}"
    and small: "hex_value ds < 2 ^ 32"
  shows "read_hex_u32 old ds = of_nat (hex_value ds)"
proof -
  obtain c r where ds: "ds = c # r" using assms(1) by (cases ds) auto
  have x: "is_hex x \<and> \<not> is_space x \<and> x \<noteq> CHR ''-'' \<and> x \<noteq> CHR ''+'' \<and> x \<noteq> CHR ''x'' \<and> x \<noteq> CHR ''X''"
    if "x \<in> set ds" for x
  proof -
    from digits that obtain k where "k < 16" and x: "x = ''0123456789abcdef'' ! k" by blast
    from hex_digit_props [OF this(1)] show ?thesis by (simp only: x simp_thms)
  qed
  from x [of c] have c: "\<not> is_space c" "c \<noteq> CHR ''-''" "c \<noteq> CHR ''+''" by (simp_all add: ds)
  have "skip_0x ds = ds" using x by (cases ds rule: skip_0x.cases) auto
  moreover have "takeWhile is_hex ds = ds" using x by simp
  moreover have "dropWhile is_space ds = ds" "hd ds = c" using c by (simp_all add: ds)
  ultimately show ?thesis
    using c small assms(1) by (simp add: read_hex_u32_def Let_def del: takeWhile_eq_all_conv)
qed

lemma read_hex_write_hex: "read_hex_u32 old (write_hex_u32 n) = n"
  using read_hex_digits [OF show_hex_nonempty set_show_hex, of "unat n" old]
    unsigned_less [of n, where ?'a = nat]
  by (simp add: write_hex_u32_def hex_value_show_hex)

text \<open>The number that the hexadecimal text of bytes denotes has these bytes as its digits to base 256.\<close>

lemma hex_value_BinToASCII: "hex_value (BinToASCII bs) = foldl (\<lambda>v b. 256 * v + unat b) 0 bs"
proof -
  have digit: "unat (ASCIIToHex (hex_digit n)) = unat n" if "unat n < 16" for n
    using that by (simp add: ASCIIToHex_hex_digit word_less_nat_alt)
  have byte: "unat (ASCIIToHex (hex_digit (b div 16))) = unat b div 16"
    "unat (ASCIIToHex (hex_digit (b mod 16))) = unat b mod 16" for b :: byte
    using unsigned_less [of b, where ?'a = nat] by (simp_all add: digit unat_div unat_mod)
  have "foldl (\<lambda>v c. 16 * v + unat (ASCIIToHex c)) acc (concat (map (\<lambda>b. [hex_digit (b div 16), hex_digit (b mod 16)]) bs))
      = foldl (\<lambda>v b. 256 * v + unat b) acc bs" for acc
    by (induction bs arbitrary: acc) (simp_all add: byte algebra_simps)
  then show ?thesis by (simp add: hex_value_def BinToASCII_eq)
qed

section \<open>Decimal numbers and format strings\<close>

text \<open>Decimal output of a number.\<close>

fun show_dec :: "nat \<Rightarrow> string" where
  "show_dec n = (if n < 10 then [''0123456789'' ! n] else show_dec (n div 10) @ [''0123456789'' ! (n mod 10)])"

declare show_dec.simps [simp del]

definition is_digit :: "char \<Rightarrow> bool" where
  "is_digit c \<longleftrightarrow> c \<in> set ''0123456789''"

definition digit_value :: "char \<Rightarrow> nat" where
  "digit_value c = of_char c - 48"

lemma show_dec_digits: "\<forall>c \<in> set (show_dec n). is_digit c"
proof (induction n rule: show_dec.induct)
  case (1 n)
  have "d < 10 \<Longrightarrow> is_digit (''0123456789'' ! d)" for d :: nat
    unfolding is_digit_def by (rule nth_mem) simp
  then show ?case using 1 by (subst show_dec.simps) auto
qed

lemma digit_value_nth: "d < 10 \<Longrightarrow> digit_value (''0123456789'' ! d) = d" for d :: nat
proof -
  have "\<forall>d \<in> {..<10}. digit_value (''0123456789'' ! d) = d" by code_simp
  then show "d < 10 \<Longrightarrow> digit_value (''0123456789'' ! d) = d" by simp
qed

lemma show_dec_value: "fold (\<lambda>c n. n * 10 + int (digit_value c)) (show_dec n) 0 = int n"
proof (induction n rule: show_dec.induct)
  case (1 n)
  show ?case
  proof (cases "n < 10")
    case True
    then show ?thesis by (subst show_dec.simps) (simp add: digit_value_nth)
  next
    case False
    have "int n = int (n div 10) * 10 + int (n mod 10)" by presburger
    with 1 False show ?thesis by (subst show_dec.simps) (simp add: digit_value_nth)
  qed
qed

text \<open>
  \<^verbatim>\<open>%u\<close> in a format string prints an \<^verbatim>\<open>unsigned int\<close>. Some callers pass a \<^verbatim>\<open>uint64\<close> for it; with the
  calling convention of the platform, where every argument has a slot of 64 bits, its low 32
  bits are printed.
\<close>

definition show_u :: "'a::len word \<Rightarrow> string" where
  "show_u x = show_dec (unat (ucast x :: uint32))"

text \<open>\<^verbatim>\<open>%s\<close> prints a string up to its first NUL character.\<close>

definition c_str :: "string \<Rightarrow> string" where
  "c_str s = takeWhile (\<lambda>c. c \<noteq> CHR 0x00) s"

text \<open>\<^verbatim>\<open>Util::FS\<close> formats into a buffer of \<open>MAX_FORMAT_LEN\<close> characters, one of them the final NUL.\<close>

definition FS :: "string list \<Rightarrow> string" where
  "FS parts = take (32 * 1024 - 1) (concat parts)"

fun join_with :: "string \<Rightarrow> string list \<Rightarrow> string" where
  "join_with sep [] = []"
| "join_with sep [s] = s"
| "join_with sep (s # ss) = s @ sep @ join_with sep ss"

section \<open>Properties\<close>

text \<open>
  The decoding loop, which adds each digit into a vector of zeros by index, computes the
  bytes of the two-digits-a-byte reference for every string, also one of odd length or with
  characters that are no digits.
\<close>

theorem ASCIIToBin_reference:
  "ASCIIToBin s = hex_bytes s \<and> length (ASCIIToBin s) = (length s + 1) div 2"
  by (simp add: ASCIIToBin_eq length_hex_bytes)

text \<open>Decoding the hexadecimal text of a byte string gives the byte string back.\<close>

theorem hex_round_trip: "ASCIIToBin (BinToASCII data) = data"
  by (rule BinToASCII_round_trip)

text \<open>
  The number of a job, printed by \<^verbatim>\<open>SendJob\<close>, is read back by \<^verbatim>\<open>OnMiningSubmit\<close>, whatever the
  variable held before.
\<close>

theorem job_number_round_trip: "read_hex_u32 old (write_hex_u32 n) = n"
  by (rule read_hex_write_hex)

end
