(* ===== verification/Merkle.thy ===== *)
theory Merkle
  imports Serialization Hex
begin

text \<open>
  Hashing and the Merkle tree: \<open>shared/Crypto.cpp\<close>, \<open>Transaction::GetHash\<close>, \<open>Block.cpp\<close>, and the loop of
  \<open>Client::SendJob\<close> that collects the Merkle branch. SHA-256 itself is OpenSSL's; it is the
  parameter \<open>sha\<close> of every definition. The tree is one flat vector, level after level; the loops
  walk it with \<^verbatim>\<open>uint32\<close> offsets, which are natural numbers here: \<open>merkle_rows_bound\<close> shows that none
  of them reaches \<open>2 ^ 32\<close> for a block of up to \<open>2 ^ 30\<close> transactions.
\<close>

section \<open>Hashing\<close>

type_synonym hash_fn = "BinaryData \<Rightarrow> BinaryData"

definition SHA256 :: "hash_fn \<Rightarrow> BinaryData \<Rightarrow> BinaryData" where
  "SHA256 sha data = sha data"

definition SHA256D :: "hash_fn \<Rightarrow> BinaryData \<Rightarrow> BinaryData" where
  "SHA256D sha data = SHA256 sha (SHA256 sha data)"

definition tx_GetHash :: "hash_fn \<Rightarrow> Transaction \<Rightarrow> BinaryData" where
  "tx_GetHash sha t = SHA256D sha (Binary (write_Transaction t ByteBuffer_new))"

definition blk_GetHash :: "hash_fn \<Rightarrow> Block \<Rightarrow> BinaryData" where
  "blk_GetHash sha b = SHA256D sha (Binary (write_header b ByteBuffer_new))"

section \<open>The tree (Block.cpp)\<close>

text \<open>
  The inner loop of \<^verbatim>\<open>BuildMerkleTree\<close>: the level of \<open>n\<close> nodes that starts at \<open>j\<close> is hashed pair by
  pair to the end of the vector, the last node with itself when \<open>n\<close> is odd.
\<close>

function build_row :: "hash_fn \<Rightarrow> nat \<Rightarrow> nat \<Rightarrow> nat \<Rightarrow> BinaryData list \<Rightarrow> BinaryData list" where
  "build_row sha j n i t =
     (if i < n
      then let i2 = min (i + 1) (n - 1) in
        build_row sha j n (i + 2) (t @ [SHA256D sha (Join (t ! (j + i)) (t ! (j + i2)))])
      else t)"
  by pat_completeness auto
termination
  by (relation "measure (\<lambda>(sha, j, n, i, t). n - i)") auto

declare build_row.simps [simp del]

text \<open>The outer loop: one level after the other, until a level has one node.\<close>

function build_rows :: "hash_fn \<Rightarrow> nat \<Rightarrow> nat \<Rightarrow> BinaryData list \<Rightarrow> BinaryData list" where
  "build_rows sha j n t =
     (if n > 1 then build_rows sha (j + n) ((n + 1) div 2) (build_row sha j n 0 t) else t)"
  by pat_completeness auto
termination
  by (relation "measure (\<lambda>(sha, j, n, t). n)") auto

declare build_rows.simps [simp del]

definition BuildMerkleTree :: "hash_fn \<Rightarrow> Block \<Rightarrow> Block result" where
  "BuildMerkleTree sha b =
     (let t = build_rows sha 0 (length (blk_tx b)) (map (tx_GetHash sha) (blk_tx b)) in
      if t = [] then Inl (Undefined ''index outside the vector'')
      else Inr (b\<lparr>blk_merkleTree := t, blk_merkleRootHash := t ! (length t - 1)\<rparr>))"

text \<open>
  \<^verbatim>\<open>RebuildMerkleTree\<close> recomputes the leftmost node of every level only. It writes at offsets
  computed from the number of transactions, so a tree of another size makes it write outside
  the vector.
\<close>

function rebuild_rows :: "hash_fn \<Rightarrow> nat \<Rightarrow> nat \<Rightarrow> BinaryData list \<Rightarrow> BinaryData list result" where
  "rebuild_rows sha j n t =
     (if n > 1
      then if j + n < length t
        then rebuild_rows sha (j + n) ((n + 1) div 2) (t[j + n := SHA256D sha (Join (t ! j) (t ! (j + 1)))])
        else Inl (Undefined ''index outside the vector'')
      else Inr t)"
  by pat_completeness auto
termination
  by (relation "measure (\<lambda>(sha, j, n, t). n)") auto

declare rebuild_rows.simps [simp del]

definition RebuildMerkleTree :: "hash_fn \<Rightarrow> Block \<Rightarrow> Block result" where
  "RebuildMerkleTree sha b =
     (if blk_tx b = [] \<or> blk_merkleTree b = [] then Inl (Undefined ''index outside the vector'')
      else bindR (rebuild_rows sha 0 (length (blk_tx b))
                   ((blk_merkleTree b)[0 := tx_GetHash sha (blk_tx b ! 0)]))
             (\<lambda>t. Inr (b\<lparr>blk_merkleTree := t, blk_merkleRootHash := t ! (length t - 1)\<rparr>)))"

text \<open>The Merkle branch a miner is sent: the second node of every level (\<open>Client::SendJob\<close>).\<close>

function merkle_branch :: "nat \<Rightarrow> nat \<Rightarrow> BinaryData list \<Rightarrow> BinaryData list result" where
  "merkle_branch j n t =
     (if n > 1
      then if j + 1 < length t
        then bindR (merkle_branch (j + n) ((n + 1) div 2) t) (\<lambda>rest. Inr (t ! (j + 1) # rest))
        else Inl (Undefined ''index outside the vector'')
      else Inr [])"
  by pat_completeness auto
termination
  by (relation "measure (\<lambda>(j, n, t). n)") auto

declare merkle_branch.simps [simp del]

section \<open>Reference: the Merkle root of a list of hashes\<close>

fun merkle_level :: "hash_fn \<Rightarrow> BinaryData list \<Rightarrow> BinaryData list" where
  "merkle_level sha [] = []"
| "merkle_level sha [x] = [SHA256D sha (x @ x)]"
| "merkle_level sha (x # y # r) = SHA256D sha (x @ y) # merkle_level sha r"

lemma length_merkle_level [simp]: "length (merkle_level sha xs) = (length xs + 1) div 2"
  by (induction sha xs rule: merkle_level.induct) simp_all

function merkle_root :: "hash_fn \<Rightarrow> BinaryData list \<Rightarrow> BinaryData" where
  "merkle_root sha xs = (if length xs > 1 then merkle_root sha (merkle_level sha xs) else hd xs)"
  by pat_completeness auto
termination
  by (relation "measure (\<lambda>(sha, xs). length xs)") auto

declare merkle_root.simps [simp del]

text \<open>All levels one after the other, as the vector holds them.\<close>

function merkle_rows :: "hash_fn \<Rightarrow> BinaryData list \<Rightarrow> BinaryData list" where
  "merkle_rows sha xs = xs @ (if length xs > 1 then merkle_rows sha (merkle_level sha xs) else [])"
  by pat_completeness auto
termination
  by (relation "measure (\<lambda>(sha, xs). length xs)") auto

declare merkle_rows.simps [simp del]

text \<open>What a miner computes: the branch folded onto the hash of the coinbase transaction.\<close>

definition fold_branch :: "hash_fn \<Rightarrow> BinaryData \<Rightarrow> BinaryData list \<Rightarrow> BinaryData" where
  "fold_branch sha leaf branch = fold (\<lambda>sibling h. SHA256D sha (h @ sibling)) branch leaf"

section \<open>Building\<close>

lemma nth_append_at: "(pre @ xs @ post) ! (length pre + i) = xs ! i" if "i < length xs"
  using that by (simp add: nth_append)

text \<open>Hashing the pairs of the level \<open>done @ xs\<close> from \<open>length done\<close> on.\<close>

lemma build_row_from:
  "even (length done) \<Longrightarrow>
   build_row sha (length pre) (length done + length xs) (length done) (pre @ done @ xs @ acc)
   = pre @ done @ xs @ acc @ merkle_level sha xs"
proof (induction sha xs arbitrary: "done" acc rule: merkle_level.induct)
  case (1 sha)
  then show ?case by (subst build_row.simps) simp
next
  case (2 sha x)
  then show ?case
    by (subst build_row.simps, subst build_row.simps)
      (simp add: Let_def Join_def nth_append)
next
  case (3 sha x y r)
  let ?acc = "acc @ [SHA256D sha (x @ y)]"
  have "build_row sha (length pre) (length done + length (x # y # r)) (length done)
        (pre @ done @ (x # y # r) @ acc)
      = build_row sha (length pre) (length (done @ [x, y]) + length r) (length (done @ [x, y]))
        (pre @ (done @ [x, y]) @ r @ ?acc)"
    by (subst build_row.simps) (simp add: Let_def Join_def nth_append min_def)
  also have "\<dots> = pre @ (done @ [x, y]) @ r @ ?acc @ merkle_level sha r"
    using "3.prems" by (intro "3.IH") simp
  finally show ?case by simp
qed

lemma build_row_eq:
  "build_row sha (length pre) (length xs) 0 (pre @ xs) = pre @ xs @ merkle_level sha xs"
  using build_row_from [of "[]" sha pre xs "[]"] by simp

lemma build_rows_eq: "build_rows sha (length pre) (length xs) (pre @ xs) = pre @ merkle_rows sha xs"
proof (induction sha xs arbitrary: pre rule: merkle_rows.induct)
  case (1 sha xs)
  show ?case
  proof (cases "length xs > 1")
    case True
    have "build_rows sha (length pre) (length xs) (pre @ xs)
        = build_rows sha (length (pre @ xs)) (length (merkle_level sha xs)) ((pre @ xs) @ merkle_level sha xs)"
      using True by (subst build_rows.simps) (simp add: build_row_eq)
    also have "\<dots> = (pre @ xs) @ merkle_rows sha (merkle_level sha xs)"
      by (rule "1.IH" [OF True])
    finally show ?thesis using True by (subst merkle_rows.simps) simp
  next
    case False
    then show ?thesis by (subst build_rows.simps, subst merkle_rows.simps) simp
  qed
qed

lemma last_merkle_rows: "xs \<noteq> [] \<Longrightarrow> merkle_rows sha xs \<noteq> [] \<and> last (merkle_rows sha xs) = merkle_root sha xs"
proof (induction sha xs rule: merkle_rows.induct)
  case (1 sha xs)
  show ?case
  proof (cases "length xs > 1")
    case True
    then have "0 < length (merkle_level sha xs)" by simp
    then have "merkle_level sha xs \<noteq> []" by blast
    with True 1 show ?thesis
      by (subst (1 2) merkle_rows.simps, subst merkle_root.simps) simp
  next
    case False
    with "1.prems" have "length xs = 1" by (cases xs) auto
    then obtain x where "xs = [x]" by (auto simp: length_Suc_conv)
    then show ?thesis by (simp add: merkle_rows.simps [of sha "[x]"] merkle_root.simps [of sha "[x]"])
  qed
qed

lemma BuildMerkleTree_eq:
  assumes "blk_tx b \<noteq> []"
  shows "BuildMerkleTree sha b = Inr (b\<lparr>
    blk_merkleTree := merkle_rows sha (map (tx_GetHash sha) (blk_tx b)),
    blk_merkleRootHash := merkle_root sha (map (tx_GetHash sha) (blk_tx b))\<rparr>)"
proof -
  let ?hs = "map (tx_GetHash sha) (blk_tx b)"
  have "build_rows sha 0 (length (blk_tx b)) ?hs = merkle_rows sha ?hs"
    using build_rows_eq [of sha "[]" ?hs] by simp
  moreover have "merkle_rows sha ?hs \<noteq> []" "last (merkle_rows sha ?hs) = merkle_root sha ?hs"
    using assms last_merkle_rows [of ?hs sha] by auto
  ultimately show ?thesis by (simp add: BuildMerkleTree_def last_conv_nth)
qed

section \<open>Rebuilding the left edge\<close>

lemma rebuild_rows_eq:
  "rebuild_rows sha (length pre) (length (x # xs)) (pre @ y # tl (merkle_rows sha (x # xs)))
   = Inr (pre @ merkle_rows sha (y # xs))"
proof (induction "length xs" arbitrary: pre x y xs rule: less_induct)
  case less
  show ?case
  proof (cases xs)
    case Nil
    then show ?thesis
      by (subst rebuild_rows.simps) (simp add: merkle_rows.simps [of sha "[_]"])
  next
    case (Cons z r)
    let ?r = "merkle_level sha r"
    let ?hx = "SHA256D sha (x @ z)" and ?hy = "SHA256D sha (y @ z)"
    have tree: "merkle_rows sha (a # z # r) = (a # z # r) @ merkle_rows sha (SHA256D sha (a @ z) # ?r)" for a
      by (subst merkle_rows.simps) simp
    have rows: "merkle_rows sha (h # ?r) = h # tl (merkle_rows sha (h # ?r))" for h
      by (subst (1 2) merkle_rows.simps) simp
    have "rebuild_rows sha (length pre) (length (x # xs)) (pre @ y # tl (merkle_rows sha (x # xs)))
        = rebuild_rows sha (length (pre @ y # z # r)) (length (?hx # ?r))
            ((pre @ y # z # r) @ ?hy # tl (merkle_rows sha (?hx # ?r)))"
      by (subst rebuild_rows.simps, simp add: Cons tree Join_def nth_append,
          subst (1 2) rows, simp add: list_update_append)
    also have "\<dots> = Inr ((pre @ y # z # r) @ merkle_rows sha (?hy # ?r))"
      by (rule less) (simp add: Cons)
    finally show ?thesis by (simp add: Cons tree)
  qed
qed

text \<open>
  The state of a block whose tree has been built, and whose coinbase transaction may have been
  replaced since.
\<close>

definition tree_built :: "hash_fn \<Rightarrow> Transaction \<Rightarrow> Block \<Rightarrow> bool" where
  "tree_built sha c0 b \<longleftrightarrow> blk_tx b \<noteq> []
     \<and> blk_merkleTree b = merkle_rows sha (map (tx_GetHash sha) (c0 # tl (blk_tx b)))"

lemma RebuildMerkleTree_eq:
  assumes "tree_built sha c0 b"
  shows "RebuildMerkleTree sha b = BuildMerkleTree sha b"
proof -
  obtain c txs where tx: "blk_tx b = c # txs" using assms by (cases "blk_tx b") (auto simp: tree_built_def)
  let ?h = "tx_GetHash sha" and ?t = "blk_merkleTree b"
  have t: "?t = merkle_rows sha (?h c0 # map ?h txs)" using assms by (simp add: tree_built_def tx)
  then have ne: "?t \<noteq> []" using last_merkle_rows by simp
  have "?t[0 := ?h c] = ?h c # tl (merkle_rows sha (?h c0 # map ?h txs))"
    using ne by (cases ?t) (simp_all add: t)
  then have "rebuild_rows sha 0 (length (blk_tx b)) (?t[0 := ?h c]) = Inr (merkle_rows sha (?h c # map ?h txs))"
    using rebuild_rows_eq [of sha "[]" "?h c0" "map ?h txs" "?h c"] by (simp add: tx)
  moreover have "merkle_rows sha (?h c # map ?h txs) \<noteq> []"
    "last (merkle_rows sha (?h c # map ?h txs)) = merkle_root sha (?h c # map ?h txs)"
    using last_merkle_rows [of "?h c # map ?h txs" sha] by auto
  ultimately show ?thesis
    using ne by (simp add: RebuildMerkleTree_def BuildMerkleTree_eq tx last_conv_nth)
qed

section \<open>The branch\<close>

lemma merkle_branch_eq:
  "\<exists>branch. merkle_branch (length pre) (length (x # xs)) (pre @ merkle_rows sha (x # xs)) = Inr branch
     \<and> (\<forall>y. fold_branch sha y branch = merkle_root sha (y # xs))"
proof (induction "length xs" arbitrary: pre x xs rule: less_induct)
  case less
  show ?case
  proof (cases xs)
    case Nil
    then show ?thesis
      by (subst merkle_branch.simps) (simp add: fold_branch_def merkle_root.simps [of sha "[_]"])
  next
    case (Cons z r)
    let ?r = "merkle_level sha r" and ?hx = "SHA256D sha (x @ z)"
    let ?rows = "merkle_rows sha (?hx # ?r)"
    have tree: "merkle_rows sha (x # xs) = (x # z # r) @ ?rows"
      by (subst merkle_rows.simps) (simp add: Cons)
    have "length ?r < length xs" by (simp add: Cons)
    from less [OF this, of "pre @ x # z # r" ?hx] obtain branch where
      b: "merkle_branch (length (pre @ x # z # r)) (length (?hx # ?r)) ((pre @ x # z # r) @ ?rows) = Inr branch"
      and f: "\<forall>y. fold_branch sha y branch = merkle_root sha (y # ?r)"
      by blast
    have "merkle_branch (length pre) (length (x # xs)) (pre @ merkle_rows sha (x # xs)) = Inr (z # branch)"
      using b by (subst merkle_branch.simps) (simp add: Cons tree [unfolded Cons] nth_append)
    moreover have "fold_branch sha y (z # branch) = merkle_root sha (y # xs)" for y
      using f by (subst merkle_root.simps) (simp add: Cons fold_branch_def)
    ultimately show ?thesis by blast
  qed
qed

section \<open>Size\<close>

lemma merkle_rows_bound: "length xs \<le> 2 ^ k \<Longrightarrow> length (merkle_rows sha xs) \<le> 2 * length xs + k"
proof (induction k arbitrary: xs)
  case 0
  then show ?case by (subst merkle_rows.simps) simp
next
  case (Suc k)
  show ?case
  proof (cases "length xs > 1")
    case True
    have "length (merkle_rows sha (merkle_level sha xs)) \<le> 2 * ((length xs + 1) div 2) + k"
      using Suc.prems Suc.IH [of "merkle_level sha xs"] by simp
    with True show ?thesis by (subst merkle_rows.simps) simp
  next
    case False
    then show ?thesis by (subst merkle_rows.simps) simp
  qed
qed

section \<open>Properties\<close>

lemma sample_block_builds: "\<exists>b. BuildMerkleTree sha sample_block = Inr b"
  using BuildMerkleTree_eq [of sample_block sha] by (simp add: sample_block_def)

text \<open>
  \<^verbatim>\<open>BuildMerkleTree\<close> succeeds on every block with a transaction and computes the Merkle root of
  the transaction hashes, and its tree starts with these hashes.
\<close>

theorem BuildMerkleTree_root:
  assumes "blk_tx b \<noteq> []"
  shows "\<exists>b'. BuildMerkleTree sha b = Inr b'
    \<and> blk_merkleRootHash b' = merkle_root sha (map (tx_GetHash sha) (blk_tx b))
    \<and> take (length (blk_tx b)) (blk_merkleTree b') = map (tx_GetHash sha) (blk_tx b)
    \<and> blk_tx b' = blk_tx b"
proof -
  have "take (length xs) (merkle_rows sha xs) = xs" for xs
    by (subst merkle_rows.simps) simp
  from this [of "map (tx_GetHash sha) (blk_tx b)"] show ?thesis
    by (simp add: BuildMerkleTree_eq [OF assms])
qed

theorem BuildMerkleTree_root_witness:
  "\<exists>b'. BuildMerkleTree (\<lambda>x. x) sample_block = Inr b'
    \<and> blk_merkleRootHash b' = merkle_root (\<lambda>x. x) (map (tx_GetHash (\<lambda>x. x)) (blk_tx sample_block))
    \<and> take (length (blk_tx sample_block)) (blk_merkleTree b') = map (tx_GetHash (\<lambda>x. x)) (blk_tx sample_block)
    \<and> blk_tx b' = blk_tx sample_block"
  by (rule BuildMerkleTree_root) (simp add: sample_block_def)

text \<open>
  C25. After the coinbase transaction of a block with a built tree has been replaced,
  \<^verbatim>\<open>RebuildMerkleTree\<close>, which recomputes one node of each level, gives the same tree and root as
  building the tree anew.
\<close>

theorem RebuildMerkleTree_correct:
  assumes "BuildMerkleTree sha b0 = Inr b" and "blk_tx b0 = c0 # txs"
  shows "RebuildMerkleTree sha (b\<lparr>blk_tx := c # txs\<rparr>) = BuildMerkleTree sha (b0\<lparr>blk_tx := c # txs\<rparr>)"
proof -
  from assms have b: "b = b0\<lparr>
      blk_merkleTree := merkle_rows sha (map (tx_GetHash sha) (c0 # txs)),
      blk_merkleRootHash := merkle_root sha (map (tx_GetHash sha) (c0 # txs))\<rparr>"
    by (simp add: BuildMerkleTree_eq)
  have "tree_built sha c0 (b\<lparr>blk_tx := c # txs\<rparr>)" by (simp add: tree_built_def b)
  then have "RebuildMerkleTree sha (b\<lparr>blk_tx := c # txs\<rparr>) = BuildMerkleTree sha (b\<lparr>blk_tx := c # txs\<rparr>)"
    by (rule RebuildMerkleTree_eq)
  then show ?thesis by (simp add: BuildMerkleTree_eq b)
qed

theorem RebuildMerkleTree_correct_witness:
  "\<exists>b. BuildMerkleTree (\<lambda>x. x) sample_block = Inr b
    \<and> RebuildMerkleTree (\<lambda>x. x) (b\<lparr>blk_tx := [(hd (blk_tx sample_block))\<lparr>tx_version := 7\<rparr>]\<rparr>)
      = BuildMerkleTree (\<lambda>x. x) (sample_block\<lparr>blk_tx := [(hd (blk_tx sample_block))\<lparr>tx_version := 7\<rparr>]\<rparr>)"
proof -
  have tx: "blk_tx sample_block = [hd (blk_tx sample_block)]" by (simp add: sample_block_def)
  from sample_block_builds show ?thesis using RebuildMerkleTree_correct [OF _ tx] by blast
qed

text \<open>
  C28. The Merkle branch a miner is sent is enough: folded onto the hash of any coinbase
  transaction, it gives the root that the block has with this coinbase.
\<close>

theorem merkle_branch_sound:
  assumes "BuildMerkleTree sha b0 = Inr b" and "blk_tx b0 = c0 # txs"
  shows "\<exists>branch. merkle_branch 0 (length (blk_tx b)) (blk_merkleTree b) = Inr branch
    \<and> (\<forall>c. fold_branch sha (tx_GetHash sha c) branch
            = merkle_root sha (map (tx_GetHash sha) (c # txs)))"
  using assms merkle_branch_eq [of "[]" "tx_GetHash sha c0" "map (tx_GetHash sha) txs" sha]
  by (auto simp: BuildMerkleTree_eq)

theorem merkle_branch_sound_witness:
  "\<exists>b branch. BuildMerkleTree (\<lambda>x. x) sample_block = Inr b
    \<and> merkle_branch 0 (length (blk_tx b)) (blk_merkleTree b) = Inr branch
    \<and> (\<forall>c. fold_branch (\<lambda>x. x) (tx_GetHash (\<lambda>x. x) c) branch
            = merkle_root (\<lambda>x. x) (map (tx_GetHash (\<lambda>x. x)) [c]))"
proof -
  have tx: "blk_tx sample_block = [hd (blk_tx sample_block)]" by (simp add: sample_block_def)
  from sample_block_builds show ?thesis using merkle_branch_sound [OF _ tx] by blast
qed

text \<open>
  The 32-bit offsets with which the loops walk the tree do not overflow for any block of up to
  \<open>2 ^ 30\<close> transactions.
\<close>

theorem merkle_tree_fits:
  assumes "BuildMerkleTree sha b0 = Inr b" and "length (blk_tx b0) \<le> 2 ^ 30" and "blk_tx b0 \<noteq> []"
  shows "length (blk_merkleTree b) < 2 ^ 32"
proof -
  have "blk_merkleTree b = merkle_rows sha (map (tx_GetHash sha) (blk_tx b0))"
    using assms(1) by (simp add: BuildMerkleTree_eq [OF assms(3)]) auto
  then have "length (blk_merkleTree b) \<le> 2 * length (blk_tx b0) + 30"
    using merkle_rows_bound [of "map (tx_GetHash sha) (blk_tx b0)" 30 sha] assms(2) by simp
  then show ?thesis using assms(2) by simp
qed

theorem merkle_tree_fits_witness:
  "\<exists>b. BuildMerkleTree (\<lambda>x. x) sample_block = Inr b \<and> length (blk_merkleTree b) < 2 ^ 32"
proof -
  have tx: "blk_tx sample_block \<noteq> []" "length (blk_tx sample_block) \<le> 2 ^ 30"
    by (simp_all add: sample_block_def)
  then obtain b where "BuildMerkleTree (\<lambda>x. x) sample_block = Inr b"
    using BuildMerkleTree_eq [of sample_block "\<lambda>x. x"] by simp
  with merkle_tree_fits [OF this tx(2) tx(1)] show ?thesis by blast
qed

end
