(* ===== verification/Bitcoin.thy ===== *)
theory Bitcoin
  imports Merkle
begin

unbundle bit_operations_syntax

text \<open>
  \<open>shared/Bitcoin/Script.h\<close> and \<open>Bitcoin.h\<close>: building scripts, difficulty and targets, and the coinbase
  transaction the pool puts into its block templates. GMP's integers (\<open>BigNum.h\<close>) are \<open>int\<close>.
\<close>

section \<open>Scripts (Script.h)\<close>

datatype ScriptOPCode = OP_0 | OP_PUSHDATA1 | OP_PUSHDATA2 | OP_PUSHDATA4 | OP_CHECKSIG

fun opcode_byte :: "ScriptOPCode \<Rightarrow> byte" where
  "opcode_byte OP_0 = 0x00"
| "opcode_byte OP_PUSHDATA1 = 0x4C"
| "opcode_byte OP_PUSHDATA2 = 0x4D"
| "opcode_byte OP_PUSHDATA4 = 0x4E"
| "opcode_byte OP_CHECKSIG = 0xAC"

definition Script_plus_Script :: "Script \<Rightarrow> Script \<Rightarrow> Script" where
  "Script_plus_Script s other = \<lparr>script = script s @ script other\<rparr>"

definition Script_plus_op :: "Script \<Rightarrow> ScriptOPCode \<Rightarrow> Script" where
  "Script_plus_op s opc = \<lparr>script = script s @ [opcode_byte opc]\<rparr>"

text \<open>\<^verbatim>\<open>vec.resize(n)\<close>: cut to \<open>n\<close> elements, or filled up with zeros.\<close>

definition resize_bytes :: "BinaryData \<Rightarrow> nat \<Rightarrow> BinaryData" where
  "resize_bytes v n = take n v @ replicate (n - length v) 0"

text \<open>
  \<^verbatim>\<open>operator+(BinaryData)\<close>: the loop copies \<open>data[i]\<close> for \<open>i = 1, \<dots>, size\<close>; an index that is not in the
  vector is undefined behaviour.
\<close>

definition Script_plus_data_loop :: "BinaryData \<Rightarrow> BinaryData \<Rightarrow> BinaryData result" where
  "Script_plus_data_loop data v =
     foldR (\<lambda>i v. if i < length data \<and> i < length v then Inr (v[i := data ! i])
                  else Inl (Undefined ''index outside the vector''))
       [1..<length data + 1] v"

definition Script_plus_data :: "Script \<Rightarrow> BinaryData \<Rightarrow> Script result" where
  "Script_plus_data s data =
     (let n = length data in
      if n \<ge> 1 \<and> n \<le> 75
      then bindR (Script_plus_data_loop data (resize_bytes (script s) (n + 1) @ [of_nat n]))
             (\<lambda>v. Inr \<lparr>script = v\<rparr>)
      else Inr s)"

section \<open>Difficulty and targets (Bitcoin.h)\<close>

definition max_target :: int where
  "max_target = 0x00000000ffff0000000000000000000000000000000000000000000000000000"

text \<open>GMP's \<^verbatim>\<open>/\<close> truncates; it aborts the process when the divisor is zero.\<close>

definition TargetToDiff :: "int \<Rightarrow> int result" where
  "TargetToDiff val =
     (if val = 0 then Inl (Undefined ''division by zero'')
      else Inr (sgn val * (max_target div \<bar>val\<bar>)))"

definition DiffToTarget :: "int \<Rightarrow> int result" where
  "DiffToTarget val = TargetToDiff val"

text \<open>
  The exponent \<open>8 * (nbytes - 3)\<close> is computed in \<^verbatim>\<open>int\<close> and passed as an \<^verbatim>\<open>unsigned long\<close>, so it wraps
  around when \<open>nbytes\<close> is less than 3.
\<close>

definition target_exponent :: "uint32 \<Rightarrow> uint64" where
  "target_exponent bits =
     (let nbytes = (ucast (drop_bit 24 bits AND 0xFF) :: uint8)
      in word_of_int (8 * (uint nbytes - 3)))"

text \<open>GMP aborts the process when a number would need \<open>2 ^ 31\<close> limbs of 64 bits.\<close>

definition TargetFromBits :: "uint32 \<Rightarrow> int result" where
  "TargetFromBits bits =
     (if unat (target_exponent bits) \<ge> 2 ^ 37 then Inl (Undefined ''overflow in GMP'')
      else Inr (uint (bits AND 0xFFFFFF) * 2 ^ unat (target_exponent bits)))"

section \<open>The coinbase transaction (Bitcoin.h)\<close>

definition CreateCoinbaseTX :: "uint32 \<Rightarrow> BinaryData \<Rightarrow> int64 \<Rightarrow> Transaction" where
  "CreateCoinbaseTX blockHeight pubkey value =
     (let extranonce_ph = replicate 8 0;
          scriptsig = AppendBinary extranonce_ph (Append blockHeight ByteBuffer_new);
          outpoint = \<lparr>op_hash = replicate 32 0, op_n = 0xFFFFFFFF\<rparr>;
          txin = \<lparr>in_prevout = outpoint, in_script = \<lparr>script = Binary scriptsig\<rparr>, in_n = 0\<rparr>;
          txout = \<lparr>out_value = value,
                   out_scriptPubKey = Script_plus_op \<lparr>script = pubkey\<rparr> OP_CHECKSIG\<rparr>
      in \<lparr>tx_version = 1, tx_in = [txin], tx_out = [txout], tx_lockTime = 0\<rparr>)"

text \<open>The same transaction with \<open>extra\<close> in the place of the eight placeholder bytes.\<close>

definition coinbase_with :: "uint32 \<Rightarrow> BinaryData \<Rightarrow> int64 \<Rightarrow> BinaryData \<Rightarrow> Transaction" where
  "coinbase_with blockHeight pubkey value extra =
     (let t = CreateCoinbaseTX blockHeight pubkey value in
      t\<lparr>tx_in := map (\<lambda>i. i\<lparr>in_script := \<lparr>script = word_bytes blockHeight @ extra\<rparr>\<rparr>) (tx_in t)\<rparr>)"

text \<open>The bytes before and after the placeholder.\<close>

definition coinbase_head :: "uint32 \<Rightarrow> BinaryData" where
  "coinbase_head blockHeight =
     word_bytes (1 :: uint32) @ [1] @ replicate 32 0 @ word_bytes (0xFFFFFFFF :: uint32) @ [12]
     @ word_bytes blockHeight"

definition coinbase_tail :: "BinaryData \<Rightarrow> int64 \<Rightarrow> BinaryData" where
  "coinbase_tail pubkey value =
     word_bytes (0 :: uint32) @ [1]
     @ enc_TxOut \<lparr>out_value = value, out_scriptPubKey = \<lparr>script = pubkey @ [0xAC]\<rparr>\<rparr>
     @ word_bytes (0 :: uint32)"

lemma length_coinbase_head [simp]: "length (coinbase_head h) = 46"
  by (simp add: coinbase_head_def)

lemma enc_VarInt_small: "n < 0xfd \<Longrightarrow> enc_VarInt (of_nat n) = [of_nat n]"
  by (simp add: enc_VarInt_def word_less_nat_alt word_unat_eq_iff)

lemma CreateCoinbaseTX_eq: "CreateCoinbaseTX h pk v = coinbase_with h pk v (replicate 8 0)"
  by (simp add: coinbase_with_def CreateCoinbaseTX_def AppendBinary_def Binary_def ByteBuffer_new_def Let_def)

lemma enc_coinbase_with:
  assumes "length extra = 8"
  shows "enc_Transaction (coinbase_with h pk v extra) = coinbase_head h @ extra @ coinbase_tail pk v"
proof -
  have "enc_VarInt 1 = [1]" "enc_VarInt 12 = [12]"
    using enc_VarInt_small [of 1] enc_VarInt_small [of 12] by simp_all
  with assms show ?thesis
    by (simp add: coinbase_with_def CreateCoinbaseTX_def Let_def enc_Transaction_def enc_TxIn_def
        enc_OutPoint_def enc_Script_def coinbase_head_def coinbase_tail_def Script_plus_op_def)
qed

lemma wf_coinbase_with:
  "length pk < 2 ^ 63 \<Longrightarrow> length extra = 8 \<Longrightarrow> wf_Transaction (coinbase_with h pk v extra)"
  by (simp add: coinbase_with_def CreateCoinbaseTX_def Let_def wf_Transaction_def wf_TxIn_def
      wf_OutPoint_def wf_Script_def wf_TxOut_def Script_plus_op_def)

section \<open>Facts on targets\<close>

lemma max_target_eq: "max_target = 0xffff * 2 ^ 208"
  by (simp add: max_target_def)

lemma DiffToTarget_pos: "0 < d \<Longrightarrow> DiffToTarget d = Inr (max_target div d)"
  by (simp add: DiffToTarget_def TargetToDiff_def)

lemma le_div_iff_int: "0 < d \<Longrightarrow> h \<le> c div d \<longleftrightarrow> h * d \<le> c" for c d h :: int
proof
  assume d: "0 < d" and "h \<le> c div d"
  then have "h * d \<le> c div d * d" by (simp add: mult_right_mono)
  also have "\<dots> \<le> c" using d pos_mod_sign [of d c] div_mult_mod_eq [of c d] by linarith
  finally show "h * d \<le> c" .
next
  assume d: "0 < d" and "h * d \<le> c"
  then have "h * d div d \<le> c div d" by (intro zdiv_mono1)
  with d show "h \<le> c div d" by simp
qed

lemma le_DiffToTarget_iff:
  assumes "0 < d" and "DiffToTarget d = Inr t"
  shows "h \<le> t \<longleftrightarrow> d * h \<le> max_target"
proof -
  have t: "t = max_target div d" using assms DiffToTarget_pos by simp
  show ?thesis using le_div_iff_int [OF assms(1)] by (simp add: t mult.commute)
qed

lemma DiffToTarget_antimono:
  assumes "0 < d" and "d \<le> d'"
  shows "max_target div d' \<le> max_target div d"
  using assms by (intro zdiv_mono2) (simp_all add: max_target_def)

text \<open>With at least three bytes in the exponent, the compact form means what Bitcoin defines.\<close>

lemma target_exponent_eq:
  assumes "unat (ucast (drop_bit 24 bits AND 0xFF) :: uint8) = n"
  shows "target_exponent bits = word_of_int (8 * (int n - 3))"
proof -
  have "uint (ucast (drop_bit 24 bits AND 0xFF) :: uint8) = int n" using assms by (metis uint_nat)
  then show ?thesis by (simp only: target_exponent_def Let_def)
qed

lemma TargetFromBits_eq:
  assumes "unat (drop_bit 24 bits) \<ge> 3"
  shows "TargetFromBits bits = Inr (uint (bits AND 0xFFFFFF) * 256 ^ (unat (drop_bit 24 bits) - 3))"
proof -
  let ?n = "unat (drop_bit 24 bits)"
  have n: "?n < 256"
  proof -
    have "?n = unat bits div 2 ^ 24" by (simp add: drop_bit_eq_div unat_div)
    moreover have "unat bits < 2 ^ 32" using unsigned_less [of bits] by simp
    ultimately show ?thesis by (simp add: div_less_iff_less_mult)
  qed
  have "drop_bit 24 bits AND 0xFF = drop_bit 24 bits"
  proof -
    have "take_bit 8 (drop_bit 24 bits) = drop_bit 24 bits"
      by (simp add: take_bit_drop_bit take_bit_word_eq_self)
    then show ?thesis by (simp add: take_bit_eq_mask mask_numeral)
  qed
  then have "unat (ucast (drop_bit 24 bits AND 0xFF) :: uint8) = ?n" using n by simp
  then have "target_exponent bits = word_of_int (8 * (int ?n - 3))"
    by (rule target_exponent_eq)
  also have "8 * (int ?n - 3) = int (8 * (?n - 3))" using assms by simp
  also have "word_of_int \<dots> = (of_nat (8 * (?n - 3)) :: uint64)" by (rule of_int_of_nat_eq)
  finally have "unat (target_exponent bits) = 8 * (?n - 3)"
    using n by (simp only:) (intro unat_of_nat_fits, simp)
  moreover from this have "unat (target_exponent bits) < 2 ^ 37" using n by simp
  ultimately show ?thesis
    by (simp add: TargetFromBits_def power_mult)
qed

text \<open>With fewer, the exponent has wrapped around.\<close>

lemma target_exponent_wraps:
  assumes "unat (ucast (drop_bit 24 bits AND 0xFF) :: uint8) < 3"
  shows "unat (target_exponent bits) \<ge> 2 ^ 64 - 24"
proof -
  obtain n where n: "unat (ucast (drop_bit 24 bits AND 0xFF) :: uint8) = n" by blast
  have "n = 0 \<or> n = 1 \<or> n = 2" using assms n by linarith
  then show ?thesis
    unfolding target_exponent_eq [OF n] by (elim disjE) simp_all
qed

section \<open>Properties\<close>

text \<open>
  C37. A hash meets the target of difficulty \<open>d\<close> exactly when \<open>d\<close> times the hash is at most the
  target of difficulty 1: the truncating division of \<^verbatim>\<open>DiffToTarget\<close> loses nothing, and a higher
  difficulty never has a higher target.
\<close>

theorem DiffToTarget_meaning:
  assumes "0 < d"
  shows "\<exists>t. DiffToTarget d = Inr t \<and> (\<forall>h. h \<le> t \<longleftrightarrow> d * h \<le> max_target)
    \<and> (\<forall>d'\<ge>d. \<exists>t'. DiffToTarget d' = Inr t' \<and> t' \<le> t)"
  using assms DiffToTarget_antimono [OF assms]
  by (auto simp: DiffToTarget_pos le_DiffToTarget_iff [OF assms DiffToTarget_pos])

theorem DiffToTarget_meaning_witness:
  "\<exists>t. DiffToTarget 1000 = Inr t \<and> (\<forall>h. h \<le> t \<longleftrightarrow> 1000 * h \<le> max_target)
    \<and> (\<forall>d'\<ge>1000. \<exists>t'. DiffToTarget d' = Inr t' \<and> t' \<le> t)"
  by (rule DiffToTarget_meaning) simp

text \<open>
  The compact form of a target, with at least three bytes in its exponent, is the mantissa of
  24 bits at the place of the exponent, as Bitcoin defines it.
\<close>

theorem TargetFromBits_compact:
  assumes "unat (drop_bit 24 bits) \<ge> 3"
  shows "TargetFromBits bits = Inr (uint (bits AND 0xFFFFFF) * 256 ^ (unat (drop_bit 24 bits) - 3))"
  using assms by (rule TargetFromBits_eq)

theorem TargetFromBits_compact_witness:
  "TargetFromBits 0x1d00ffff = Inr (0xffff * 256 ^ 26)"
  using TargetFromBits_compact [of "0x1d00ffff"] by (simp add: drop_bit_eq_div)

lemma foldR_append: "foldR f (xs @ ys) s = bindR (foldR f xs s) (foldR f ys)"
proof (induction xs arbitrary: s)
  case (Cons x xs)
  then show ?case by (cases "f x s") simp_all
qed simp

lemma foldR_only_fault:
  assumes "\<And>x s. f x s = Inl e' \<Longrightarrow> e' = e" and "foldR f xs s = Inl e'"
  shows "e' = e"
  using assms(2)
proof (induction xs arbitrary: s)
  case (Cons x xs)
  then show ?case using assms(1) by (cases "f x s") auto
qed simp

text \<open>
  Appending data to a script with \<^verbatim>\<open>operator+\<close> reads one element past the end of the data for
  every length it handles, 1 to 75 bytes.
\<close>

theorem Script_plus_data_undefined:
  assumes "1 \<le> length data" and "length data \<le> 75"
  shows "Script_plus_data s data = Inl (Undefined ''index outside the vector'')"
proof -
  let ?f = "\<lambda>i v. if i < length data \<and> i < length v then Inr (v[i := data ! i])
      else Inl (Undefined ''index outside the vector'')"
  let ?v = "resize_bytes (script s) (length data + 1) @ [of_nat (length data)]"
  have range: "[1..<length data + 1] = [1..<length data] @ [length data]" using assms(1) by simp
  have "foldR ?f [1..<length data + 1] ?v = Inl (Undefined ''index outside the vector'')"
  proof (cases "foldR ?f [1..<length data] ?v")
    case (Inl e)
    then have "e = Undefined ''index outside the vector''"
      by (rule foldR_only_fault [rotated]) (auto split: if_splits)
    with Inl show ?thesis by (simp only: range foldR_append bindR_Inl)
  next
    case (Inr v)
    then show ?thesis by (simp only: range foldR_append bindR_Inr) simp
  qed
  then show ?thesis
    using assms by (simp add: Script_plus_data_def Script_plus_data_loop_def Let_def)
qed

theorem Script_plus_data_undefined_witness:
  "Script_plus_data \<lparr>script = [0xAC]\<rparr> [1, 2] = Inl (Undefined ''index outside the vector'')"
  by (rule Script_plus_data_undefined) simp_all

end
