(* ===== verification/Doubles.thy ===== *)
theory Doubles
  imports Complex_Main Prelude
begin

text \<open>
  The \<^verbatim>\<open>double\<close> arithmetic of the share limiter. A finite double is the rational number it stands for,
  and every operation rounds its exact result to 53 significant bits, to the nearest, ties to even.
  The exponent is not bounded: the numbers here (sums of 64-bit integers, their ratios to small
  constants) stay far inside the range of the format.
\<close>

type_synonym double = rat

section \<open>Rounding\<close>

text \<open>The number of binary digits of a natural number.\<close>

fun bits_of :: "nat \<Rightarrow> nat" where
  "bits_of n = (if n = 0 then 0 else Suc (bits_of (n div 2)))"

declare bits_of.simps [simp del]

definition pow2 :: "int \<Rightarrow> rat" where
  "pow2 e = (if e \<ge> 0 then 2 ^ nat e else 1 / 2 ^ nat (- e))"

text \<open>The exponent \<open>e\<close> of a positive number: \<open>pow2 e \<le> x < pow2 (e + 1)\<close>.\<close>

definition exponent :: "rat \<Rightarrow> int" where
  "exponent x =
     (let (p, q) = quotient_of x; e = int (bits_of (nat p)) - int (bits_of (nat q))
      in if x < pow2 e then e - 1 else e)"

definition round_even :: "rat \<Rightarrow> int" where
  "round_even x =
     (let n = floor x; r = x - of_int n in
      if r < 1 / 2 then n else if r > 1 / 2 then n + 1 else if even n then n else n + 1)"

text \<open>The double nearest to a number.\<close>

definition fl :: "rat \<Rightarrow> double" where
  "fl x =
     (if x = 0 then 0
      else let u = pow2 (exponent \<bar>x\<bar> - 52) in of_int (round_even (x / u)) * u)"

section \<open>Operations\<close>

definition double_of_u64 :: "uint64 \<Rightarrow> double" where
  "double_of_u64 n = fl (of_nat (unat n))"

definition dadd :: "double \<Rightarrow> double \<Rightarrow> double" where
  "dadd x y = fl (x + y)"

definition dmul :: "double \<Rightarrow> double \<Rightarrow> double" where
  "dmul x y = fl (x * y)"

text \<open>
  Division by zero gives an infinity or not a number. The only use of such a result in the
  program is its conversion to an integer, which is undefined; the model stops here already.
\<close>

definition ddiv :: "double \<Rightarrow> double \<Rightarrow> double result" where
  "ddiv x y = (if y = 0 then Inl (Undefined ''conversion of a double that is not finite'') else Inr (fl (x / y)))"

text \<open>Conversion to \<^verbatim>\<open>uint64\<close> truncates; a value outside the range of the type is undefined.\<close>

definition double_to_u64 :: "double \<Rightarrow> uint64 result" where
  "double_to_u64 x =
     (if - 1 < x \<and> x < 2 ^ 64 then Inr (of_int (if x < 0 then 0 else floor x))
      else Inl (Undefined ''double out of range''))"

section \<open>Facts\<close>

lemma pow2_pos [simp]: "0 < pow2 e"
  by (simp add: pow2_def)

lemma pow2_nonzero [simp]: "pow2 e \<noteq> 0"
  by (simp add: pow2_def)

lemma round_even_of_int [simp]: "round_even (of_int n) = n"
  by (simp add: round_even_def Let_def)

lemma round_even_nonneg: "0 \<le> x \<Longrightarrow> 0 \<le> round_even x"
  by (simp add: round_even_def Let_def)

lemma fl_0 [simp]: "fl 0 = 0"
  by (simp add: fl_def)

lemma fl_nonneg: "0 \<le> x \<Longrightarrow> 0 \<le> fl x"
  by (simp add: fl_def Let_def round_even_nonneg less_imp_le)

lemma double_of_u64_nonneg: "0 \<le> double_of_u64 n"
  unfolding double_of_u64_def by (rule fl_nonneg) (rule of_nat_0_le_iff)

lemma dadd_nonneg: "0 \<le> x \<Longrightarrow> 0 \<le> y \<Longrightarrow> 0 \<le> dadd x y"
  by (simp add: dadd_def fl_nonneg)

lemma dmul_nonneg: "0 \<le> x \<Longrightarrow> 0 \<le> y \<Longrightarrow> 0 \<le> dmul x y"
  by (simp add: dmul_def fl_nonneg)

lemma double_to_u64_fits:
  assumes "0 \<le> x" and "x < 2 ^ 64"
  shows "double_to_u64 x = Inr (of_int \<lfloor>x\<rfloor>)"
  using assms by (simp add: double_to_u64_def)

text \<open>An integer of at most 53 bits is a double.\<close>

lemma bits_of_bounds: "0 < n \<Longrightarrow> 2 ^ (bits_of n - 1) \<le> n \<and> n < 2 ^ bits_of n"
proof (induction n rule: bits_of.induct)
  case (1 n)
  show ?case
  proof (cases "n = 1")
    case True
    then show ?thesis by (simp add: bits_of.simps)
  next
    case False
    with 1 have half: "2 ^ (bits_of (n div 2) - 1) \<le> n div 2" "n div 2 < 2 ^ bits_of (n div 2)" by auto
    have "0 < bits_of (n div 2)" using False 1(2) by (subst bits_of.simps) simp
    then obtain k where k: "bits_of (n div 2) = Suc k" by (cases "bits_of (n div 2)") auto
    have "bits_of n = Suc (bits_of (n div 2))" using 1(2) by (subst bits_of.simps) simp
    moreover have "2 * (n div 2) \<le> n" "n < 2 * (n div 2) + 2" by simp_all
    ultimately have "2 * 2 ^ k \<le> n" "n < 4 * 2 ^ k" "bits_of n = Suc (Suc k)"
      using half unfolding k by simp_all
    then show ?thesis by simp
  qed
qed

lemma bits_of_1 [simp]: "bits_of (Suc 0) = 1"
  by (simp add: bits_of.simps)

lemma fl_small_int:
  assumes "n < 2 ^ 53"
  shows "fl (of_nat n) = of_nat n"
proof (cases "n = 0")
  case False
  let ?k = "bits_of n"
  have k: "2 ^ (?k - 1) \<le> n" "n < 2 ^ ?k" using bits_of_bounds [of n] False by auto
  then have "(2::nat) ^ (?k - 1) < 2 ^ 53" using assms by linarith
  then have "?k - 1 < 53" by (rule power_less_imp_less_exp [rotated]) simp
  then have "?k \<le> 53" by simp
  have quot: "quotient_of (of_nat n) = (int n, 1)"
    using quotient_of_int [of "int n"] by (simp add: of_rat_def)
  have e: "exponent (of_nat n) \<le> 52"
    using \<open>?k \<le> 53\<close> k by (simp add: exponent_def quot Let_def pow2_def)
  let ?u = "pow2 (exponent (of_nat n) - 52)"
  have int: "of_nat n / ?u = of_int (int n * 2 ^ nat (52 - exponent (of_nat n)))"
    using e by (auto simp: pow2_def)
  have "fl (of_nat n) = of_int (round_even (of_nat n / ?u)) * ?u"
    using False by (simp add: fl_def Let_def)
  also have "round_even (of_nat n / ?u) = int n * 2 ^ nat (52 - exponent (of_nat n))"
    unfolding int by (rule round_even_of_int)
  also have "of_int \<dots> * ?u = of_nat n" unfolding int [symmetric] by simp
  finally show ?thesis .
qed simp

end
