(* ===== verification/Json.thy ===== *)
theory Json
  imports Doubles Hex "HOL-Library.AList"
begin

text \<open>
  The JSON document class of \<open>shared/JSON/JSON.h\<close> and its writer, \<open>JSON.cpp\<close>. A node is a type tag
  with the containers of all types beside it (the vector of an array, the map of an object with
  its insertion order, the variant of a primitive value); an operation that turns a node into
  another type leaves the other containers as they are. How a stream prints a \<^verbatim>\<open>double\<close> is the
  parameter \<open>show_double\<close> of the writer: the pool itself never writes one.
\<close>

section \<open>Nodes\<close>

datatype JSONValueType =
  JSON_NULL | JSON_ARRAY | JSON_OBJECT | JSON_BOOL | JSON_INTEGER | JSON_DOUBLE | JSON_STRING

text \<open>\<^verbatim>\<open>boost::variant<bool, int64, double, std::string>\<close>; a default variant holds \<^verbatim>\<open>false\<close>.\<close>

datatype JSONValue = VBool bool | VInt int64 | VDouble double | VString string

datatype JSON =
  Node (j_type: JSONValueType) (j_vec: "JSON list") (j_map: "(string \<times> JSON) list")
    (j_mapOrder: "string list") (j_val: JSONValue)

definition JSON_new :: "JSONValueType \<Rightarrow> JSON" where
  "JSON_new ty = Node ty [] [] [] (VBool False)"

fun set_type :: "JSONValueType \<Rightarrow> JSON \<Rightarrow> JSON" where
  "set_type ty (Node _ vs m ord v) = Node ty vs m ord v"

text \<open>The check at the head of \<^verbatim>\<open>Add\<close>, \<^verbatim>\<open>Set\<close> and \<^verbatim>\<open>operator[]\<close>: a null node becomes what is needed.\<close>

definition become :: "JSONValueType \<Rightarrow> string \<Rightarrow> JSON \<Rightarrow> JSON result" where
  "become ty what j =
     (if j_type j \<noteq> ty
      then if j_type j \<noteq> JSON_NULL then Inl (Exception what) else Inr (set_type ty j)
      else Inr j)"

section \<open>Arrays\<close>

definition index_vec :: "uint32 \<Rightarrow> JSON \<Rightarrow> JSON result" where
  "index_vec i j =
     (if unat i \<ge> length (j_vec j) then Inl (Exception ''Index out of range'')
      else Inr (j_vec j ! unat i))"

fun push_vec :: "JSON \<Rightarrow> JSON \<Rightarrow> JSON" where
  "push_vec x (Node ty vs m ord v) = Node ty (vs @ [x]) m ord v"

definition Add :: "JSON \<Rightarrow> JSON \<Rightarrow> JSON result" where
  "Add x j = bindR (become JSON_ARRAY ''Node is not an array type'' j) (\<lambda>j. Inr (push_vec x j))"

section \<open>Objects\<close>

text \<open>Storing under a key; a key that is not there yet goes to the end of the order.\<close>

fun store_key :: "string \<Rightarrow> JSON \<Rightarrow> JSON \<Rightarrow> JSON" where
  "store_key k x (Node ty vs m ord v) =
     Node ty vs (AList.update k x m) (if k \<in> fst ` set m then ord else ord @ [k]) v"

text \<open>
  \<^verbatim>\<open>operator[](std::string)\<close>: the child, which is created as a null node when it is missing, and
  the node with it.
\<close>

definition index_key :: "string \<Rightarrow> JSON \<Rightarrow> (JSON \<times> JSON) result" where
  "index_key k j =
     bindR (become JSON_OBJECT ''Node is not an object type'' j) (\<lambda>j.
       case map_of (j_map j) k of
         Some x \<Rightarrow> Inr (x, j)
       | None \<Rightarrow> Inr (JSON_new JSON_NULL, store_key k (JSON_new JSON_NULL) j))"

text \<open>\<^verbatim>\<open>Set\<close>, and the assignment \<^verbatim>\<open>node[key] = x\<close>.\<close>

definition json_Set :: "string \<Rightarrow> JSON \<Rightarrow> JSON \<Rightarrow> JSON result" where
  "json_Set k x j =
     bindR (become JSON_OBJECT ''Node is not an object type'' j) (\<lambda>j. Inr (store_key k x j))"

section \<open>Primitive values\<close>

fun set_val :: "JSONValueType \<Rightarrow> JSONValue \<Rightarrow> JSON \<Rightarrow> JSON" where
  "set_val ty x (Node _ vs m ord _) = Node ty vs m ord x"

definition assign_bool :: "bool \<Rightarrow> JSON \<Rightarrow> JSON" where
  "assign_bool x j = set_val JSON_BOOL (VBool x) j"

definition assign_int :: "int64 \<Rightarrow> JSON \<Rightarrow> JSON" where
  "assign_int x j = set_val JSON_INTEGER (VInt x) j"

definition assign_double :: "double \<Rightarrow> JSON \<Rightarrow> JSON" where
  "assign_double x j = set_val JSON_DOUBLE (VDouble x) j"

definition assign_string :: "string \<Rightarrow> JSON \<Rightarrow> JSON" where
  "assign_string x j = set_val JSON_STRING (VString x) j"

text \<open>A tag without the value it announces makes \<^verbatim>\<open>boost::get\<close> throw.\<close>

definition GetBool :: "JSON \<Rightarrow> bool result" where
  "GetBool j =
     (if j_type j \<noteq> JSON_BOOL then Inl (Exception ''Node is not a bool type'')
      else case j_val j of VBool x \<Rightarrow> Inr x | _ \<Rightarrow> Inl (Exception ''bad_get''))"

definition GetInt :: "JSON \<Rightarrow> int64 result" where
  "GetInt j =
     (if j_type j \<noteq> JSON_INTEGER then Inl (Exception ''Node is not an int type'')
      else case j_val j of VInt x \<Rightarrow> Inr x | _ \<Rightarrow> Inl (Exception ''bad_get''))"

definition GetDouble :: "JSON \<Rightarrow> double result" where
  "GetDouble j =
     (if j_type j \<noteq> JSON_DOUBLE then Inl (Exception ''Node is not a double type'')
      else case j_val j of VDouble x \<Rightarrow> Inr x | _ \<Rightarrow> Inl (Exception ''bad_get''))"

definition GetString :: "JSON \<Rightarrow> string result" where
  "GetString j =
     (if j_type j \<noteq> JSON_STRING then Inl (Exception ''Node is not a string type'')
      else case j_val j of VString x \<Rightarrow> Inr x | _ \<Rightarrow> Inl (Exception ''bad_get''))"

definition json_Empty :: "JSON \<Rightarrow> bool" where
  "json_Empty j \<longleftrightarrow> j_type j = JSON_NULL"

definition json_Size :: "JSON \<Rightarrow> uint32" where
  "json_Size j =
     (if j_type j = JSON_ARRAY then of_nat (length (j_vec j))
      else if j_type j = JSON_OBJECT then of_nat (length (j_map j))
      else 0)"

text \<open>Fresh nodes with a value: what \<^verbatim>\<open>Add(T val)\<close> builds from a value of each type.\<close>

abbreviation j_null :: JSON where "j_null \<equiv> JSON_new JSON_NULL"
definition j_bool :: "bool \<Rightarrow> JSON" where "j_bool x = assign_bool x j_null"
definition j_int :: "int64 \<Rightarrow> JSON" where "j_int x = assign_int x j_null"
definition j_string :: "string \<Rightarrow> JSON" where "j_string x = assign_string x j_null"

section \<open>The writer (JSON.cpp)\<close>

text \<open>
  \<^verbatim>\<open>EscapeString\<close>: the loop replaces a quotation mark or an apostrophe at \<open>i\<close> by two characters and
  steps over both.
\<close>

definition escapes :: "char \<rightharpoonup> string" where
  "escapes c =
     (if c = CHR 0x22 then Some [CHR 0x5C, CHR 0x22]
      else if c = CHR 0x27 then Some [CHR 0x5C, CHR 0x27]
      else None)"

function escape_loop :: "nat \<Rightarrow> string \<Rightarrow> string" where
  "escape_loop i str =
     (if i < length str
      then case escapes (str ! i) of
          Some esc \<Rightarrow> escape_loop (i + (length esc - 1) + 1) (take i str @ esc @ drop (i + 1) str)
        | None \<Rightarrow> escape_loop (i + 1) str
      else str)"
  by pat_completeness auto
termination
  by (relation "measure (\<lambda>(i, str). length str - i)")
    (auto simp: escapes_def split: if_splits)

declare escape_loop.simps [simp del]

definition EscapeString :: "string \<Rightarrow> string" where
  "EscapeString str = escape_loop 0 str"

definition show_int64 :: "int64 \<Rightarrow> string" where
  "show_int64 x = (if sint x < 0 then ''-'' @ show_dec (nat (- sint x)) else show_dec (nat (sint x)))"

fun mapR :: "('a \<Rightarrow> 'b result) \<Rightarrow> 'a list \<Rightarrow> 'b list result" where
  "mapR f [] = Inr []"
| "mapR f (x # xs) = bindR (f x) (\<lambda>y. bindR (mapR f xs) (\<lambda>ys. Inr (y # ys)))"

lemma mapR_cong [fundef_cong]:
  "xs = ys \<Longrightarrow> (\<And>x. x \<in> set ys \<Longrightarrow> f x = g x) \<Longrightarrow> mapR f xs = mapR g ys"
  by (induction ys arbitrary: xs) auto

abbreviation dquote :: string where "dquote \<equiv> [CHR 0x22]"

lemma size_vec_less: "x \<in> set vs \<Longrightarrow> size x < Suc (size_list size vs + n)"
  by (induction vs) auto

lemma size_map_less: "map_of m k = Some x \<Longrightarrow> size x < Suc (n + size_list (size_prod (\<lambda>_. 0) size) m)"
  by (induction m) (auto split: if_splits)

text \<open>\<^verbatim>\<open>Write\<close>. A key of the order that the map does not have would be created there as a null node.\<close>

function write_json :: "(double \<Rightarrow> string) \<Rightarrow> JSON \<Rightarrow> string result" where
  "write_json show_double (Node ty vs m ord v) =
     (let j = Node ty vs m ord v in
      case ty of
        JSON_NULL \<Rightarrow> Inr ''null''
      | JSON_BOOL \<Rightarrow> bindR (GetBool j) (\<lambda>x. Inr (if x then ''true'' else ''false''))
      | JSON_INTEGER \<Rightarrow> bindR (GetInt j) (\<lambda>x. Inr (show_int64 x))
      | JSON_DOUBLE \<Rightarrow> bindR (GetDouble j) (\<lambda>x. Inr (show_double x))
      | JSON_STRING \<Rightarrow> bindR (GetString j) (\<lambda>x. Inr (dquote @ EscapeString x @ dquote))
      | JSON_ARRAY \<Rightarrow>
          bindR (mapR (write_json show_double) vs) (\<lambda>ss. Inr (''['' @ join_with '', '' ss @ '']''))
      | JSON_OBJECT \<Rightarrow>
          bindR (mapR (\<lambda>k. bindR (case map_of m k of Some x \<Rightarrow> write_json show_double x | None \<Rightarrow> Inr ''null'')
                            (\<lambda>s. Inr (dquote @ k @ dquote @ '':'' @ s))) ord)
            (\<lambda>ss. Inr (''{'' @ join_with '','' ss @ ''}'')))"
  by pat_completeness auto
termination
  by (relation "measure (\<lambda>(_, j). size j)") (auto simp: size_vec_less size_map_less)

text \<open>\<^verbatim>\<open>ToString\<close> puts braces around the text of an array.\<close>

definition ToString :: "(double \<Rightarrow> string) \<Rightarrow> JSON \<Rightarrow> string result" where
  "ToString show_double j =
     bindR (write_json show_double j) (\<lambda>s. Inr (if hd s = CHR ''['' then ''{'' @ s @ ''}'' else s))"


section \<open>Well-formed documents\<close>

text \<open>
  At every node of the document the order lists every key of the map once, and a tag of a
  primitive type comes with a value of this type.
\<close>

fun tagged :: "JSONValueType \<Rightarrow> JSONValue \<Rightarrow> bool" where
  "tagged JSON_BOOL v \<longleftrightarrow> (case v of VBool _ \<Rightarrow> True | _ \<Rightarrow> False)"
| "tagged JSON_INTEGER v \<longleftrightarrow> (case v of VInt _ \<Rightarrow> True | _ \<Rightarrow> False)"
| "tagged JSON_DOUBLE v \<longleftrightarrow> (case v of VDouble _ \<Rightarrow> True | _ \<Rightarrow> False)"
| "tagged JSON_STRING v \<longleftrightarrow> (case v of VString _ \<Rightarrow> True | _ \<Rightarrow> False)"
| "tagged _ v \<longleftrightarrow> True"

fun json_ok :: "JSON \<Rightarrow> bool" where
  "json_ok (Node ty vs m ord v) \<longleftrightarrow>
     tagged ty v \<and> distinct ord \<and> distinct (map fst m) \<and> set ord = fst ` set m
     \<and> list_all json_ok vs \<and> list_all (\<lambda>p. json_ok (snd p)) m"

lemma json_ok_new [simp]: "tagged ty (VBool False) \<Longrightarrow> json_ok (JSON_new ty)"
  by (simp add: JSON_new_def)

lemma json_ok_set_type: "tagged ty (j_val j) \<Longrightarrow> json_ok j \<Longrightarrow> json_ok (set_type ty j)"
  by (cases j) simp

lemma json_ok_set_val: "tagged ty x \<Longrightarrow> json_ok j \<Longrightarrow> json_ok (set_val ty x j)"
  by (cases j) simp

lemma assign_ok:
  assumes "json_ok j"
  shows "json_ok (assign_bool b j)" "json_ok (assign_int i j)" "json_ok (assign_double d j)"
    "json_ok (assign_string s j)"
  using assms
  by (simp_all add: assign_bool_def assign_int_def assign_double_def assign_string_def json_ok_set_val)

lemma json_ok_become:
  "become ty what j = Inr j' \<Longrightarrow> ty \<in> {JSON_ARRAY, JSON_OBJECT} \<Longrightarrow> json_ok j \<Longrightarrow> json_ok j'"
  by (auto simp: become_def json_ok_set_type split: if_splits)

lemma json_ok_push_vec: "json_ok x \<Longrightarrow> json_ok j \<Longrightarrow> json_ok (push_vec x j)"
  by (cases j) simp

lemma list_all_update:
  "P x \<Longrightarrow> list_all (\<lambda>p. P (snd p)) m \<Longrightarrow> list_all (\<lambda>p. P (snd p)) (AList.update k x m)"
  by (induction m) auto

lemma json_ok_store_key: "json_ok x \<Longrightarrow> json_ok j \<Longrightarrow> json_ok (store_key k x j)"
proof (cases j)
  case (Node ty vs m ord v)
  assume "json_ok x" "json_ok j"
  moreover have "distinct (map fst (AList.update k x m))" if "distinct (map fst m)"
    using that by (rule distinct_update)
  moreover have "fst ` set (AList.update k x m) = insert k (fst ` set m)"
    by (induction m) auto
  ultimately show ?thesis
    by (auto simp: Node list_all_update [where P = json_ok])
qed

lemmas json_ok_intros = json_ok_new json_ok_push_vec json_ok_store_key

lemma Add_ok: "Add x j = Inr j' \<Longrightarrow> json_ok x \<Longrightarrow> json_ok j \<Longrightarrow> json_ok j'"
  by (auto simp: Add_def bindR_eq_Inr_iff intro: json_ok_push_vec dest: json_ok_become)

lemma json_Set_ok: "json_Set k x j = Inr j' \<Longrightarrow> json_ok x \<Longrightarrow> json_ok j \<Longrightarrow> json_ok j'"
  by (auto simp: json_Set_def bindR_eq_Inr_iff intro: json_ok_store_key dest: json_ok_become)

lemma json_ok_child: "map_of (j_map j) k = Some x \<Longrightarrow> json_ok j \<Longrightarrow> json_ok x"
  by (cases j) (auto simp: list_all_iff dest: map_of_SomeD)

lemma index_key_ok:
  "index_key k j = Inr (x, j') \<Longrightarrow> json_ok j \<Longrightarrow> json_ok x \<and> json_ok j'"
  by (auto simp: index_key_def bindR_eq_Inr_iff split: option.splits
      intro: json_ok_store_key json_ok_child dest: json_ok_become)

lemma index_vec_ok: "index_vec i j = Inr x \<Longrightarrow> json_ok j \<Longrightarrow> json_ok x"
  by (cases j) (auto simp: index_vec_def list_all_length split: if_splits)

section \<open>Escaping\<close>

lemma escape_loop_eq:
  "escape_loop (length pre) (pre @ s)
   = pre @ concat (map (\<lambda>c. case escapes c of Some esc \<Rightarrow> esc | None \<Rightarrow> [c]) s)"
proof (induction s arbitrary: pre)
  case Nil
  then show ?case by (subst escape_loop.simps) simp
next
  case (Cons c s)
  show ?case
  proof (cases "escapes c")
    case None
    then show ?thesis
      using Cons [of "pre @ [c]"] by (subst escape_loop.simps) simp
  next
    case (Some esc)
    then have "length pre + (length esc - 1) + 1 = length pre + length esc"
      by (auto simp: escapes_def split: if_splits)
    moreover have "drop 1 (c # s) = s" by simp
    ultimately show ?thesis
      using Some Cons [of "pre @ esc"] by (subst escape_loop.simps) (simp del: One_nat_def)
  qed
qed

lemma EscapeString_eq:
  "EscapeString s = concat (map (\<lambda>c. case escapes c of Some esc \<Rightarrow> esc | None \<Rightarrow> [c]) s)"
  using escape_loop_eq [of "[]" s] by (simp add: EscapeString_def)

section \<open>Building documents\<close>

interpretation json_object: keyed_store "\<lambda>j. map_of (j_map j)" store_key
proof
  show "map_of (j_map (store_key k v m)) k' = (if k' = k then Some v else map_of (j_map m) k')" for k v m k'
    by (cases m) (simp add: update_conv)
qed

text \<open>
  The objects and arrays that the pool builds member by member, starting from a null node.
\<close>

definition j_object :: "(string \<times> JSON) list \<Rightarrow> JSON" where
  "j_object kvs = store_all store_key kvs (JSON_new JSON_OBJECT)"

definition j_array :: "JSON list \<Rightarrow> JSON" where
  "j_array xs = fold push_vec xs (JSON_new JSON_ARRAY)"

lemma set_type_new [simp]: "set_type ty (JSON_new ty') = JSON_new ty"
  by (simp add: JSON_new_def)

lemma j_type_new [simp]: "j_type (JSON_new ty) = ty"
  by (simp add: JSON_new_def)

lemma j_type_store_key [simp]: "j_type (store_key k x j) = j_type j"
  by (cases j) simp

lemma j_type_push_vec [simp]: "j_type (push_vec x j) = j_type j"
  by (cases j) simp

lemma become_same [simp]: "j_type j = ty \<Longrightarrow> become ty what j = Inr j"
  by (simp add: become_def)

lemma become_null [simp]: "ty \<noteq> JSON_NULL \<Longrightarrow> become ty what j_null = Inr (JSON_new ty)"
  by (simp add: become_def)

lemma Set_all_object:
  "j_type j = JSON_OBJECT \<Longrightarrow> foldR (\<lambda>(k, x). json_Set k x) kvs j = Inr (store_all store_key kvs j)"
  by (induction kvs arbitrary: j) (auto simp: json_Set_def store_all_def)

text \<open>Assigning members to a null node one after the other builds \<^const>\<open>j_object\<close>; adding, \<^const>\<open>j_array\<close>.\<close>

lemma Set_all_eq: "kvs \<noteq> [] \<Longrightarrow> foldR (\<lambda>(k, x). json_Set k x) kvs j_null = Inr (j_object kvs)"
  by (cases kvs) (auto simp: json_Set_def Set_all_object j_object_def store_all_def)

lemma Add_all_array:
  "j_type j = JSON_ARRAY \<Longrightarrow> foldR Add xs j = Inr (fold push_vec xs j)"
  by (induction xs arbitrary: j) (auto simp: Add_def)

lemma Add_all_eq: "xs \<noteq> [] \<Longrightarrow> foldR Add xs j_null = Inr (j_array xs)"
  by (cases xs) (auto simp: Add_def Add_all_array j_array_def)

lemma j_array_eq: "j_array xs = Node JSON_ARRAY xs [] [] (VBool False)"
proof -
  have "fold push_vec xs (Node ty vs m ord v) = Node ty (vs @ xs) m ord v" for ty vs m ord v
    by (induction xs arbitrary: vs) simp_all
  then show ?thesis by (simp add: j_array_def JSON_new_def)
qed

lemma j_object_order:
  "distinct (map fst kvs) \<Longrightarrow> j_mapOrder (j_object kvs) = map fst kvs"
proof -
  have "distinct (map fst kvs) \<Longrightarrow> fst ` set kvs \<inter> fst ` set (j_map j) = {}
      \<Longrightarrow> j_mapOrder (store_all store_key kvs j) = j_mapOrder j @ map fst kvs" for j
  proof (induction kvs arbitrary: j)
    case (Cons kv kvs)
    obtain k x where kv: "kv = (k, x)" by (cases kv)
    obtain ty vs m ord v where j: "j = Node ty vs m ord v" by (cases j)
    have "fst ` set (AList.update k x m) = insert k (fst ` set m)" by (induction m) auto
    with Cons.prems have "fst ` set kvs \<inter> fst ` set (j_map (store_key k x j)) = {}"
      by (auto simp: kv j)
    with Cons.IH [of "store_key k x j"] Cons.prems show ?case
      by (auto simp: kv j store_all_def)
  qed (simp add: store_all_def)
  then show "distinct (map fst kvs) \<Longrightarrow> j_mapOrder (j_object kvs) = map fst kvs"
    by (simp add: j_object_def JSON_new_def)
qed

lemma j_type_object [simp]: "j_type (j_object kvs) = JSON_OBJECT"
proof -
  have "j_type (store_all store_key kvs j) = j_type j" for j
    by (induction kvs arbitrary: j) (auto simp: store_all_def)
  then show ?thesis by (simp add: j_object_def)
qed

lemma object_member:
  "distinct (map fst kvs) \<Longrightarrow> (k, x) \<in> set kvs \<Longrightarrow> map_of (j_map (j_object kvs)) k = Some x"
  unfolding j_object_def by (rule json_object.find_store_all_distinct)

lemma object_ok: "list_all (\<lambda>(k, x). json_ok x) kvs \<Longrightarrow> json_ok (j_object kvs)"
proof -
  have "json_ok j \<Longrightarrow> list_all (\<lambda>(k, x). json_ok x) kvs \<Longrightarrow> json_ok (store_all store_key kvs j)" for j
    by (induction kvs arbitrary: j) (auto simp: store_all_def intro: json_ok_store_key)
  then show "list_all (\<lambda>(k, x). json_ok x) kvs \<Longrightarrow> json_ok (j_object kvs)"
    by (simp add: j_object_def)
qed

lemma array_ok: "list_all json_ok xs \<Longrightarrow> json_ok (j_array xs)"
  by (simp add: j_array_eq)

lemma value_ok [simp]: "json_ok (j_bool b)" "json_ok (j_int i)" "json_ok (j_string s)"
  by (simp_all add: j_bool_def j_int_def j_string_def assign_ok)

section \<open>Properties\<close>

text \<open>
  C39. Assigning a member keeps a document well-formed; the member is then found under its key, all
  other members are as before, and a new key goes to the end of the order in which members are
  written.
\<close>

theorem json_Set_get:
  assumes "json_ok j" and "json_ok x" and set: "json_Set k x j = Inr j'"
  shows "json_ok j' \<and> index_key k j' = Inr (x, j')
    \<and> (\<forall>k'. k' \<noteq> k \<longrightarrow> map_of (j_map j') k' = map_of (j_map j) k')
    \<and> j_mapOrder j' = (if k \<in> set (j_mapOrder j) then j_mapOrder j else j_mapOrder j @ [k])"
proof -
  from set obtain i where i: "become JSON_OBJECT ''Node is not an object type'' j = Inr i"
    and j': "j' = store_key k x i" by (auto simp: json_Set_def)
  from i have ty: "j_type i = JSON_OBJECT" and same: "j_map i = j_map j" "j_mapOrder i = j_mapOrder j"
    by (cases j; auto simp: become_def split: if_splits)+
  have find: "map_of (j_map j') k' = (if k' = k then Some x else map_of (j_map j) k')" for k'
    unfolding j' json_object.find_store same ..
  have "set (j_mapOrder i) = fst ` set (j_map i)" using assms(1) same by (cases j) auto
  then have "j_mapOrder j' = (if k \<in> set (j_mapOrder j) then j_mapOrder j else j_mapOrder j @ [k])"
    unfolding j' same [symmetric] by (cases i) simp
  moreover have "j_type j' = JSON_OBJECT" by (simp add: j' ty)
  then have "index_key k j' = Inr (x, j')" by (simp add: index_key_def find)
  ultimately show ?thesis using json_Set_ok [OF set] assms(1,2) find by simp
qed

theorem json_Set_get_witness:
  "\<exists>j'. json_Set ''id'' (j_int 7) (j_object [(''error'', j_null)]) = Inr j'
    \<and> json_ok j' \<and> index_key ''id'' j' = Inr (j_int 7, j')
    \<and> (\<forall>k'. k' \<noteq> ''id'' \<longrightarrow> map_of (j_map j') k' = map_of (j_map (j_object [(''error'', j_null)])) k')
    \<and> j_mapOrder j' = [''error'', ''id'']"
proof -
  let ?j = "j_object [(''error'', j_null)]"
  have ok: "json_ok ?j" by (rule object_ok) simp
  have order: "j_mapOrder ?j = [''error'']" using j_object_order [of "[(''error'', j_null)]"] by simp
  obtain j' where j': "json_Set ''id'' (j_int 7) ?j = Inr j'" by (simp add: json_Set_def)
  from json_Set_get [OF ok _ this] j' show ?thesis by (simp add: order)
qed

text \<open>Escaping by repeated in-place replacement puts one backslash before every quotation mark
  and apostrophe and changes nothing else.\<close>

theorem EscapeString_spec:
  "EscapeString s
   = concat (map (\<lambda>c. if c = CHR 0x22 \<or> c = CHR 0x27 then [CHR 0x5C, c] else [c]) s)"
  unfolding EscapeString_eq by (rule arg_cong [where f = concat]) (simp add: escapes_def)

lemma mapR_total: "(\<And>x. x \<in> set xs \<Longrightarrow> \<exists>y. f x = Inr y) \<Longrightarrow> \<exists>ys. mapR f xs = Inr ys"
proof (induction xs)
  case (Cons x xs)
  then obtain y ys where "f x = Inr y" "mapR f xs = Inr ys" by fastforce
  then show ?case by simp
qed simp

lemma write_json_total: "json_ok j \<Longrightarrow> \<exists>s. write_json show_double j = Inr s"
proof (induction show_double j rule: write_json.induct)
  case (1 show_double ty vs m ord v)
  have vals: "\<exists>ss. mapR (write_json show_double) vs = Inr ss" if "ty = JSON_ARRAY"
    using 1 that by (intro mapR_total) (auto simp: list_all_iff)
  have member: "\<exists>s. bindR (case map_of m k of Some x \<Rightarrow> write_json show_double x | None \<Rightarrow> Inr ''null'')
      (\<lambda>s. Inr (dquote @ k @ dquote @ '':'' @ s)) = Inr s" if ty: "ty = JSON_OBJECT" and "k \<in> set ord" for k
  proof (cases "map_of m k")
    case (Some x)
    then have "json_ok x" using 1(3) by (auto simp: list_all_iff dest!: map_of_SomeD)
    then have "\<exists>s. write_json show_double x = Inr s" using 1(2) ty that(2) Some by simp
    with Some show ?thesis by auto
  qed simp
  show ?case
  proof (cases ty)
    case JSON_ARRAY
    then show ?thesis using vals by auto
  next
    case JSON_OBJECT
    have "\<exists>ss. mapR (\<lambda>k. bindR (case map_of m k of Some x \<Rightarrow> write_json show_double x | None \<Rightarrow> Inr ''null'')
        (\<lambda>s. Inr (dquote @ k @ dquote @ '':'' @ s))) ord = Inr ss"
      by (intro mapR_total member JSON_OBJECT)
    with JSON_OBJECT show ?thesis by auto
  qed (use 1(3) in \<open>auto simp: GetBool_def GetInt_def GetDouble_def GetString_def split: JSONValue.splits\<close>)
qed

text \<open>
  Turning a well-formed document into text always succeeds: \<^verbatim>\<open>SendMessage\<close> throws for none of the
  messages the pool builds.
\<close>

theorem ToString_total: "json_ok j \<Longrightarrow> \<exists>s. ToString show_double j = Inr s"
  using write_json_total [of j show_double] by (auto simp: ToString_def)

theorem ToString_total_witness:
  "\<exists>s. ToString (\<lambda>_. []) (j_object [(''id'', j_int 7), (''result'', j_array [j_bool True, j_null])]) = Inr s"
  by (rule ToString_total) (intro object_ok, simp add: array_ok)

end
