(* ===== verification/Json_Reader.thy ===== *)
theory Json_Reader
  imports Json
begin

text \<open>
  The reader of \<open>shared/JSON/JSONReader.h\<close>: a grammar whose matches call semantic functions, which
  build the document on a stack. The grammar is run by Boost.Spirit; its rules (sequence, ordered
  alternative, option, list, and white space skipped before every token) are written out here as
  functions. The tokens that Spirit itself defines, white space and numbers, are parameters.

  An action is performed as soon as its token matches and is not undone when the rule fails
  later, so a failing parser also returns the state of the semantic functions. The rules recurse
  with fuel; \<open>parse_fuel\<close> shows that the fuel \<open>Parse\<close> provides is enough.
\<close>

section \<open>Tokens\<close>

text \<open>
  The skipper \<^verbatim>\<open>iso8859_1::space\<close>, and \<^verbatim>\<open>strict_double\<close> and \<^verbatim>\<open>long_long\<close> on text with leading white space
  removed: the number and what follows it, or no match.
\<close>

record qi =
  qi_space :: "char \<Rightarrow> bool"
  qi_strict_double :: "string \<Rightarrow> (double \<times> string) option"
  qi_long_long :: "string \<Rightarrow> (int64 \<times> string) option"

definition skip :: "qi \<Rightarrow> string \<Rightarrow> string" where
  "skip q s = dropWhile (qi_space q) s"

definition lit :: "qi \<Rightarrow> char \<Rightarrow> string \<Rightarrow> string option" where
  "lit q c s = (case skip q s of [] \<Rightarrow> None | x # r \<Rightarrow> if x = c then Some r else None)"

definition keyword :: "qi \<Rightarrow> string \<Rightarrow> string \<Rightarrow> string option" where
  "keyword q w s =
     (let r = skip q s in if take (length w) r = w then Some (drop (length w) r) else None)"

text \<open>\<^verbatim>\<open>string\<close>: everything up to the next quotation mark; a backslash has no meaning here.\<close>

definition p_string :: "qi \<Rightarrow> string \<Rightarrow> (string \<times> string) option" where
  "p_string q s =
     (case lit q (CHR 0x22) s of
        None \<Rightarrow> None
      | Some r \<Rightarrow>
          (case dropWhile (\<lambda>c. c \<noteq> CHR 0x22) r of
             [] \<Rightarrow> None
           | x # rest \<Rightarrow> Some (takeWhile (\<lambda>c. c \<noteq> CHR 0x22) r, rest)))"

section \<open>Semantic functions\<close>

text \<open>
  The stack of open nodes and the stack of names, top first. The lowest node is the caller's
  document; \<open>sf_root\<close> is its value after it has been taken from the stack.
\<close>

record SemanticFunctions =
  sf_stack :: "JSON list"
  sf_names :: "string list"
  sf_root :: JSON

definition SemanticFunctions_new :: "JSON \<Rightarrow> SemanticFunctions" where
  "SemanticFunctions_new node = \<lparr>sf_stack = [node], sf_names = [], sf_root = node\<rparr>"

text \<open>
  \<^verbatim>\<open>SetData\<close> on a node that is neither an object nor an array throws a string literal, which no handler
  catches.
\<close>

definition SetData :: "JSON \<Rightarrow> SemanticFunctions \<Rightarrow> SemanticFunctions result" where
  "SetData data sf =
     (case sf_stack sf of
        [] \<Rightarrow> Inl (Undefined ''back of an empty vector'')
      | node # rest \<Rightarrow>
          if j_type node = JSON_OBJECT
          then (case sf_names sf of
              [] \<Rightarrow> Inl (Undefined ''back of an empty vector'')
            | k # ks \<Rightarrow> bindR (json_Set k data node) (\<lambda>node. Inr (sf\<lparr>sf_stack := node # rest, sf_names := ks\<rparr>)))
          else if j_type node = JSON_ARRAY
          then bindR (Add data node) (\<lambda>node. Inr (sf\<lparr>sf_stack := node # rest\<rparr>))
          else Inl (Undefined ''uncaught exception''))"

definition begin_node :: "JSONValueType \<Rightarrow> SemanticFunctions \<Rightarrow> SemanticFunctions result" where
  "begin_node ty sf =
     (case sf_stack sf of
        [] \<Rightarrow> Inl (Undefined ''back of an empty vector'')
      | node # rest \<Rightarrow>
          if j_type node = JSON_NULL then Inr (sf\<lparr>sf_stack := set_type ty node # rest\<rparr>)
          else Inr (sf\<lparr>sf_stack := JSON_new ty # node # rest\<rparr>))"

definition BeginObject :: "SemanticFunctions \<Rightarrow> SemanticFunctions result" where
  "BeginObject sf = begin_node JSON_OBJECT sf"

definition BeginArray :: "SemanticFunctions \<Rightarrow> SemanticFunctions result" where
  "BeginArray sf = begin_node JSON_ARRAY sf"

definition end_node :: "SemanticFunctions \<Rightarrow> SemanticFunctions result" where
  "end_node sf =
     (case sf_stack sf of
        [] \<Rightarrow> Inl (Undefined ''back of an empty vector'')
      | node # rest \<Rightarrow>
          if rest \<noteq> [] then SetData node (sf\<lparr>sf_stack := rest\<rparr>)
          else Inr (sf\<lparr>sf_stack := [], sf_root := node\<rparr>))"

definition EndObject :: "SemanticFunctions \<Rightarrow> SemanticFunctions result" where
  "EndObject sf = end_node sf"

definition EndArray :: "SemanticFunctions \<Rightarrow> SemanticFunctions result" where
  "EndArray sf = end_node sf"

definition ObjectKey :: "string \<Rightarrow> SemanticFunctions \<Rightarrow> SemanticFunctions result" where
  "ObjectKey str sf = Inr (sf\<lparr>sf_names := str # sf_names sf\<rparr>)"

definition sf_String :: "string \<Rightarrow> SemanticFunctions \<Rightarrow> SemanticFunctions result" where
  "sf_String str sf = SetData (j_string str) sf"

definition BoolTrue :: "SemanticFunctions \<Rightarrow> SemanticFunctions result" where
  "BoolTrue sf = SetData (j_bool True) sf"

definition BoolFalse :: "SemanticFunctions \<Rightarrow> SemanticFunctions result" where
  "BoolFalse sf = SetData (j_bool False) sf"

definition Null :: "SemanticFunctions \<Rightarrow> SemanticFunctions result" where
  "Null sf = SetData (JSON_new JSON_NULL) sf"

definition Integer :: "int64 \<Rightarrow> SemanticFunctions \<Rightarrow> SemanticFunctions result" where
  "Integer val sf = SetData (j_int val) sf"

definition Double :: "double \<Rightarrow> SemanticFunctions \<Rightarrow> SemanticFunctions result" where
  "Double val sf = SetData (assign_double val j_null) sf"

section \<open>The grammar\<close>

text \<open>A match returns what is left of the text.\<close>

type_synonym parser = "string \<Rightarrow> SemanticFunctions \<Rightarrow> (string option \<times> SemanticFunctions) result"

abbreviation no_match :: "SemanticFunctions \<Rightarrow> (string option \<times> SemanticFunctions) result" where
  "no_match sf \<equiv> Inr (None, sf)"

abbreviation out_of_fuel :: fault where "out_of_fuel \<equiv> Undefined ''fuel''"

text \<open>A token with its action.\<close>

definition act :: "SemanticFunctions result \<Rightarrow> string \<Rightarrow> (string option \<times> SemanticFunctions) result" where
  "act r rest = bindR r (\<lambda>sf. Inr (Some rest, sf))"

text \<open>The alternatives of \<^verbatim>\<open>value\<close> after objects and arrays.\<close>

definition p_primitive :: "qi \<Rightarrow> parser" where
  "p_primitive q s sf =
     (case p_string q s of Some (str, r) \<Rightarrow> act (sf_String str sf) r
      | None \<Rightarrow>
     (case qi_strict_double q (skip q s) of Some (d, r) \<Rightarrow> act (Double d sf) r
      | None \<Rightarrow>
     (case qi_long_long q (skip q s) of Some (i, r) \<Rightarrow> act (Integer i sf) r
      | None \<Rightarrow>
     (case keyword q ''true'' s of Some r \<Rightarrow> act (BoolTrue sf) r
      | None \<Rightarrow>
     (case keyword q ''false'' s of Some r \<Rightarrow> act (BoolFalse sf) r
      | None \<Rightarrow>
     (case keyword q ''null'' s of Some r \<Rightarrow> act (Null sf) r
      | None \<Rightarrow> no_match sf))))))"

text \<open>
  The recursive rules, each given the parsers of the rules it refers to. A list \<^verbatim>\<open>p % ','\<close> is one
  \<open>p\<close> and then as many further ones as follow; it ends, in front of the comma, at the first comma
  that no \<open>p\<close> follows.
\<close>

datatype rule =
  R_value | R_object | R_array | R_pair | R_members | R_more_members | R_elements | R_more_elements

definition g_value :: "(rule \<Rightarrow> parser) \<Rightarrow> qi \<Rightarrow> parser" where
  "g_value p q s sf =
     bindR (p R_object s sf) (\<lambda>(r, sf).
       case r of Some r \<Rightarrow> Inr (Some r, sf) | None \<Rightarrow>
     bindR (p R_array s sf) (\<lambda>(r, sf).
       case r of Some r \<Rightarrow> Inr (Some r, sf) | None \<Rightarrow> p_primitive q s sf))"

definition g_object :: "(rule \<Rightarrow> parser) \<Rightarrow> qi \<Rightarrow> parser" where
  "g_object p q s sf =
     (case lit q (CHR ''{'') s of
        None \<Rightarrow> no_match sf
      | Some s1 \<Rightarrow>
          bindR (BeginObject sf) (\<lambda>sf.
          bindR (p R_members s1 sf) (\<lambda>(r, sf).
          case lit q (CHR ''}'') (case r of Some s2 \<Rightarrow> s2 | None \<Rightarrow> s1) of
            None \<Rightarrow> no_match sf
          | Some s3 \<Rightarrow> act (EndObject sf) s3)))"

definition g_array :: "(rule \<Rightarrow> parser) \<Rightarrow> qi \<Rightarrow> parser" where
  "g_array p q s sf =
     (case lit q (CHR ''['') s of
        None \<Rightarrow> no_match sf
      | Some s1 \<Rightarrow>
          bindR (BeginArray sf) (\<lambda>sf.
          bindR (p R_elements s1 sf) (\<lambda>(r, sf).
          case lit q (CHR '']'') (case r of Some s2 \<Rightarrow> s2 | None \<Rightarrow> s1) of
            None \<Rightarrow> no_match sf
          | Some s3 \<Rightarrow> act (EndArray sf) s3)))"

definition g_pair :: "(rule \<Rightarrow> parser) \<Rightarrow> qi \<Rightarrow> parser" where
  "g_pair p q s sf =
     (case p_string q s of
        None \<Rightarrow> no_match sf
      | Some (k, s1) \<Rightarrow>
          bindR (ObjectKey k sf) (\<lambda>sf.
          case lit q (CHR '':'') s1 of
            None \<Rightarrow> no_match sf
          | Some s2 \<Rightarrow> p R_value s2 sf))"

definition g_list :: "parser \<Rightarrow> parser \<Rightarrow> parser" where
  "g_list item others s sf =
     bindR (item s sf) (\<lambda>(r, sf). case r of None \<Rightarrow> no_match sf | Some s1 \<Rightarrow> others s1 sf)"

definition g_more :: "qi \<Rightarrow> parser \<Rightarrow> parser \<Rightarrow> parser" where
  "g_more q item others s sf =
     (case lit q (CHR '','') s of
        None \<Rightarrow> Inr (Some s, sf)
      | Some s1 \<Rightarrow>
          bindR (item s1 sf) (\<lambda>(r, sf).
            case r of None \<Rightarrow> Inr (Some s, sf) | Some s2 \<Rightarrow> others s2 sf))"

primrec g_rule :: "qi \<Rightarrow> (rule \<Rightarrow> parser) \<Rightarrow> rule \<Rightarrow> parser" where
  "g_rule q p R_value = g_value p q"
| "g_rule q p R_object = g_object p q"
| "g_rule q p R_array = g_array p q"
| "g_rule q p R_pair = g_pair p q"
| "g_rule q p R_members = g_list (p R_pair) (p R_more_members)"
| "g_rule q p R_more_members = g_more q (p R_pair) (p R_more_members)"
| "g_rule q p R_elements = g_list (p R_value) (p R_more_elements)"
| "g_rule q p R_more_elements = g_more q (p R_value) (p R_more_elements)"

primrec run_rule :: "qi \<Rightarrow> nat \<Rightarrow> rule \<Rightarrow> parser" where
  "run_rule q 0 = (\<lambda>r s sf. Inl out_of_fuel)"
| "run_rule q (Suc n) = g_rule q (run_rule q n)"

text \<open>\<^verbatim>\<open>json = object | array\<close>, and \<^verbatim>\<open>Parse\<close>: text after the first document is ignored.\<close>

definition parse_fuel_for :: "string \<Rightarrow> nat" where
  "parse_fuel_for s = 4 * length s + 4"

definition Parse :: "qi \<Rightarrow> string \<Rightarrow> JSON \<Rightarrow> JSON result" where
  "Parse q str node =
     (let p = run_rule q (parse_fuel_for str) in
      bindR (p R_object str (SemanticFunctions_new node)) (\<lambda>(r, sf).
        case r of Some _ \<Rightarrow> Inr (sf_root sf) | None \<Rightarrow>
      bindR (p R_array str sf) (\<lambda>(r, sf).
        case r of Some _ \<Rightarrow> Inr (sf_root sf)
        | None \<Rightarrow> Inl (Exception ''Failed to parse JSON''))))"

definition FromString :: "qi \<Rightarrow> string \<Rightarrow> JSON result" where
  "FromString q jsonstring = Parse q jsonstring (JSON_new JSON_NULL)"

text \<open>
  The destructor of \<^verbatim>\<open>SemanticFunctions\<close>: the nodes that are deleted, from the top of the stack, and what is
  left on it. It changes nothing that \<^verbatim>\<open>Parse\<close> returns.
\<close>

fun delete_loop :: "uint32 \<Rightarrow> JSON list \<Rightarrow> JSON list \<times> JSON list" where
  "delete_loop i [] = ([], [])"
| "delete_loop i (node # rest) =
     (if unat (i + 1) < length (node # rest)
      then (case delete_loop (i + 1) rest of (deleted, left) \<Rightarrow> (node # deleted, left))
      else ([], node # rest))"

definition SemanticFunctions_delete :: "SemanticFunctions \<Rightarrow> JSON list \<times> JSON list" where
  "SemanticFunctions_delete sf = delete_loop 0 (sf_stack sf)"

text \<open>
  The index grows while the stack shrinks, so the loop ends half-way: of the nodes that a text which does not parse
  leaves above the root, every second one is never freed.
\<close>

lemma delete_loop_half:
  "unat i + length stack < 2 ^ 32 \<Longrightarrow> unat i \<le> length stack \<Longrightarrow>
    delete_loop i stack = (take ((length stack - unat i) div 2) stack, drop ((length stack - unat i) div 2) stack)"
proof (induction i stack rule: delete_loop.induct)
  case (2 i node rest)
  then have i: "unat (i + 1) = unat i + 1" by (intro unat_plus_simple [THEN iffD1, THEN trans]) (auto simp: word_le_nat_alt unat_word_ariths)
  show ?case
  proof (cases "unat (i + 1) < length (node # rest)")
    case True
    then have "(length (node # rest) - unat i) div 2 = Suc ((length rest - unat (i + 1)) div 2)" using i by simp
    with True 2 i show ?thesis by simp
  next
    case False
    then have "(length (node # rest) - unat i) div 2 = 0" using i 2(3) by simp
    with False show ?thesis by (simp only: delete_loop.simps if_False take_0 drop_0)
  qed
qed simp

lemma destructor_leaks:
  assumes "length (sf_stack sf) < 2 ^ 32"
  shows "length (snd (SemanticFunctions_delete sf)) = (length (sf_stack sf) + 1) div 2"
  using delete_loop_half [of 0 "sf_stack sf"] assms unfolding SemanticFunctions_delete_def by simp

section \<open>The reader never leaves its stack\<close>

text \<open>What the reader relies on of Spirit's number tokens: they do not lengthen the text, and no number
  starts with an opening brace or a bracket.\<close>

definition number_tokens :: "(string \<Rightarrow> ('a \<times> string) option) \<Rightarrow> bool" where
  "number_tokens f \<longleftrightarrow>
     (\<forall>s x r. f s = Some (x, r) \<longrightarrow> length r \<le> length s \<and> s \<noteq> [] \<and> hd s \<notin> set ''{[]'')"

definition qi_ok :: "qi \<Rightarrow> bool" where
  "qi_ok q \<longleftrightarrow> number_tokens (qi_strict_double q) \<and> number_tokens (qi_long_long q)"

text \<open>The next character after white space.\<close>

definition next_in :: "qi \<Rightarrow> string \<Rightarrow> string \<Rightarrow> bool" where
  "next_in q cs s \<longleftrightarrow> skip q s \<noteq> [] \<and> hd (skip q s) \<in> set cs"

lemma skip_length: "length (skip q s) \<le> length s"
  by (simp add: skip_def length_dropWhile_le)

lemma lit_Some: "lit q c s = Some r \<Longrightarrow> length r < length s \<and> next_in q [c] s"
  using skip_length [of q s] by (auto simp: lit_def next_in_def split: list.splits if_splits)

lemma lit_next: "next_in q cs s \<Longrightarrow> c \<notin> set cs \<Longrightarrow> lit q c s = None"
  by (auto simp: lit_def next_in_def split: list.splits)

lemma p_string_Some:
  assumes "p_string q s = Some (k, r)"
  shows "length r < length s \<and> next_in q dquote s"
proof -
  from assms obtain r' x where "lit q (CHR 0x22) s = Some r'"
    and "dropWhile (\<lambda>c. c \<noteq> CHR 0x22) r' = x # r"
    by (auto simp: p_string_def split: option.splits list.splits)
  moreover from this(2) have "length (x # r) \<le> length r'"
    using length_dropWhile_le [of "\<lambda>c. c \<noteq> CHR 0x22" r'] by simp
  ultimately show ?thesis using lit_Some by fastforce
qed

lemma keyword_Some: "keyword q w s = Some r \<Longrightarrow> length r \<le> length s"
  using skip_length [of q s] by (auto simp: keyword_def Let_def split: if_splits)

lemma number_none: "number_tokens f \<Longrightarrow> s = c # t \<Longrightarrow> c \<in> set ''{[]'' \<Longrightarrow> f s = None"
  by (cases "f s") (fastforce simp: number_tokens_def)+

lemma primitive_no_match:
  assumes "qi_ok q" and "next_in q ''{[]'' s"
  shows "p_primitive q s sf = no_match sf"
proof -
  obtain c t where s: "skip q s = c # t" and c: "c \<in> set ''{[]''"
    using assms(2) by (cases "skip q s") (auto simp: next_in_def)
  have "qi_strict_double q (skip q s) = None" "qi_long_long q (skip q s) = None"
    using assms(1) s c by (auto simp: qi_ok_def intro!: number_none)
  moreover have "p_string q s = None" using lit_next [OF assms(2), of "CHR 0x22"] by (simp add: p_string_def)
  moreover have "keyword q w s = None" if "w \<noteq> []" "hd w \<notin> set ''{[]''" for w
    using that s c by (cases w) (auto simp: keyword_def)
  ultimately show ?thesis using assms(1) by (simp add: p_primitive_def)
qed

lemma array_no_match: "lit q (CHR ''['') s = None \<Longrightarrow> 0 < n \<Longrightarrow> run_rule q n R_array s sf = no_match sf"
  by (cases n) (simp_all add: g_array_def)

text \<open>
  A node under construction is on top of the stack. \<open>grown\<close>: it has been extended and nothing else has
  changed. A value that is added to an object uses up the name on top of the name stack.
\<close>

definition top_is :: "JSONValueType set \<Rightarrow> SemanticFunctions \<Rightarrow> bool" where
  "top_is tys sf \<longleftrightarrow>
     (\<exists>n rest. sf_stack sf = n # rest \<and> json_ok n \<and> j_type n \<in> tys
       \<and> (j_type n = JSON_OBJECT \<longrightarrow> tys \<noteq> {JSON_OBJECT} \<longrightarrow> sf_names sf \<noteq> []))"

definition grown :: "SemanticFunctions \<Rightarrow> SemanticFunctions \<Rightarrow> bool" where
  "grown sf sf' \<longleftrightarrow>
     (\<exists>n n' rest. sf_stack sf = n # rest \<and> sf_stack sf' = n' # rest
       \<and> json_ok n' \<and> j_type n' = j_type n)
     \<and> sf_names sf' = sf_names sf"

definition popped :: "SemanticFunctions \<Rightarrow> SemanticFunctions" where
  "popped sf =
     (if j_type (hd (sf_stack sf)) = JSON_OBJECT then sf\<lparr>sf_names := tl (sf_names sf)\<rparr> else sf)"

lemma grown_refl: "top_is tys sf \<Longrightarrow> grown sf sf"
  by (auto simp: top_is_def grown_def)

lemma grown_trans: "grown sf sf' \<Longrightarrow> grown sf' sf'' \<Longrightarrow> grown sf sf''"
  by (auto simp: grown_def)

lemma grown_top: "grown sf sf' \<Longrightarrow> top_is {ty} sf \<Longrightarrow> top_is {ty} sf'"
  by (auto simp: grown_def top_is_def)

abbreviation containers :: "JSONValueType set" where "containers \<equiv> {JSON_OBJECT, JSON_ARRAY}"

lemma SetData_grown:
  assumes "top_is containers sf" and "json_ok d"
  shows "\<exists>sf'. SetData d sf = Inr sf' \<and> grown (popped sf) sf'"
proof -
  obtain n rest where n: "sf_stack sf = n # rest" "json_ok n" "j_type n \<in> containers"
    and names: "j_type n = JSON_OBJECT \<Longrightarrow> sf_names sf \<noteq> []"
    using assms(1) by (auto simp: top_is_def)
  from n(3) consider "j_type n = JSON_OBJECT" | "j_type n = JSON_ARRAY" by auto
  then show ?thesis
  proof cases
    case 1
    with names obtain k ks where "sf_names sf = k # ks" by (cases "sf_names sf") auto
    with 1 n assms(2) show ?thesis
      by (simp add: SetData_def json_Set_def popped_def grown_def json_ok_store_key)
  next
    case 2
    with n assms(2) show ?thesis
      by (simp add: SetData_def Add_def popped_def grown_def json_ok_push_vec)
  qed
qed

text \<open>
  What each rule does from a stack that is ready for it. It never faults; a match leaves the node on
  top of the stack grown, except that a list may stop before a comma; and when there is no match either
  nothing was done or the next character is one that no other rule accepts at this place.
\<close>

primrec starts :: "rule \<Rightarrow> string" where
  "starts R_value = ''{[''"
| "starts R_object = ''{''"
| "starts R_array = ''[''"
| "starts R_pair = dquote"
| "starts R_members = dquote"
| "starts R_more_members = []"
| "starts R_elements = ''{[''"
| "starts R_more_elements = []"

primrec rule_rank :: "rule \<Rightarrow> nat" where
  "rule_rank R_value = 2"
| "rule_rank R_object = 1"
| "rule_rank R_array = 1"
| "rule_rank R_pair = 1"
| "rule_rank R_members = 2"
| "rule_rank R_more_members = 1"
| "rule_rank R_elements = 3"
| "rule_rank R_more_elements = 1"

definition rule_pre :: "rule \<Rightarrow> SemanticFunctions \<Rightarrow> bool" where
  "rule_pre r sf \<longleftrightarrow>
     (if r \<in> {R_value, R_object, R_array} then top_is containers sf
      else if r \<in> {R_pair, R_members, R_more_members} then top_is {JSON_OBJECT} sf
      else top_is {JSON_ARRAY} sf)"

definition rule_post :: "qi \<Rightarrow> rule \<Rightarrow> SemanticFunctions \<Rightarrow> string \<Rightarrow> SemanticFunctions \<Rightarrow> bool" where
  "rule_post q r sf t sf' \<longleftrightarrow>
     (if r \<in> {R_value, R_object, R_array} then grown (popped sf) sf'
      else if r = R_pair then grown sf sf'
      else grown sf sf' \<or> next_in q '','' t)"

definition outcome_ok ::
  "qi \<Rightarrow> rule \<Rightarrow> string \<Rightarrow> SemanticFunctions \<Rightarrow> (string option \<times> SemanticFunctions) result \<Rightarrow> bool" where
  "outcome_ok q r s sf res \<longleftrightarrow>
     (case res of
        Inl _ \<Rightarrow> False
      | Inr (None, sf') \<Rightarrow>
          r \<notin> {R_more_members, R_more_elements} \<and> (sf' = sf \<or> next_in q (starts r) s)
      | Inr (Some t, sf') \<Rightarrow> length t \<le> length s \<and> rule_post q r sf t sf')"

definition rules_ok :: "qi \<Rightarrow> nat \<Rightarrow> bool" where
  "rules_ok q n \<longleftrightarrow>
     (\<forall>r s sf. rule_pre r sf \<longrightarrow> 4 * length s + rule_rank r \<le> n
        \<longrightarrow> outcome_ok q r s sf (run_rule q n r s sf))"

lemma rules_okD:
  "rules_ok q n \<Longrightarrow> rule_pre r sf \<Longrightarrow> 4 * length s + rule_rank r \<le> n
   \<Longrightarrow> outcome_ok q r s sf (run_rule q n r s sf)"
  by (simp add: rules_ok_def)

lemma outcome_okE:
  assumes "outcome_ok q r s sf res"
  obtains (none) sf' where "res = no_match sf'" "sf' = sf \<or> next_in q (starts r) s"
      "r \<notin> {R_more_members, R_more_elements}"
  | (some) t sf' where "res = Inr (Some t, sf')" "length t \<le> length s" "rule_post q r sf t sf'"
proof (cases res)
  case (Inr a)
  with assms that show ?thesis by (cases a; cases "fst a") (auto simp: outcome_ok_def)
qed (use assms in \<open>simp add: outcome_ok_def\<close>)

lemma outcome_act:
  assumes "\<exists>sf'. res = Inr sf' \<and> grown (popped sf) sf'" and "length t \<le> length s"
    and "r \<in> {R_value, R_object, R_array}"
  shows "outcome_ok q r s sf (act res t)"
  using assms by (auto simp: outcome_ok_def rule_post_def act_def)

lemma primitive_ok:
  assumes q: "qi_ok q" and sf: "top_is containers sf"
  shows "outcome_ok q R_value s sf (p_primitive q s sf)"
proof -
  have add: "outcome_ok q R_value s sf (act (SetData d sf) t)" if "json_ok d" "length t \<le> length s" for d t
    using that by (intro outcome_act SetData_grown sf) simp_all
  have num: "length t \<le> length s" if "number_tokens f" "f (skip q s) = Some (x, t)"
    for f :: "string \<Rightarrow> ('a \<times> string) option" and x t
    using that skip_length [of q s] by (fastforce simp: number_tokens_def)
  have "outcome_ok q R_value s sf (no_match sf)" by (simp add: outcome_ok_def)
  then show ?thesis
    using q unfolding p_primitive_def qi_ok_def
    by (auto simp: sf_String_def Double_def Integer_def BoolTrue_def BoolFalse_def Null_def assign_ok
        split: option.split intro!: add dest: p_string_Some keyword_Some num intro: less_imp_le)
qed

text \<open>Opening a nested node, filling it and closing it adds one value to the node below.\<close>

lemma begin_nested:
  assumes "top_is containers sf" and "ty \<in> containers"
  shows "begin_node ty sf = Inr (sf\<lparr>sf_stack := JSON_new ty # sf_stack sf\<rparr>)"
  using assms by (auto simp: top_is_def begin_node_def)

lemma begin_nested_top: "ty \<in> containers \<Longrightarrow> top_is {ty} (sf\<lparr>sf_stack := JSON_new ty # rest\<rparr>)"
  by (auto simp: top_is_def)

lemma end_nested:
  assumes "top_is containers sf" and "grown (sf\<lparr>sf_stack := n # sf_stack sf\<rparr>) sf'"
  shows "\<exists>sf''. end_node sf' = Inr sf'' \<and> grown (popped sf) sf''"
proof -
  from assms(2) obtain n' where n': "sf_stack sf' = n' # sf_stack sf" "json_ok n'"
    and names: "sf_names sf' = sf_names sf" by (auto simp: grown_def)
  let ?sf = "sf'\<lparr>sf_stack := sf_stack sf\<rparr>"
  have ne: "sf_stack sf \<noteq> []" using assms(1) by (auto simp: top_is_def)
  have "top_is containers ?sf" using assms(1) by (auto simp: top_is_def names)
  from SetData_grown [OF this n'(2)] obtain sf'' where "SetData n' ?sf = Inr sf''" "grown (popped ?sf) sf''"
    by auto
  moreover from this(2) have "grown (popped sf) sf''" by (auto simp: grown_def popped_def names split: if_splits)
  ultimately show ?thesis using n'(1) ne by (simp add: end_node_def)
qed

text \<open>The step of the induction on the fuel, rule by rule.\<close>

lemma pair_ok:
  assumes ok: "rules_ok q n" and sf: "top_is {JSON_OBJECT} sf" and n: "4 * length s + 1 \<le> Suc n"
  shows "outcome_ok q R_pair s sf (g_pair (run_rule q n) q s sf)"
proof (cases "p_string q s")
  case (Some kr)
  obtain k s1 where kr: "kr = (k, s1)" by (cases kr)
  have s1: "length s1 < length s" "next_in q dquote s" using p_string_Some Some kr by auto
  let ?sf = "sf\<lparr>sf_names := k # sf_names sf\<rparr>"
  show ?thesis
  proof (cases "lit q (CHR '':'') s1")
    case None
    with Some kr s1 show ?thesis by (simp add: g_pair_def ObjectKey_def outcome_ok_def)
  next
    case (Some s2)
    with lit_Some have s2: "length s2 < length s1" by blast
    have "rule_pre R_value ?sf" using sf by (auto simp: rule_pre_def top_is_def)
    from rules_okD [OF ok this, of s2] s1 s2 n
    have "outcome_ok q R_value s2 ?sf (run_rule q n R_value s2 ?sf)" by simp
    then have "outcome_ok q R_pair s sf (run_rule q n R_value s2 ?sf)"
    proof (cases rule: outcome_okE)
      case none
      with s1 show ?thesis by (simp add: outcome_ok_def)
    next
      case (some t sf')
      with sf s1 s2 show ?thesis
        by (auto simp: outcome_ok_def rule_post_def popped_def top_is_def grown_def)
    qed
    with Some \<open>p_string q s = Some kr\<close> kr show ?thesis by (simp add: g_pair_def ObjectKey_def)
  qed
qed (simp add: g_pair_def outcome_ok_def)

lemma nested_ok:
  assumes ok: "rules_ok q n" and sf: "top_is containers sf" and n: "4 * length s + 1 \<le> Suc n"
    and ty: "(r, ty, body, ch) \<in> {(R_object, JSON_OBJECT, R_members, CHR ''{''), (R_array, JSON_ARRAY, R_elements, CHR ''['')}"
    and clo: "clo \<notin> set (starts body) \<and> clo \<noteq> CHR '',''"
  shows "outcome_ok q r s sf
    (case lit q ch s of
        None \<Rightarrow> no_match sf
      | Some s1 \<Rightarrow>
          bindR (begin_node ty sf) (\<lambda>sf.
          bindR (run_rule q n body s1 sf) (\<lambda>(r, sf).
          case lit q clo (case r of Some s2 \<Rightarrow> s2 | None \<Rightarrow> s1) of
            None \<Rightarrow> no_match sf
          | Some s3 \<Rightarrow> act (end_node sf) s3)))"
proof (cases "lit q ch s")
  case (Some s1)
  with lit_Some have s1: "length s1 < length s" "next_in q [ch] s" by blast+
  then have starts: "next_in q (starts r) s" using ty by auto
  let ?sf = "sf\<lparr>sf_stack := JSON_new ty # sf_stack sf\<rparr>"
  have ty': "ty \<in> containers" "r \<in> {R_value, R_object, R_array}" using ty by auto
  have "rule_pre body ?sf" using ty begin_nested_top [OF ty'(1)] by (auto simp: rule_pre_def)
  then have "outcome_ok q body s1 ?sf (run_rule q n body s1 ?sf)"
    by (rule rules_okD [OF ok]) (use ty s1 n in auto)
  then show ?thesis
  proof (cases rule: outcome_okE)
    case (none sf')
    show ?thesis
    proof (cases "lit q clo s1")
      case (Some s3)
      with lit_next none(2) clo have "sf' = ?sf" by fastforce
      then have "grown ?sf sf'" using begin_nested_top [OF ty'(1)] grown_refl by metis
      from outcome_act [OF end_nested [OF sf this]] lit_Some [OF Some] s1 ty'(2)
      have "outcome_ok q r s sf (act (end_node sf') s3)" by force
      with Some none(1) \<open>lit q ch s = Some s1\<close> show ?thesis by (simp add: begin_nested [OF sf ty'(1)])
    qed (use none starts ty'(2) \<open>lit q ch s = Some s1\<close> in \<open>auto simp: begin_nested [OF sf ty'(1)] outcome_ok_def\<close>)
  next
    case (some t sf')
    show ?thesis
    proof (cases "lit q clo t")
      case (Some s3)
      have "\<not> next_in q '','' t" using lit_next [of q "'',''" t clo] clo Some by auto
      then have "grown ?sf sf'" using some(3) ty by (auto simp: rule_post_def)
      from outcome_act [OF end_nested [OF sf this]] lit_Some [OF Some] s1 some(2) ty'(2)
      have "outcome_ok q r s sf (act (end_node sf') s3)" by force
      with Some some(1) \<open>lit q ch s = Some s1\<close> show ?thesis by (simp add: begin_nested [OF sf ty'(1)])
    qed (use some starts ty'(2) \<open>lit q ch s = Some s1\<close> in \<open>auto simp: begin_nested [OF sf ty'(1)] outcome_ok_def\<close>)
  qed
qed (use ty in \<open>auto simp: outcome_ok_def\<close>)

lemma value_rule_ok:
  assumes q: "qi_ok q" and ok: "rules_ok q n" and sf: "top_is containers sf" and n: "4 * length s + 2 \<le> Suc n"
  shows "outcome_ok q R_value s sf (g_value (run_rule q n) q s sf)"
proof -
  have pre: "rule_pre R_object sf" "rule_pre R_array sf" using sf by (simp_all add: rule_pre_def)
  have pos: "0 < n" using n by simp
  from rules_okD [OF ok pre(1), of s] n have "outcome_ok q R_object s sf (run_rule q n R_object s sf)" by simp
  then show ?thesis
  proof (cases rule: outcome_okE)
    case (some t sf')
    then show ?thesis by (simp add: g_value_def outcome_ok_def rule_post_def)
  next
    case (none sf')
    show ?thesis
    proof (cases "next_in q ''{'' s")
      case True
      then have "next_in q ''{['' s" "next_in q ''{[]'' s" by (auto simp: next_in_def)
      moreover have "lit q (CHR ''['') s = None" using lit_next [OF True] by simp
      ultimately show ?thesis using none(1) pos q
        by (simp add: g_value_def array_no_match primitive_no_match outcome_ok_def)
    next
      case False
      with none have obj: "run_rule q n R_object s sf = no_match sf" by simp
      from rules_okD [OF ok pre(2), of s] n have "outcome_ok q R_array s sf (run_rule q n R_array s sf)" by simp
      then show ?thesis
      proof (cases rule: outcome_okE)
        case (some t sf')
        then show ?thesis by (simp add: g_value_def obj outcome_ok_def rule_post_def)
      next
        case (none sf')
        show ?thesis
        proof (cases "next_in q ''['' s")
          case True
          then have "next_in q ''{['' s" "next_in q ''{[]'' s" by (auto simp: next_in_def)
          with none(1) obj q show ?thesis by (simp add: g_value_def primitive_no_match outcome_ok_def)
        next
          case False
          with none obj primitive_ok [OF q sf] show ?thesis by (simp add: g_value_def)
        qed
      qed
    qed
  qed
qed

text \<open>An item of a list, its list and the rest of it.\<close>

definition list_rules :: "(rule \<times> rule \<times> rule \<times> JSONValueType) set" where
  "list_rules =
     {(R_pair, R_members, R_more_members, JSON_OBJECT), (R_value, R_elements, R_more_elements, JSON_ARRAY)}"

lemma item_post:
  "(item, lst, others, ty) \<in> list_rules \<Longrightarrow> top_is {ty} sf \<Longrightarrow> rule_post q item sf t sf' \<Longrightarrow> grown sf sf'"
  by (auto simp: list_rules_def rule_post_def popped_def top_is_def)

lemma item_pre: "(item, lst, others, ty) \<in> list_rules \<Longrightarrow> top_is {ty} sf \<Longrightarrow> rule_pre item sf"
  by (auto simp: list_rules_def rule_pre_def top_is_def)

lemma others_pre: "(item, lst, others, ty) \<in> list_rules \<Longrightarrow> top_is {ty} sf \<Longrightarrow> rule_pre others sf"
  by (auto simp: list_rules_def rule_pre_def)

lemma others_after:
  assumes ok: "rules_ok q n" and rules: "(item, lst, others, ty) \<in> list_rules" and sf: "top_is {ty} sf"
    and item: "rule_post q item sf t sf'" and n: "4 * length t + 1 \<le> n" and t: "length t \<le> length s"
    and r: "r \<in> {lst, others}"
  shows "outcome_ok q r s sf (run_rule q n others t sf')"
proof -
  have g: "grown sf sf'" by (rule item_post [OF rules sf item])
  then have "rule_pre others sf'" by (intro others_pre [OF rules] grown_top [OF _ sf])
  from rules_okD [OF ok this, of t] n rules have "outcome_ok q others t sf' (run_rule q n others t sf')"
    by (auto simp: list_rules_def)
  then show ?thesis
  proof (cases rule: outcome_okE)
    case none
    with rules show ?thesis by (auto simp: list_rules_def)
  next
    case (some t' sf'')
    with rules g r t show ?thesis
      by (auto simp: list_rules_def outcome_ok_def rule_post_def intro: grown_trans)
  qed
qed

lemma list_rule_ok:
  assumes ok: "rules_ok q n" and rules: "(item, lst, others, ty) \<in> list_rules" and sf: "top_is {ty} sf"
    and n: "4 * length s + rule_rank item \<le> n"
  shows "outcome_ok q lst s sf (g_list (run_rule q n item) (run_rule q n others) s sf)"
proof -
  have "outcome_ok q item s sf (run_rule q n item s sf)"
    by (rule rules_okD [OF ok item_pre [OF rules sf] n])
  then show ?thesis
  proof (cases rule: outcome_okE)
    case none
    with rules show ?thesis by (auto simp: g_list_def outcome_ok_def list_rules_def)
  next
    case (some t sf')
    have "4 * length t + 1 \<le> n" using some(2) n rules by (auto simp: list_rules_def)
    from others_after [OF ok rules sf some(3) this some(2)] some(1) show ?thesis
      by (simp add: g_list_def)
  qed
qed

lemma more_rule_ok:
  assumes ok: "rules_ok q n" and rules: "(item, lst, others, ty) \<in> list_rules" and sf: "top_is {ty} sf"
    and n: "4 * length s + 1 \<le> Suc n"
  shows "outcome_ok q others s sf (g_more q (run_rule q n item) (run_rule q n others) s sf)"
proof (cases "lit q (CHR '','') s")
  case None
  with rules grown_refl [OF sf] show ?thesis by (auto simp: g_more_def outcome_ok_def rule_post_def list_rules_def)
next
  case (Some s1)
  with lit_Some have s1: "length s1 < length s" "next_in q '','' s" by blast+
  have "outcome_ok q item s1 sf (run_rule q n item s1 sf)"
    by (rule rules_okD [OF ok item_pre [OF rules sf]]) (use rules s1 n in \<open>auto simp: list_rules_def\<close>)
  then show ?thesis
  proof (cases rule: outcome_okE)
    case none
    with Some rules s1 show ?thesis by (auto simp: g_more_def outcome_ok_def rule_post_def list_rules_def)
  next
    case (some t sf')
    have "4 * length t + 1 \<le> n" "length t \<le> length s" using some(2) n s1 by simp_all
    from others_after [OF ok rules sf some(3) this] some(1) Some show ?thesis
      by (simp add: g_more_def)
  qed
qed

lemma rules_ok: "qi_ok q \<Longrightarrow> rules_ok q n"
proof (induction n)
  case 0
  have "0 < rule_rank r" for r by (cases r) simp_all
  then show ?case by (auto simp: rules_ok_def) (metis less_irrefl)
next
  case (Suc n)
  note ok = Suc.IH [OF Suc.prems]
  have "outcome_ok q r s sf (run_rule q (Suc n) r s sf)"
    if pre: "rule_pre r sf" and n: "4 * length s + rule_rank r \<le> Suc n" for r s sf
  proof (cases r)
    case R_value
    then show ?thesis using value_rule_ok [OF Suc.prems ok] pre n by (simp add: rule_pre_def)
  next
    case R_object
    have "outcome_ok q R_object s sf (g_object (run_rule q n) q s sf)"
      unfolding g_object_def BeginObject_def EndObject_def
      by (rule nested_ok [OF ok]) (use R_object pre n in \<open>simp_all add: rule_pre_def\<close>)
    with R_object show ?thesis by simp
  next
    case R_array
    have "outcome_ok q R_array s sf (g_array (run_rule q n) q s sf)"
      unfolding g_array_def BeginArray_def EndArray_def
      by (rule nested_ok [OF ok]) (use R_array pre n in \<open>simp_all add: rule_pre_def\<close>)
    with R_array show ?thesis by simp
  next
    case R_pair
    then show ?thesis using pair_ok [OF ok] pre n by (simp add: rule_pre_def)
  next
    case R_members
    then show ?thesis using list_rule_ok [OF ok, of R_pair R_members] pre n
      by (simp add: rule_pre_def list_rules_def)
  next
    case R_more_members
    then show ?thesis using more_rule_ok [OF ok, of R_pair R_members] pre n
      by (simp add: rule_pre_def list_rules_def)
  next
    case R_elements
    then show ?thesis using list_rule_ok [OF ok, of R_value R_elements] pre n
      by (simp add: rule_pre_def list_rules_def)
  next
    case R_more_elements
    then show ?thesis using more_rule_ok [OF ok, of R_value R_elements] pre n
      by (simp add: rule_pre_def list_rules_def)
  qed
  then show ?case by (simp add: rules_ok_def)
qed

text \<open>The outermost node: the rules start it in place and take it from the stack at its end.\<close>

lemma root_ok:
  assumes ok: "rules_ok q n" and n: "4 * length s + 1 \<le> Suc n"
    and ty: "(ty, body, ch) \<in> {(JSON_OBJECT, R_members, CHR ''{''), (JSON_ARRAY, R_elements, CHR ''['')}"
    and clo: "clo \<notin> set (starts body) \<and> clo \<noteq> CHR '',''" and s1: "lit q ch s = Some s1"
  shows "\<exists>r sf. bindR (begin_node ty (SemanticFunctions_new j_null)) (\<lambda>sf.
          bindR (run_rule q n body s1 sf) (\<lambda>(r, sf).
          case lit q clo (case r of Some s2 \<Rightarrow> s2 | None \<Rightarrow> s1) of
            None \<Rightarrow> no_match sf
          | Some s3 \<Rightarrow> act (end_node sf) s3)) = Inr (r, sf)
      \<and> (r \<noteq> None \<longrightarrow> json_ok (sf_root sf) \<and> j_type (sf_root sf) = ty)"
proof -
  let ?sf = "\<lparr>sf_stack = [JSON_new ty], sf_names = [], sf_root = j_null\<rparr>"
  have start: "begin_node ty (SemanticFunctions_new j_null) = Inr ?sf"
    by (simp add: begin_node_def SemanticFunctions_new_def)
  have top: "top_is {ty} ?sf" using ty by (auto simp: top_is_def)
  have close: "\<exists>r sf. act (end_node sf') s3 = Inr (r, sf)
      \<and> ((\<exists>t. r = Some t) \<longrightarrow> json_ok (sf_root sf) \<and> j_type (sf_root sf) = ty)"
    if "grown ?sf sf'" for sf' s3
    using that by (auto simp: grown_def end_node_def act_def)
  have "rule_pre body ?sf" using ty top by (auto simp: rule_pre_def)
  then have "outcome_ok q body s1 ?sf (run_rule q n body s1 ?sf)"
    by (rule rules_okD [OF ok]) (use ty n lit_Some [OF s1] in auto)
  then show ?thesis
  proof (cases rule: outcome_okE)
    case (none sf')
    have "sf' = ?sf" if "lit q clo s1 = Some s3" for s3
      using lit_next [of q "starts body" s1 clo] none(2) clo that by auto
    then have "grown ?sf sf'" if "lit q clo s1 = Some s3" for s3
      using that grown_refl [OF top] by blast
    then show ?thesis using none(1) close by (cases "lit q clo s1") (auto simp: start)
  next
    case (some t sf')
    have "grown ?sf sf'" if "lit q clo t = Some s3" for s3
      using lit_next [of q "'',''" t clo] some(3) clo that ty by (auto simp: rule_post_def)
    then show ?thesis using some(1) close by (cases "lit q clo t") (auto simp: start)
  qed
qed

lemma FromString_cases:
  assumes "qi_ok q"
  shows "FromString q s = Inl (Exception ''Failed to parse JSON'')
    \<or> (\<exists>j. FromString q s = Inr j \<and> json_ok j \<and> j_type j \<in> {JSON_OBJECT, JSON_ARRAY})"
proof -
  let ?n = "4 * length s + 3"
  let ?sf = "SemanticFunctions_new j_null"
  have fuel: "run_rule q (parse_fuel_for s) = g_rule q (run_rule q ?n)"
    by (simp add: parse_fuel_for_def eval_nat_numeral)
  note root = root_ok [OF rules_ok [OF assms], of s ?n]
  consider s1 where "lit q (CHR ''{'') s = Some s1" | s1 where "lit q (CHR ''{'') s = None" "lit q (CHR ''['') s = Some s1"
    | "lit q (CHR ''{'') s = None" "lit q (CHR ''['') s = None" by fastforce
  then show ?thesis
  proof cases
    case (1 s1)
    then have "lit q (CHR ''['') s = None" using lit_next [of q "''{''" s] lit_Some by auto
    moreover obtain r sf where "g_object (run_rule q ?n) q s ?sf = Inr (r, sf)
        \<and> (r \<noteq> None \<longrightarrow> json_ok (sf_root sf) \<and> j_type (sf_root sf) = JSON_OBJECT)"
      using root [of JSON_OBJECT R_members "CHR ''{''" "CHR ''}''" s1] 1
      unfolding g_object_def BeginObject_def EndObject_def by auto
    ultimately show ?thesis
      by (cases r) (auto simp: FromString_def Parse_def fuel g_array_def split: option.split)
  next
    case (2 s1)
    obtain r sf where "g_array (run_rule q ?n) q s ?sf = Inr (r, sf)
        \<and> (r \<noteq> None \<longrightarrow> json_ok (sf_root sf) \<and> j_type (sf_root sf) = JSON_ARRAY)"
      using root [of JSON_ARRAY R_elements "CHR ''[''" "CHR '']''" s1] 2
      unfolding g_array_def BeginArray_def EndArray_def by auto
    with 2(1) show ?thesis
      by (cases r) (auto simp: FromString_def Parse_def fuel g_object_def split: option.split)
  qed (simp add: FromString_def Parse_def fuel g_object_def g_array_def)
qed

section \<open>Properties\<close>

text \<open>
  C32. Reading any text whatsoever ends, either with a well-formed object or array or with the
  exception that the caller expects; the semantic functions never take a node or a name from an
  empty stack and never throw the string that nothing catches, whatever a miner sends. Spirit's
  number tokens are only assumed to be at most the text they are matched against and not to
  begin with an opening brace or a bracket.
\<close>

theorem FromString_safe:
  assumes "qi_ok q"
  shows "FromString q s = Inl (Exception ''Failed to parse JSON'')
    \<or> (\<exists>j. FromString q s = Inr j \<and> json_ok j \<and> j_type j \<in> {JSON_OBJECT, JSON_ARRAY})"
  using assms by (rule FromString_cases)

end
