(* ===== verification/Json_Round_Trip.thy ===== *)
theory Json_Round_Trip
  imports Json_Reader
begin

text \<open>
  The reader undoes the writer: \<open>FromString (ToString j) = j\<close> for the documents whose text carries all
  that is in them. What is needed of Spirit's tokens is collected in \<open>qi_laws\<close>; \<open>sample_qi\<close> is an
  instance of them.
\<close>

section \<open>Documents that their text determines\<close>

text \<open>
  No double (a stream prints six digits), no leftovers of another type in a node, no quotation mark in
  a key, and no quotation mark or apostrophe, which the writer escapes and the reader does not
  unescape, in a string.
\<close>

fun plain :: "JSON \<Rightarrow> bool" where
  "plain (Node ty vs m ord v) \<longleftrightarrow>
     (case ty of
        JSON_OBJECT \<Rightarrow> vs = [] \<and> v = VBool False \<and> ord = map fst m \<and> distinct (map fst m)
          \<and> list_all (\<lambda>p. CHR 0x22 \<notin> set (fst p) \<and> plain (snd p)) m
      | JSON_ARRAY \<Rightarrow> m = [] \<and> ord = [] \<and> v = VBool False \<and> list_all plain vs
      | JSON_DOUBLE \<Rightarrow> False
      | JSON_NULL \<Rightarrow> vs = [] \<and> m = [] \<and> ord = [] \<and> v = VBool False
      | JSON_STRING \<Rightarrow> vs = [] \<and> m = [] \<and> ord = [] \<and>
          (case v of VString s \<Rightarrow> set s \<inter> {CHR 0x22, CHR 0x27} = {} | _ \<Rightarrow> False)
      | _ \<Rightarrow> vs = [] \<and> m = [] \<and> ord = [] \<and> tagged ty v)"

definition ends_value :: "string \<Rightarrow> bool" where
  "ends_value rest \<longleftrightarrow> rest \<noteq> [] \<and> hd rest \<in> set '',}]''"

text \<open>
  White space is not part of a token and a blank is white space; \<^verbatim>\<open>long_long\<close> reads back what a stream
  prints of an integer, up to the character after it; \<^verbatim>\<open>strict_double\<close> does not match without a decimal
  point; neither matches a keyword.
\<close>

definition qi_laws :: "qi \<Rightarrow> bool" where
  "qi_laws q \<longleftrightarrow>
     qi_ok q \<and> qi_space q (CHR '' '')
     \<and> (\<forall>c \<in> set ''{}[]:,tfn-0123456789''. \<not> qi_space q c) \<and> \<not> qi_space q (CHR 0x22)
     \<and> (\<forall>x rest. ends_value rest \<longrightarrow> qi_long_long q (show_int64 x @ rest) = Some (x, rest)
          \<and> qi_strict_double q (show_int64 x @ rest) = None)
     \<and> (\<forall>w \<in> {''true'', ''false'', ''null''}. \<forall>rest.
          qi_long_long q (w @ rest) = None \<and> qi_strict_double q (w @ rest) = None)"

section \<open>Tokens of the written text\<close>

lemma skip_blank: "qi_laws q \<Longrightarrow> set sp \<subseteq> {CHR '' ''} \<Longrightarrow> skip q (sp @ s) = skip q s"
  by (induction sp) (auto simp: skip_def qi_laws_def)

lemma lit_here: "\<not> qi_space q c \<Longrightarrow> lit q d (c # s) = (if c = d then Some s else None)"
  by (simp add: lit_def skip_def)

lemma lit_blank: "qi_laws q \<Longrightarrow> set sp \<subseteq> {CHR '' ''} \<Longrightarrow> lit q c (sp @ s) = lit q c s"
  by (simp add: lit_def skip_blank)

lemma p_string_blank: "qi_laws q \<Longrightarrow> set sp \<subseteq> {CHR '' ''} \<Longrightarrow> p_string q (sp @ s) = p_string q s"
  by (simp add: p_string_def lit_blank)

lemma keyword_blank: "qi_laws q \<Longrightarrow> set sp \<subseteq> {CHR '' ''} \<Longrightarrow> keyword q w (sp @ s) = keyword q w s"
  by (simp add: keyword_def skip_blank)

lemma not_space:
  assumes "qi_laws q"
  shows "\<not> qi_space q (CHR ''{'')" "\<not> qi_space q (CHR ''}'')" "\<not> qi_space q (CHR ''['')"
    "\<not> qi_space q (CHR '']'')" "\<not> qi_space q (CHR '':'')" "\<not> qi_space q (CHR '','')"
    "\<not> qi_space q (CHR ''t'')" "\<not> qi_space q (CHR ''f'')" "\<not> qi_space q (CHR ''n'')" "\<not> qi_space q (CHR 0x22)"
  using assms by (simp_all add: qi_laws_def)

lemma takeWhile_quote: "CHR 0x22 \<notin> set k \<Longrightarrow> takeWhile (\<lambda>c. c \<noteq> CHR 0x22) (k @ CHR 0x22 # s) = k"
  by (induction k) auto

lemma dropWhile_quote: "CHR 0x22 \<notin> set k \<Longrightarrow> dropWhile (\<lambda>c. c \<noteq> CHR 0x22) (k @ CHR 0x22 # s) = CHR 0x22 # s"
  by (induction k) auto

lemma p_string_quoted:
  "qi_laws q \<Longrightarrow> CHR 0x22 \<notin> set k \<Longrightarrow> p_string q (CHR 0x22 # k @ CHR 0x22 # s) = Some (k, s)"
  by (simp add: p_string_def lit_here not_space takeWhile_quote dropWhile_quote)

lemma EscapeString_plain: "set s \<inter> {CHR 0x22, CHR 0x27} = {} \<Longrightarrow> EscapeString s = s"
  unfolding EscapeString_eq by (induction s) (auto simp: escapes_def)

lemma show_int64_head: "show_int64 x \<noteq> [] \<and> hd (show_int64 x) \<in> set ''-0123456789''"
proof -
  have dec: "show_dec n \<noteq> [] \<and> hd (show_dec n) \<in> set ''0123456789''" for n
  proof (induction n rule: show_dec.induct)
    case (1 n)
    have "d < 10 \<Longrightarrow> ''0123456789'' ! d \<in> set ''0123456789''" for d :: nat by (rule nth_mem) simp
    then show ?case using 1 by (subst (1 2) show_dec.simps) auto
  qed
  then show ?thesis using dec [of "nat (sint x)"] by (simp add: show_int64_def)
qed

section \<open>Lists\<close>

text \<open>
  A list whose items have the texts \<open>fst\<close> and, read one at a time, the effects \<open>snd\<close>; \<open>P\<close> is what the
  state of the semantic functions has to satisfy between them.
\<close>

definition reads_item ::
  "qi \<Rightarrow> rule \<Rightarrow> (SemanticFunctions \<Rightarrow> bool) \<Rightarrow> string \<Rightarrow> (SemanticFunctions \<Rightarrow> SemanticFunctions) \<Rightarrow> bool" where
  "reads_item q r P t e \<longleftrightarrow>
     (\<forall>sp rest sf n. set sp \<subseteq> {CHR '' ''} \<longrightarrow> ends_value rest \<longrightarrow> P sf
        \<longrightarrow> 4 * length (sp @ t @ rest) + rule_rank r \<le> n
        \<longrightarrow> run_rule q n r (sp @ t @ rest) sf = Inr (Some rest, e sf) \<and> P (e sf))"

lemma reads_itemD:
  "reads_item q r P t e \<Longrightarrow> set sp \<subseteq> {CHR '' ''} \<Longrightarrow> ends_value rest \<Longrightarrow> P sf
   \<Longrightarrow> 4 * length (sp @ t @ rest) + rule_rank r \<le> n
   \<Longrightarrow> run_rule q n r (sp @ t @ rest) sf = Inr (Some rest, e sf) \<and> P (e sf)"
  by (simp only: reads_item_def)

lemma join_concat: "join_with sep (t # ts) = t @ concat (map (\<lambda>t. sep @ t) ts)"
  by (induction ts arbitrary: t) auto

lemma more_items:
  assumes q: "qi_laws q" and sp: "set sp \<subseteq> {CHR '' ''}"
    and rules: "(item, lst, others, ty) \<in> list_rules"
    and "\<And>t e. (t, e) \<in> set xs \<Longrightarrow> reads_item q item P t e" and "P sf"
    and close: "ends_value rest" "lit q (CHR '','') rest = None"
    and "4 * length (concat (map (\<lambda>x. '','' @ sp @ fst x) xs) @ rest) + 1 \<le> n"
  shows "run_rule q n others (concat (map (\<lambda>x. '','' @ sp @ fst x) xs) @ rest) sf
    = Inr (Some rest, fold snd xs sf)"
  using assms(4,5,8)
proof (induction xs arbitrary: sf n)
  case Nil
  obtain n' where n: "n = Suc n'" using Nil(3) by (cases n) auto
  show ?case using rules close(2) by (auto simp: n list_rules_def g_more_def)
next
  case (Cons x xs)
  obtain t e where x: "x = (t, e)" by (cases x)
  obtain n' where n: "n = Suc n'" using Cons(4) by (cases n) auto
  let ?more = "concat (map (\<lambda>x. '','' @ sp @ fst x) xs) @ rest"
  have ends: "ends_value ?more" using close(1) by (cases xs) (auto simp: ends_value_def)
  have "reads_item q item P t e" using Cons(2) x by simp
  moreover have "4 * length (sp @ t @ ?more) + rule_rank item \<le> n'"
    using Cons(4) rules by (auto simp: n x list_rules_def)
  ultimately have item: "run_rule q n' item (sp @ t @ ?more) sf = Inr (Some ?more, e sf)" and "P (e sf)"
    using ends sp Cons(3) by (auto simp: reads_item_def)
  have "run_rule q n' others ?more (e sf) = Inr (Some rest, fold snd xs (e sf))"
    by (rule Cons.IH) (use Cons(2,4) \<open>P (e sf)\<close> in \<open>auto simp: n x\<close>)
  with item show ?case
    using rules by (auto simp: n x list_rules_def g_more_def lit_here not_space [OF q])
qed

lemma list_items:
  assumes q: "qi_laws q" and sp: "set sp \<subseteq> {CHR '' ''}"
    and rules: "(item, lst, others, ty) \<in> list_rules"
    and items: "\<And>t e. (t, e) \<in> set xs \<Longrightarrow> reads_item q item P t e" and sf: "P sf"
    and close: "ends_value rest" "lit q (CHR '','') rest = None" and ne: "xs \<noteq> []"
    and n: "4 * length (join_with ('','' @ sp) (map fst xs) @ rest) + rule_rank lst \<le> n"
  shows "run_rule q n lst (join_with ('','' @ sp) (map fst xs) @ rest) sf = Inr (Some rest, fold snd xs sf)"
proof -
  obtain t e ys where xs: "xs = (t, e) # ys" using ne by (cases xs) auto
  obtain n' where n': "n = Suc n'" using n rules by (cases n) (auto simp: list_rules_def)
  let ?more = "concat (map (\<lambda>x. '','' @ sp @ fst x) ys) @ rest"
  have txt_eq: "join_with ('','' @ sp) (map fst xs) @ rest = t @ ?more"
    by (simp add: xs join_concat comp_def del: join_with.simps)
  note n_more = n [unfolded txt_eq n']
  have ends: "ends_value ?more" using close(1) by (cases ys) (auto simp: ends_value_def)
  have "reads_item q item P t e" using items xs by simp
  then have item: "run_rule q n' item (t @ ?more) sf = Inr (Some ?more, e sf)" and "P (e sf)"
    using reads_itemD [of q item P t e "[]" ?more sf n'] ends sf n rules unfolding txt_eq
    by (auto simp: n' list_rules_def)
  have "run_rule q n' others ?more (e sf) = Inr (Some rest, fold snd ys (e sf))"
    by (rule more_items [OF q sp rules, where P = P])
      (use items n_more rules close \<open>P (e sf)\<close> in \<open>auto simp: xs list_rules_def\<close>)
  with item show ?thesis
    using rules unfolding txt_eq by (auto simp: n' xs list_rules_def g_list_def)
qed

section \<open>Values\<close>

definition reads_value :: "qi \<Rightarrow> JSON \<Rightarrow> string \<Rightarrow> bool" where
  "reads_value q j w \<longleftrightarrow>
     (\<forall>sp rest sf n. set sp \<subseteq> {CHR '' ''} \<longrightarrow> ends_value rest
        \<longrightarrow> sf_stack sf \<noteq> [] \<and> j_type (hd (sf_stack sf)) \<noteq> JSON_NULL
        \<longrightarrow> 4 * length (sp @ w @ rest) + 2 \<le> n
        \<longrightarrow> run_rule q n R_value (sp @ w @ rest) sf = act (SetData j sf) rest)"

abbreviation top_type :: "JSONValueType \<Rightarrow> SemanticFunctions \<Rightarrow> bool" where
  "top_type ty sf \<equiv> sf_stack sf \<noteq> [] \<and> j_type (hd (sf_stack sf)) = ty"

definition grow :: "(JSON \<Rightarrow> JSON) \<Rightarrow> SemanticFunctions \<Rightarrow> SemanticFunctions" where
  "grow f sf = sf\<lparr>sf_stack := f (hd (sf_stack sf)) # tl (sf_stack sf)\<rparr>"

lemma reads_element:
  assumes "reads_value q j w"
  shows "reads_item q R_value (top_type JSON_ARRAY) w (grow (push_vec j))"
proof -
  have "SetData j sf = Inr (grow (push_vec j) sf)" if "top_type JSON_ARRAY sf" for sf
    using that by (cases "sf_stack sf") (auto simp: SetData_def Add_def grow_def)
  moreover have "top_type JSON_ARRAY (grow (push_vec j) sf)" if "top_type JSON_ARRAY sf" for sf
    using that by (simp add: grow_def)
  ultimately show ?thesis using assms by (simp add: reads_item_def reads_value_def act_def)
qed

lemma reads_pair:
  assumes q: "qi_laws q" and "reads_value q j w" and k: "CHR 0x22 \<notin> set k"
  shows "reads_item q R_pair (top_type JSON_OBJECT) (dquote @ k @ dquote @ '':'' @ w) (grow (store_key k j))"
proof -
  have "run_rule q n R_pair (sp @ (dquote @ k @ dquote @ '':'' @ w) @ rest) sf = Inr (Some rest, grow (store_key k j) sf)"
    if sp: "set sp \<subseteq> {CHR '' ''}" and rest: "ends_value rest" and sf: "top_type JSON_OBJECT sf"
      and n: "4 * length (sp @ (dquote @ k @ dquote @ '':'' @ w) @ rest) + 1 \<le> n" for sp rest sf n
  proof -
    obtain n' where n': "n = Suc n'" using n by (cases n) auto
    let ?sf = "sf\<lparr>sf_names := k # sf_names sf\<rparr>"
    have "run_rule q n' R_value ([] @ w @ rest) ?sf = act (SetData j ?sf) rest"
      using assms(2) rest sf n unfolding reads_value_def n' by (auto simp del: append_Nil)
    moreover have "SetData j ?sf = Inr (grow (store_key k j) sf)"
      using sf by (cases sf; cases "sf_stack sf") (auto simp: SetData_def json_Set_def grow_def)
    ultimately show ?thesis
      by (simp add: n' g_pair_def p_string_blank [OF q sp] p_string_quoted [OF q k] ObjectKey_def
          lit_here not_space [OF q] act_def)
  qed
  then show ?thesis by (simp add: reads_item_def grow_def)
qed

lemma value_primitive:
  assumes "lit q (CHR ''{'') s = None" "lit q (CHR ''['') s = None" "2 \<le> n"
  shows "run_rule q n R_value s sf = p_primitive q s sf"
proof -
  obtain n' where "n = Suc (Suc n')" using assms(3) by (metis add_2_eq_Suc le_Suc_ex)
  with assms show ?thesis by (simp add: g_value_def g_object_def g_array_def)
qed

lemma reads_primitive:
  assumes q: "qi_laws q" and w: "w \<noteq> []" "\<not> qi_space q (hd w)" "hd w \<notin> set ''{[''"
    and p: "\<And>sf rest. ends_value rest \<Longrightarrow> p_primitive q (w @ rest) sf = act (SetData j sf) rest"
  shows "reads_value q j w"
proof -
  obtain c w' where w': "w = c # w'" using w by (cases w) auto
  have "p_primitive q (sp @ s) sf = p_primitive q s sf" if "set sp \<subseteq> {CHR '' ''}" for sp s sf
    unfolding p_primitive_def skip_blank [OF q that] p_string_blank [OF q that] keyword_blank [OF q that] ..
  moreover have "lit q d (sp @ w @ rest) = None" if "set sp \<subseteq> {CHR '' ''}" "d \<in> set ''{[''" for d sp rest
    using w that by (auto simp: lit_blank [OF q that(1)] w' lit_here)
  ultimately show ?thesis using p by (simp add: reads_value_def value_primitive)
qed

text \<open>
  The text of an object or array, read where a value is expected; \<open>xs\<close> are the texts and effects of its
  members or elements.
\<close>

lemma nested_text:
  assumes q: "qi_laws q" and sp: "set sp \<subseteq> {CHR '' ''}"
    and rules: "(item, lst, others, ty) \<in> list_rules"
    and items: "\<And>t e. (t, e) \<in> set xs \<Longrightarrow> reads_item q item (top_type ty) t e"
    and clo: "(ty, clo) \<in> {(JSON_OBJECT, CHR ''}''), (JSON_ARRAY, CHR '']'')}" and sf: "top_type ty sf"
    and n: "4 * length (join_with ('','' @ sp) (map fst xs) @ [clo] @ rest) + rule_rank lst \<le> n"
  shows "\<exists>r. run_rule q n lst (join_with ('','' @ sp) (map fst xs) @ [clo] @ rest) sf = Inr (r, fold snd xs sf)
    \<and> lit q clo (case r of Some s2 \<Rightarrow> s2 | None \<Rightarrow> join_with ('','' @ sp) (map fst xs) @ [clo] @ rest) = Some rest"
proof (cases "xs = []")
  case False
  have "run_rule q n lst (join_with ('','' @ sp) (map fst xs) @ [clo] @ rest) sf
      = Inr (Some ([clo] @ rest), fold snd xs sf)"
    by (rule list_items [OF q sp rules, where P = "top_type ty"])
      (use items sf False n clo in \<open>auto simp: ends_value_def lit_here not_space [OF q]\<close>)
  then show ?thesis using clo by (auto simp: lit_here not_space [OF q])
next
  case True
  have "2 \<le> n" using n rules by (auto simp: list_rules_def True)
  then obtain n' where n': "n = Suc (Suc n')" by (metis add_2_eq_Suc le_Suc_ex)
  have "p_primitive q (CHR '']'' # rest) sf = no_match sf"
    using q not_space(4) [OF q] by (intro primitive_no_match) (auto simp: qi_laws_def next_in_def skip_def)
  then have "g_value (run_rule q n') q (CHR '']'' # rest) sf = no_match sf" if "2 \<le> Suc n'"
    using that value_primitive [of q "CHR '']'' # rest" "Suc n'" sf] by (simp add: lit_here not_space [OF q])
  then have "run_rule q n lst (clo # rest) sf = no_match sf"
    using clo n rules
    by (auto simp: n' True list_rules_def g_list_def g_pair_def p_string_def lit_here not_space [OF q])
  then show ?thesis using clo by (intro exI [of _ None]) (auto simp: True lit_here not_space [OF q])
qed

lemma fold_grow: "sf_stack sf \<noteq> [] \<Longrightarrow> fold (\<lambda>x. grow (f x)) xs sf = grow (fold f xs) sf"
  by (induction xs arbitrary: sf) (auto simp: grow_def)

lemma act_match:
  "bindR (act r t) (\<lambda>(r, sf). case r of Some r \<Rightarrow> Inr (Some r, sf) | None \<Rightarrow> f sf) = act r t"
  by (cases r) (simp_all add: act_def)

lemma reads_nested:
  assumes q: "qi_laws q" and sp: "set sp \<subseteq> {CHR '' ''}"
    and rules: "(item, lst, others, ty) \<in> list_rules"
    and items: "\<And>t f. (t, f) \<in> set xs \<Longrightarrow> reads_item q item (top_type ty) t (grow f)"
    and ops: "(ty, op, clo) \<in> {(JSON_OBJECT, CHR ''{'', CHR ''}''), (JSON_ARRAY, CHR ''['', CHR '']'')}"
  shows "reads_value q (fold snd xs (JSON_new ty)) ([op] @ join_with ('','' @ sp) (map fst xs) @ [clo])"
  unfolding reads_value_def
proof (intro allI impI)
  fix bl rest n and sf :: SemanticFunctions
  assume bl: "set bl \<subseteq> {CHR '' ''}" and sf: "sf_stack sf \<noteq> [] \<and> j_type (hd (sf_stack sf)) \<noteq> JSON_NULL"
    and n: "4 * length (bl @ ([op] @ join_with ('','' @ sp) (map fst xs) @ [clo]) @ rest) + 2 \<le> n"
  define body where "body = join_with ('','' @ sp) (map fst xs) @ [clo] @ rest"
  have shape: "bl @ ([op] @ join_with ('','' @ sp) (map fst xs) @ [clo]) @ rest = bl @ op # body"
    by (simp add: body_def)
  let ?sf = "sf\<lparr>sf_stack := JSON_new ty # sf_stack sf\<rparr>"
  have lit: "lit q d (bl @ op # body) = (if d = op then Some body else None)" for d
    using ops not_space [OF q] by (auto simp: lit_blank [OF q bl] lit_here)
  obtain n' where n': "n = Suc (Suc n')" using n by (metis add_2_eq_Suc' add_leD2 le_Suc_ex add_2_eq_Suc)
  let ?ys = "map (\<lambda>x. (fst x, grow (snd x))) xs"
  have texts: "map fst ?ys = map fst xs" by simp
  have effect: "fold snd ?ys ?sf = grow (fold snd xs) ?sf"
    using fold_grow [of ?sf snd xs] by (simp add: fold_map comp_def)
  have "4 * length body + rule_rank lst \<le> n'" using n [unfolded shape] rules by (auto simp: n' list_rules_def)
  then have "\<exists>r. run_rule q n' lst body ?sf = Inr (r, fold snd ?ys ?sf)
      \<and> lit q clo (case r of Some s2 \<Rightarrow> s2 | None \<Rightarrow> body) = Some rest"
    unfolding body_def texts [symmetric]
    by (intro nested_text [OF q sp rules]) (use items ops in auto)
  then obtain r where r: "run_rule q n' lst body ?sf = Inr (r, grow (fold snd xs) ?sf)"
      "lit q clo (case r of Some s2 \<Rightarrow> s2 | None \<Rightarrow> body) = Some rest"
    unfolding effect by blast
  have closed: "end_node (grow (fold snd xs) ?sf) = SetData (fold snd xs (JSON_new ty)) sf"
    using sf by (simp add: grow_def end_node_def)
  have opened: "begin_node ty sf = Inr ?sf" using sf by (cases "sf_stack sf") (auto simp: begin_node_def)
  show "run_rule q n R_value (bl @ ([op] @ join_with ('','' @ sp) (map fst xs) @ [clo]) @ rest) sf
      = act (SetData (fold snd xs (JSON_new ty)) sf) rest"
  proof (cases "ty = JSON_OBJECT")
    case True
    then have eqs: "ty = JSON_OBJECT" "op = CHR ''{''" "clo = CHR ''}''" "lst = R_members"
      using ops rules by (auto simp: list_rules_def)
    have "run_rule q (Suc n') R_object (bl @ op # body) sf = act (SetData (fold snd xs (JSON_new ty)) sf) rest"
      using r lit opened closed unfolding eqs
      by (simp add: g_object_def BeginObject_def EndObject_def)
    then show ?thesis unfolding shape by (simp add: n' g_value_def act_match del: run_rule.simps(2) add: run_rule.simps(2) [of q "Suc n'"])
  next
    case False
    then have eqs: "ty = JSON_ARRAY" "op = CHR ''[''" "clo = CHR '']''" "lst = R_elements"
      using ops rules by (auto simp: list_rules_def)
    have "run_rule q (Suc n') R_array (bl @ op # body) sf = act (SetData (fold snd xs (JSON_new ty)) sf) rest"
      "run_rule q (Suc n') R_object (bl @ op # body) sf = no_match sf"
      using r lit opened closed unfolding eqs
      by (simp_all add: g_array_def g_object_def BeginArray_def EndArray_def)
    then show ?thesis unfolding shape by (simp add: n' g_value_def act_match del: run_rule.simps(2) add: run_rule.simps(2) [of q "Suc n'"])
  qed
qed

section \<open>Documents\<close>

lemma mapR_Inr: "mapR f xs = Inr ys \<longleftrightarrow> list_all2 (\<lambda>x y. f x = Inr y) xs ys"
proof (induction xs arbitrary: ys)
  case (Cons x xs)
  then show ?case by (cases ys) (auto simp: bindR_eq_Inr_iff)
qed auto

lemma reads_number:
  assumes q: "qi_laws q" and v: "v = VInt x"
  shows "reads_value q (Node JSON_INTEGER [] [] [] v) (show_int64 x)"
proof (rule reads_primitive [OF q])
  obtain c s where cs: "show_int64 x = c # s" "c \<in> set ''-0123456789''"
    using show_int64_head [of x] by (cases "show_int64 x") auto
  then have sp: "\<not> qi_space q c" using q by (auto simp: qi_laws_def)
  show "show_int64 x \<noteq> []" "\<not> qi_space q (hd (show_int64 x))" "hd (show_int64 x) \<notin> set ''{[''"
    using cs sp by auto
  fix rest and sf :: SemanticFunctions
  assume "ends_value rest"
  moreover have "c \<noteq> CHR 0x22" using cs(2) by auto
  then have "p_string q (show_int64 x @ rest) = None" using sp by (simp add: cs p_string_def lit_here)
  moreover have "skip q (show_int64 x @ rest) = show_int64 x @ rest" using sp by (simp add: skip_def cs)
  ultimately show "p_primitive q (show_int64 x @ rest) sf = act (SetData (Node JSON_INTEGER [] [] [] v) sf) rest"
    using q v by (simp add: p_primitive_def qi_laws_def Integer_def j_int_def assign_int_def JSON_new_def)
qed

lemma reads_keyword:
  assumes q: "qi_laws q"
  shows "reads_value q j_null ''null''" "reads_value q (j_bool True) ''true''" "reads_value q (j_bool False) ''false''"
proof -
  have here: "skip q (w @ rest) = w @ rest" if "w \<in> {''true'', ''false'', ''null''}" for w rest
    using that by (auto simp: skip_def not_space [OF q])
  have no: "p_string q (w @ rest) = None" "qi_strict_double q (w @ rest) = None" "qi_long_long q (w @ rest) = None"
    if "w \<in> {''true'', ''false'', ''null''}" for w rest
    using that q by (auto simp: p_string_def lit_here not_space [OF q]) (auto simp: qi_laws_def)
  note w = here [of "''null''"] here [of "''true''"] here [of "''false''"]
  note n = no [of "''null''"] no [of "''true''"] no [of "''false''"]
  show "reads_value q j_null ''null''" "reads_value q (j_bool True) ''true''" "reads_value q (j_bool False) ''false''"
    by (rule reads_primitive [OF q];
        use w n in \<open>simp add: not_space [OF q] p_primitive_def keyword_def Null_def BoolTrue_def BoolFalse_def\<close>)+
qed

lemma reads_quoted:
  assumes q: "qi_laws q" and s: "set s \<inter> {CHR 0x22, CHR 0x27} = {}"
  shows "reads_value q (j_string s) (dquote @ EscapeString s @ dquote)"
  by (rule reads_primitive [OF q])
    (use s in \<open>auto simp: not_space [OF q] EscapeString_plain p_primitive_def p_string_quoted [OF q] sf_String_def\<close>)

lemma update_new: "k \<notin> fst ` set m \<Longrightarrow> AList.update k x m = m @ [(k, x)]"
  by (induction m) auto

lemma fold_store_key:
  assumes "distinct (map fst m)"
  shows "fold (\<lambda>(k, x). store_key k x) m (JSON_new JSON_OBJECT) = Node JSON_OBJECT [] m (map fst m) (VBool False)"
proof -
  have "distinct (map fst (m0 @ m)) \<Longrightarrow> fold (\<lambda>(k, x). store_key k x) m (Node ty vs m0 (map fst m0) v)
      = Node ty vs (m0 @ m) (map fst (m0 @ m)) v" for ty vs m0 v
  proof (induction m arbitrary: m0)
    case (Cons p m)
    obtain k x where p: "p = (k, x)" by (cases p)
    have "k \<notin> fst ` set m0" using Cons.prems by (auto simp: p)
    with Cons.IH [of "m0 @ [(k, x)]"] Cons.prems show ?case by (simp add: p update_new)
  qed simp
  from this [of "[]"] assms show ?thesis by (simp add: JSON_new_def)
qed

lemma j_object_eq:
  "distinct (map fst kvs) \<Longrightarrow> j_object kvs = Node JSON_OBJECT [] kvs (map fst kvs) (VBool False)"
  using fold_store_key [of kvs] by (simp add: j_object_def store_all_def)

text \<open>Documents built by hand are of this kind when their strings are.\<close>

lemma plain_simps [simp]:
  "distinct (map fst kvs) \<Longrightarrow>
     plain (j_object kvs) \<longleftrightarrow> list_all (\<lambda>p. CHR 0x22 \<notin> set (fst p) \<and> plain (snd p)) kvs"
  "plain (j_array xs) \<longleftrightarrow> list_all plain xs"
  "plain (j_string s) \<longleftrightarrow> set s \<inter> {CHR 0x22, CHR 0x27} = {}"
  "plain (j_int i)" "plain (j_bool b)"
  by (simp_all add: j_object_eq j_array_eq j_string_def j_int_def j_bool_def assign_string_def assign_int_def
      assign_bool_def JSON_new_def)

lemma fold_snd_zip: "length ts = length fs \<Longrightarrow> fold snd (zip ts fs) x = fold id fs x"
  by (induction ts fs arbitrary: x rule: list_induct2) auto

text \<open>The members of an object whose values are read back: their texts and their effects.\<close>

lemma object_text:
  assumes q: "qi_laws q" and j: "j = Node JSON_OBJECT vs m ord v" "plain j" and "write_json sd j = Inr w"
    and vals: "\<And>k x wx. (k, x) \<in> set m \<Longrightarrow> write_json sd x = Inr wx \<Longrightarrow> reads_value q x wx"
  obtains xs where "\<And>t f. (t, f) \<in> set xs \<Longrightarrow> reads_item q R_pair (top_type JSON_OBJECT) t (grow f)"
    and "w = ''{'' @ join_with ('','' @ []) (map fst xs) @ ''}''" and "fold snd xs (JSON_new JSON_OBJECT) = j"
proof -
  have m: "vs = []" "v = VBool False" "ord = map fst m" "distinct (map fst m)"
    and members: "\<And>k x. (k, x) \<in> set m \<Longrightarrow> CHR 0x22 \<notin> set k \<and> plain x"
    using j by (auto simp: list_all_iff)
  obtain ts where w: "w = ''{'' @ join_with '','' ts @ ''}''"
    and ts: "list_all2 (\<lambda>k t. bindR (case map_of m k of Some x \<Rightarrow> write_json sd x | None \<Rightarrow> Inr ''null'')
                (\<lambda>s. Inr (dquote @ k @ dquote @ '':'' @ s)) = Inr t) (map fst m) ts"
    using assms(4) by (auto simp: j(1) mapR_Inr m Let_def)
  let ?xs = "zip ts (map (\<lambda>(k, x). store_key k x) m)"
  have len: "length ts = length m" using list_all2_lengthD [OF ts] by simp
  have "reads_item q R_pair (top_type JSON_OBJECT) t (grow f)" if "(t, f) \<in> set ?xs" for t f
  proof -
    from that obtain i where i: "i < length m" "t = ts ! i" "f = (\<lambda>(k, x). store_key k x) (m ! i)"
      by (auto simp: set_zip)
    obtain k x where kx: "m ! i = (k, x)" by (cases "m ! i")
    then have mem: "(k, x) \<in> set m" using i nth_mem by metis
    then have "map_of m k = Some x" using m(4) by simp
    with list_all2_nthD [OF ts, of i] i(1) kx
    obtain wx where "write_json sd x = Inr wx" "ts ! i = dquote @ k @ dquote @ '':'' @ wx"
      by (auto simp: bindR_eq_Inr_iff)
    with vals mem members show ?thesis using i(2,3) kx reads_pair [OF q] by auto
  qed
  moreover have "w = ''{'' @ join_with ('','' @ []) (map fst ?xs) @ ''}''" using w len by simp
  moreover have "fold snd ?xs (JSON_new JSON_OBJECT) = j"
    using len fold_store_key [OF m(4)] by (simp add: fold_snd_zip fold_map comp_def split_def m j(1))
  ultimately show thesis by (rule that)
qed

lemma reads_plain:
  assumes q: "qi_laws q"
  shows "plain j \<Longrightarrow> write_json sd j = Inr w \<Longrightarrow> reads_value q j w"
proof (induction j arbitrary: w rule: plain.induct)
  case (1 ty vs m ord v)
  show ?case
  proof (cases ty)
    case JSON_OBJECT
    have vals: "reads_value q x wx" if "(k, x) \<in> set m" "write_json sd x = Inr wx" for k x wx
      using 1(2,3) JSON_OBJECT that by (auto simp: list_all_iff)
    obtain xs where
      xs: "\<And>t f. (t, f) \<in> set xs \<Longrightarrow> reads_item q R_pair (top_type JSON_OBJECT) t (grow f)"
      "w = ''{'' @ join_with ('','' @ []) (map fst xs) @ ''}''" "fold snd xs (JSON_new JSON_OBJECT) = Node ty vs m ord v"
      by (rule object_text [OF q _ 1(3,4)]) (use JSON_OBJECT vals in blast)+
    show ?thesis unfolding xs(2) xs(3) [symmetric]
      by (rule reads_nested [OF q, where item = R_pair and lst = R_members]) (use xs(1) in \<open>auto simp: list_rules_def\<close>)
  next
    case JSON_ARRAY
    then have m: "m = []" "ord = []" "v = VBool False" and vs: "\<And>x. x \<in> set vs \<Longrightarrow> plain x"
      using 1 by (auto simp: list_all_iff)
    obtain ts where w: "w = ''['' @ join_with '', '' ts @ '']''" and ts: "list_all2 (\<lambda>x t. write_json sd x = Inr t) vs ts"
      using 1(4) JSON_ARRAY by (auto simp: mapR_Inr Let_def)
    let ?xs = "zip ts (map push_vec vs)"
    have len: "length ts = length vs" using list_all2_lengthD [OF ts] by simp
    have "reads_item q R_value (top_type JSON_ARRAY) t (grow f)" if "(t, f) \<in> set ?xs" for t f
    proof -
      from that obtain i where i: "i < length vs" "t = ts ! i" "f = push_vec (vs ! i)" by (auto simp: set_zip)
      then have "reads_value q (vs ! i) (ts ! i)"
        using 1(1) JSON_ARRAY vs list_all2_nthD [OF ts] by simp
      then show ?thesis using i(2,3) reads_element by simp
    qed
    from reads_nested [OF q, of "'' ''" R_value R_elements R_more_elements JSON_ARRAY ?xs "CHR ''[''" "CHR '']''", OF _ _ this]
    have "reads_value q (fold id (map push_vec vs) (JSON_new JSON_ARRAY)) w"
      using len by (simp add: list_rules_def w fold_snd_zip)
    then show ?thesis using j_array_eq [of vs] by (simp add: j_array_def fold_map m JSON_ARRAY)
  qed (use 1(3,4) reads_number [OF q] reads_keyword [OF q] reads_quoted [OF q] in
      \<open>auto simp: GetInt_def GetBool_def GetString_def j_bool_def j_string_def assign_bool_def assign_string_def
        JSON_new_def split: JSONValue.splits\<close>)
qed

lemma read_written_object:
  assumes q: "qi_laws q" and j: "plain j" "j_type j = JSON_OBJECT" and s: "ToString sd j = Inr s"
  shows "FromString q (s @ rest) = Inr j"
proof -
  obtain vs m ord v where node: "j = Node JSON_OBJECT vs m ord v" using j(2) by (cases j) auto
  from s obtain w where w: "write_json sd j = Inr w" by (auto simp: ToString_def)
  have vals: "reads_value q x wx" if "(k, x) \<in> set m" "write_json sd x = Inr wx" for k x wx
    using j(1) that by (intro reads_plain [OF q _ that(2)]) (auto simp: node list_all_iff)
  obtain xs where xs: "\<And>t f. (t, f) \<in> set xs \<Longrightarrow> reads_item q R_pair (top_type JSON_OBJECT) t (grow f)"
    "w = ''{'' @ join_with ('','' @ []) (map fst xs) @ ''}''" "fold snd xs (JSON_new JSON_OBJECT) = j"
    by (rule object_text [OF q node j(1) w vals]) blast+
  define body where "body = join_with ('','' @ []) (map fst xs) @ ''}'' @ rest"
  have s: "s @ rest = CHR ''{'' # body" using s w by (simp add: ToString_def xs(2) body_def)
  let ?n = "4 * length (s @ rest) + 3"
  let ?sf = "\<lparr>sf_stack = [JSON_new JSON_OBJECT], sf_names = [], sf_root = j_null\<rparr>"
  let ?ys = "map (\<lambda>x. (fst x, grow (snd x))) xs"
  have texts: "map fst ?ys = map fst xs" by simp
  have effect: "fold snd ?ys ?sf = grow (fold snd xs) ?sf"
    using fold_grow [of ?sf snd xs] by (simp add: fold_map comp_def)
  have "\<exists>r. run_rule q ?n R_members body ?sf = Inr (r, fold snd ?ys ?sf)
      \<and> lit q (CHR ''}'') (case r of Some s2 \<Rightarrow> s2 | None \<Rightarrow> body) = Some rest"
    unfolding body_def texts [symmetric]
    by (rule nested_text [OF q, where item = R_pair])
      (use xs(1) in \<open>auto simp: list_rules_def s body_def comp_def\<close>)
  then obtain r where r: "run_rule q ?n R_members body ?sf = Inr (r, grow (fold snd xs) ?sf)"
      "lit q (CHR ''}'') (case r of Some s2 \<Rightarrow> s2 | None \<Rightarrow> body) = Some rest"
    unfolding effect by blast
  have fuel: "run_rule q (parse_fuel_for (s @ rest)) = g_rule q (run_rule q ?n)"
    by (simp add: parse_fuel_for_def eval_nat_numeral)
  have "BeginObject (SemanticFunctions_new j_null) = Inr ?sf"
    by (simp add: BeginObject_def begin_node_def SemanticFunctions_new_def)
  moreover have "act (EndObject (grow (fold snd xs) ?sf)) rest
      = Inr (Some rest, \<lparr>sf_stack = [], sf_names = [], sf_root = j\<rparr>)"
    using xs(3) by (simp add: act_def EndObject_def end_node_def grow_def)
  moreover have "lit q (CHR ''{'') (s @ rest) = Some body" by (simp add: s lit_here not_space [OF q])
  ultimately have "g_object (run_rule q ?n) q (s @ rest) (SemanticFunctions_new j_null)
      = Inr (Some rest, \<lparr>sf_stack = [], sf_names = [], sf_root = j\<rparr>)"
    using r by (simp add: g_object_def)
  then show ?thesis by (simp add: FromString_def Parse_def fuel)
qed

section \<open>Properties\<close>


text \<open>
  An array at the top cannot be read back: the writer puts braces around its text, which makes it
  neither an object nor an array.
\<close>

theorem array_text_unreadable:
  assumes q: "qi_laws q" and j: "j_type j = JSON_ARRAY" and s: "ToString sd j = Inr s"
  shows "FromString q (s @ rest) = Inl (Exception ''Failed to parse JSON'')"
proof -
  obtain vs m ord v where node: "j = Node JSON_ARRAY vs m ord v" using j by (cases j) auto
  from s obtain w where s: "s @ rest = CHR ''{'' # CHR ''['' # w"
    by (auto simp: ToString_def node Let_def bindR_eq_Inr_iff)
  have lit: "lit q (CHR ''{'') (s @ rest) = Some (CHR ''['' # w)" "lit q (CHR ''['') (s @ rest) = None"
    by (simp_all add: s lit_here not_space [OF q])
  have fuel: "run_rule q (parse_fuel_for (s @ rest)) = g_rule q (run_rule q (Suc (Suc (4 * length (s @ rest) + 1))))"
    by (simp add: parse_fuel_for_def eval_nat_numeral)
  have "run_rule q (Suc (Suc n)) R_members (CHR ''['' # w) sf = no_match sf" for n sf
    by (simp add: g_list_def g_pair_def p_string_def lit_here not_space [OF q])
  moreover have "BeginObject (SemanticFunctions_new j_null)
      = Inr \<lparr>sf_stack = [JSON_new JSON_OBJECT], sf_names = [], sf_root = j_null\<rparr>"
    by (simp add: BeginObject_def begin_node_def SemanticFunctions_new_def)
  ultimately show ?thesis
    using lit by (simp add: FromString_def Parse_def fuel g_object_def g_array_def lit_here not_space [OF q]
        del: run_rule.simps(2))
qed

section \<open>Tokens\<close>

text \<open>An instance of the laws: a blank is the only white space, and there are no doubles.\<close>

definition sample_long_long :: "string \<Rightarrow> (int64 \<times> string) option" where
  "sample_long_long s =
     (let neg = (s \<noteq> [] \<and> hd s = CHR ''-'');
          r = (if neg then tl s else s);
          ds = takeWhile is_digit r;
          n = fold (\<lambda>c n. n * 10 + int (digit_value c)) ds 0
      in if ds = [] then None else Some (word_of_int (if neg then - n else n), dropWhile is_digit r))"

definition sample_qi :: qi where
  "sample_qi = \<lparr>qi_space = (\<lambda>c. c = CHR '' ''), qi_strict_double = (\<lambda>_. None), qi_long_long = sample_long_long\<rparr>"

lemma sample_reads_int:
  assumes "ends_value rest"
  shows "sample_long_long (show_int64 x @ rest) = Some (x, rest)"
proof -
  obtain c r where rest: "rest = c # r" "\<not> is_digit c"
    using assms by (cases rest) (auto simp: ends_value_def is_digit_def)
  have split: "takeWhile is_digit (show_dec n @ rest) = show_dec n" "dropWhile is_digit (show_dec n @ rest) = rest" for n
    using show_dec_digits [of n] rest by auto
  have ne: "show_dec n \<noteq> []" for n by (subst show_dec.simps) simp
  have "\<not> is_digit (CHR ''-'')" by (simp add: is_digit_def)
  then have "hd (show_dec n @ rest) \<noteq> CHR ''-''" for n
    using ne [of n] show_dec_digits [of n] by (cases "show_dec n") auto
  with ne show ?thesis
    by (auto simp: sample_long_long_def show_int64_def show_dec_value Let_def split)
qed

lemma sample_laws: "qi_laws sample_qi"
proof -
  have "number_tokens sample_long_long"
    unfolding number_tokens_def
  proof (intro allI impI)
    fix s x r
    assume *: "sample_long_long s = Some (x, r)"
    have "length (dropWhile is_digit t) \<le> length t" for t by (rule length_dropWhile_le)
    moreover have "takeWhile is_digit s \<noteq> [] \<or> s \<noteq> [] \<and> hd s = CHR ''-''" and "r = dropWhile is_digit s \<or> r = dropWhile is_digit (tl s)"
      using * by (auto simp: sample_long_long_def Let_def split: if_splits)
    ultimately show "length r \<le> length s \<and> s \<noteq> [] \<and> hd s \<notin> set ''{[]''"
      by (cases s) (auto simp: is_digit_def split: if_splits intro: le_SucI)
  qed
  moreover have "sample_long_long (w @ rest) = None" if "w \<in> {''true'', ''false'', ''null''}" for w rest
    using that by (auto simp: sample_long_long_def is_digit_def)
  ultimately show ?thesis
    by (auto simp: qi_laws_def qi_ok_def sample_qi_def number_tokens_def sample_reads_int)
qed

definition sample_doc :: JSON where
  "sample_doc = j_object [(''id'', j_int 7), (''params'', j_array [j_string ''job'', j_bool True, j_null])]"

lemma sample_doc_eq:
  "sample_doc = Node JSON_OBJECT [] [(''id'', j_int 7), (''params'', j_array [j_string ''job'', j_bool True, j_null])]
     [''id'', ''params''] (VBool False)"
  using fold_store_key [of "[(''id'', j_int 7), (''params'', j_array [j_string ''job'', j_bool True, j_null])]"]
  by (simp add: sample_doc_def j_object_def store_all_def)


theorem array_text_unreadable_witness:
  "ToString (\<lambda>_. []) (j_array [j_null]) = Inr ''{[null]}''
   \<and> FromString sample_qi (''{[null]}'' @ ''}'') = Inl (Exception ''Failed to parse JSON'')"
proof -
  have "ToString (\<lambda>_. []) (j_array [j_null]) = Inr ''{[null]}''"
    by (simp add: ToString_def j_array_eq JSON_new_def)
  with array_text_unreadable [OF sample_laws _ this, of "''}''"] show ?thesis by (simp add: j_array_eq)
qed

text \<open>The witness of \<open>FromString_safe\<close>: a text of four characters that a miner may send.\<close>

theorem FromString_safe_witness:
  "FromString sample_qi ''[1,]'' = Inl (Exception ''Failed to parse JSON'')
    \<or> (\<exists>j. FromString sample_qi ''[1,]'' = Inr j \<and> json_ok j \<and> j_type j \<in> {JSON_OBJECT, JSON_ARRAY})"
  by (rule FromString_safe) (use sample_laws in \<open>simp add: qi_laws_def\<close>)

end
