(* ===== verification/Json_Rpc.thy ===== *)
theory Json_Rpc
  imports Json_Round_Trip
begin

text \<open>
  The connection to a Bitcoin daemon (\<open>shared/JSONRPC/JSONRPC.h\<close>, \<open>JSONRPC.cpp\<close>): finding an
  address, and a query, which sends a JSON document in an HTTP request and takes the result from the
  document in the response. Name resolution and sockets are arguments.
\<close>

section \<open>Connecting\<close>

record JSONRPCConnectionInfo =
  Host :: string
  Port :: string
  User :: string
  Pass :: string
  B64Auth :: string

text \<open>The connection object with the address that it found.\<close>

record JSONRPC =
  rpc_connInfo :: JSONRPCConnectionInfo
  rpc_ep :: string

text \<open>
  \<^verbatim>\<open>Util::ToBase64\<close>; the iterators of Boost that turn bytes into characters, with and without line
  breaks, are arguments.
\<close>

definition ToBase64 :: "(string \<Rightarrow> string) \<Rightarrow> (string \<Rightarrow> string) \<Rightarrow> string \<Rightarrow> bool \<Rightarrow> string" where
  "ToBase64 it_base64_lb it_base64 input linebreaks =
     (let writePaddChars = (3 - length input mod 3) mod 3 in
      (if linebreaks then it_base64_lb input else it_base64 input) @ replicate writePaddChars (CHR ''=''))"

text \<open>
  \<^verbatim>\<open>Util::FromBase64\<close>; the iterator that turns characters into bytes is an argument. More characters \<^verbatim>\<open>=\<close>
  than bytes make the range that is erased start before the text.
\<close>

definition trim :: "string \<Rightarrow> string" where
  "trim str = rev (dropWhile is_space (rev (dropWhile is_space str)))"

definition FromBase64 :: "(string \<Rightarrow> string result) \<Rightarrow> string \<Rightarrow> string result" where
  "FromBase64 it_binary input =
     (let input = trim input; paddChars = length (filter (\<lambda>ch. ch = CHR ''='') input) in
      bindR (it_binary (map (\<lambda>ch. if ch = CHR ''='' then CHR ''A'' else ch) input)) (\<lambda>result.
      if length result < paddChars then Inl (Undefined ''erase'')
      else Inr (take (length result - paddChars) result)))"

lemma trim_id:
  assumes "\<And>ch. ch \<in> set str \<Longrightarrow> \<not> is_space ch"
  shows "trim str = str"
proof -
  have "dropWhile is_space xs = xs" if "set xs \<subseteq> set str" for xs
    using that assms by (cases xs) auto
  then show ?thesis by (simp add: trim_def)
qed

text \<open>Base64 text without line breaks is decoded again, whenever the iterators undo each other on padded groups.\<close>

lemma FromBase64_ToBase64:
  assumes plain: "\<And>ch. ch \<in> set (it_base64 input) \<Longrightarrow> \<not> is_space ch \<and> ch \<noteq> CHR ''=''"
    and pad: "p = (3 - length input mod 3) mod 3"
    and undo: "it_binary (it_base64 input @ replicate p (CHR ''A'')) = Inr (input @ replicate p (CHR 0x00))"
  shows "FromBase64 it_binary (ToBase64 lb it_base64 input False) = Inr input"
proof -
  have base: "ToBase64 lb it_base64 input False = it_base64 input @ replicate p (CHR ''='')"
    by (simp add: ToBase64_def pad)
  have "trim (it_base64 input @ replicate p (CHR ''='')) = it_base64 input @ replicate p (CHR ''='')"
    using plain by (intro trim_id) (auto simp: is_space_def)
  moreover have "filter (\<lambda>ch. ch = CHR ''='') (it_base64 input) = []"
    using plain by (auto simp: filter_empty_conv)
  moreover have "map (\<lambda>ch. if ch = CHR ''='' then CHR ''A'' else ch) (it_base64 input) = it_base64 input"
    using plain by (auto intro: map_idI)
  ultimately show ?thesis by (simp add: FromBase64_def base Let_def undo)
qed

text \<open>
  The loop over the addresses: it ends with the first one to which a connection can be made, or
  with the last error.
\<close>

fun try_endpoints :: "(string \<Rightarrow> string option) \<Rightarrow> string list \<Rightarrow> string \<Rightarrow> string option \<Rightarrow> string \<times> string option" where
  "try_endpoints connect (e # es) ep (Some error) = try_endpoints connect es e (connect e)"
| "try_endpoints connect es ep error = (ep, error)"

definition JSONRPC_Connect ::
    "(string \<Rightarrow> string) \<Rightarrow> (string \<Rightarrow> string \<Rightarrow> string list result) \<Rightarrow> (string \<Rightarrow> string option)
      \<Rightarrow> JSONRPCConnectionInfo \<Rightarrow> string \<Rightarrow> JSONRPC result" where
  "JSONRPC_Connect base64 resolve connect connInfo ep =
     (let info = (if B64Auth connInfo = []
                  then connInfo\<lparr>B64Auth := ToBase64 base64 base64 (User connInfo @ '':'' @ Pass connInfo) False\<rparr>
                  else connInfo) in
      bindR (resolve (Host connInfo) (Port connInfo)) (\<lambda>eps.
      case try_endpoints connect eps ep (Some ''host_not_found'') of
        (ep, Some error) \<Rightarrow>
          Inl (Exception (FS [''JSONRPC::Connect(): Error connecting to '', [CHR 0x27], c_str (Host info), [CHR 0x27],
            '': '', c_str error]))
      | (ep, None) \<Rightarrow> Inr \<lparr>rpc_connInfo = info, rpc_ep = ep\<rparr>))"

text \<open>
  A connection is made with the first address that accepts one, and fails only when none does.
\<close>

lemma try_endpoints_found:
  "try_endpoints connect (es @ e # es') ep (Some err) = (e, None)"
  if "\<And>x. x \<in> set es \<Longrightarrow> connect x \<noteq> None" and "connect e = None"
  using that
proof (induction es arbitrary: ep err)
  case (Cons a es)
  from Cons.prems(1) [of a] obtain err' where "connect a = Some err'" by auto
  with Cons show ?case by simp
qed (cases es', auto)

lemma try_endpoints_none:
  "\<exists>ep' err'. try_endpoints connect es ep (Some err) = (ep', Some err')"
  if "\<And>x. x \<in> set es \<Longrightarrow> connect x \<noteq> None"
  using that
proof (induction es arbitrary: ep err)
  case (Cons a es)
  from Cons.prems [of a] obtain err' where "connect a = Some err'" by auto
  with Cons show ?case by simp
qed simp

section \<open>The request\<close>

definition rpc_request :: "string \<Rightarrow> JSON \<Rightarrow> JSON" where
  "rpc_request method params =
     j_object ([(''jsonrpc'', j_string ''1.0''), (''id'', j_int 1), (''method'', j_string method)]
       @ (if json_Size params > 0 then [(''params'', params)] else []))"

abbreviation LF :: string where "LF \<equiv> [CHR 0x0A]"

definition http_request :: "string \<Rightarrow> string \<Rightarrow> string" where
  "http_request auth jsonstring =
     ''POST / HTTP/1.1'' @ LF @ ''Host: 127.0.0.1'' @ LF @ ''Content-Type: application/json-rpc'' @ LF
     @ ''Authorization: Basic '' @ auth @ LF @ ''Content-Length: '' @ show_dec (length jsonstring) @ LF @ LF
     @ jsonstring"

section \<open>The response\<close>

text \<open>
  What happens on the socket during a query: the error of the connection, what the first
  \<^verbatim>\<open>read_until\<close> puts into the buffer (or the exception that it or the write throws), and what the second
  one adds, if there is something to read.
\<close>

record exchange =
  x_error :: "string option"
  x_first :: "string result"
  x_more :: "string result option"

text \<open>\<^verbatim>\<open>std::getline\<close>: \<open>None\<close> when there is nothing left.\<close>

definition getline :: "string \<Rightarrow> (string \<times> string) option" where
  "getline s = (if s = [] then None
     else Some (takeWhile (\<lambda>c. c \<noteq> CHR 0x0A) s, drop 1 (dropWhile (\<lambda>c. c \<noteq> CHR 0x0A) s)))"

text \<open>\<^verbatim>\<open>>>\<close> of a string: the characters up to white space; it fails when there are none.\<close>

definition read_word :: "string \<Rightarrow> (string \<times> string) option" where
  "read_word s =
     (let s = dropWhile is_space s in
      if s = [] then None else Some (takeWhile (\<lambda>c. \<not> is_space c) s, dropWhile (\<lambda>c. \<not> is_space c) s))"

definition dec_value :: "string \<Rightarrow> nat" where
  "dec_value ds = nat (fold (\<lambda>c n. n * 10 + int (digit_value c)) ds 0)"

text \<open>
  \<^verbatim>\<open>>>\<close> of an unsigned 32-bit number in decimal: it fails when there are no digits or the number is too
  large.
\<close>

definition read_dec_u32 :: "string \<Rightarrow> (uint32 \<times> string) option" where
  "read_dec_u32 s =
     (let s = dropWhile is_space s;
          neg = (s \<noteq> [] \<and> hd s = CHR ''-'');
          s = (if s \<noteq> [] \<and> (hd s = CHR ''-'' \<or> hd s = CHR ''+'') then tl s else s);
          ds = takeWhile is_digit s
      in if ds = [] \<or> dec_value ds \<ge> 2 ^ 32 then None
         else Some (if neg then - of_nat (dec_value ds) else of_nat (dec_value ds), dropWhile is_digit s))"

text \<open>The status line: version and status code, \<open>None\<close> when one of the extractions fails.\<close>

definition status_line :: "string \<Rightarrow> (string \<times> uint32 \<times> string) option" where
  "status_line s =
     (case read_word s of None \<Rightarrow> None
      | Some (http_version, s) \<Rightarrow>
          (case read_dec_u32 s of None \<Rightarrow> None
           | Some (status_code, s) \<Rightarrow>
               (case getline s of None \<Rightarrow> None
                | Some (status_message, s) \<Rightarrow> Some (http_version, status_code, s))))"

text \<open>The header lines up to an empty one; what is left of the buffer.\<close>

function skip_headers :: "string \<Rightarrow> string" where
  "skip_headers s =
     (case getline s of
        None \<Rightarrow> s
      | Some (header, s) \<Rightarrow> if header = [CHR 0x0D] then s else skip_headers s)"
  by pat_completeness auto
termination
proof (relation "measure length")
  fix s :: string and p header r
  assume "getline s = Some p" "(header, r) = p"
  then have "s \<noteq> []" and r: "r = drop 1 (dropWhile (\<lambda>c. c \<noteq> CHR 0x0A) s)" by (auto simp: getline_def split: if_splits)
  then show "(r, s) \<in> measure length"
    using length_dropWhile_le [of "\<lambda>c. c \<noteq> CHR 0x0A" s] by (cases s) auto
qed simp

declare skip_headers.simps [simp del]

text \<open>
  The body: the second \<^verbatim>\<open>read_until\<close> returns at once when the buffer holds the end of a line already.
\<close>

definition response_body :: "string result option \<Rightarrow> string \<Rightarrow> string result" where
  "response_body added buf =
     (case added of
        None \<Rightarrow> Inr buf
      | Some r \<Rightarrow> if CHR 0x0A \<in> set buf then Inr buf else bindR r (\<lambda>s. Inr (buf @ s)))"

text \<open>A query on the connection \<open>rpc\<close>; the exchange on the socket depends on the bytes of the request.\<close>

definition JSONRPC_Query ::
    "(double \<Rightarrow> string) \<Rightarrow> qi \<Rightarrow> JSONRPC \<Rightarrow> (string \<Rightarrow> exchange) \<Rightarrow> string \<Rightarrow> JSON \<Rightarrow> JSON result" where
  "JSONRPC_Query sd q rpc exch method params =
     bindR (ToString sd (rpc_request method params)) (\<lambda>jsonstring.
     let x = exch (http_request (B64Auth (rpc_connInfo rpc)) jsonstring) in
     case x_error x of
       Some error \<Rightarrow>
         Inl (Exception (FS [''JSONRPC::Connect(): Error connecting to '', [CHR 0x27],
           c_str (Host (rpc_connInfo rpc)), [CHR 0x27], '': '', c_str error]))
     | None \<Rightarrow>
         bindR (x_first x) (\<lambda>buf.
         case status_line buf of
           None \<Rightarrow> Inl (Exception ''JSONRPC::Query(): Malformed HTTP Response'')
         | Some (http_version, status_code, buf) \<Rightarrow>
             if take 5 http_version \<noteq> ''HTTP/'' then Inl (Exception ''JSONRPC::Query(): Malformed HTTP Response'')
             else if status_code \<noteq> 200
             then Inl (Exception (FS [''JSONRPC::Query(): Returned status code: '', show_u status_code]))
             else
               bindR (response_body (x_more x) (skip_headers buf)) (\<lambda>jsonresponse.
               bindR (FromString q jsonresponse) (\<lambda>data.
               bindR (index_key ''result'' data) (\<lambda>(r, _). Inr r)))))"

section \<open>Facts\<close>

lemma getline_append:
  "CHR 0x0A \<notin> set l \<Longrightarrow> getline (l @ LF @ s) = Some (l, s)"
  by (auto simp: getline_def takeWhile_append dropWhile_append)

lemma skip_headers_lines:
  "(\<And>h. h \<in> set hs \<Longrightarrow> CHR 0x0A \<notin> set h \<and> h \<noteq> []) \<Longrightarrow>
   skip_headers (concat (map (\<lambda>h. h @ [CHR 0x0D] @ LF) hs) @ [CHR 0x0D] @ LF @ s) = s"
proof (induction hs)
  case Nil
  show ?case using getline_append [of "[CHR 0x0D]" s] by (subst skip_headers.simps) simp
next
  case (Cons h hs)
  from Cons.prems [of h] have "CHR 0x0A \<notin> set (h @ [CHR 0x0D])" "h @ [CHR 0x0D] \<noteq> [CHR 0x0D]" by simp_all
  with getline_append [OF this(1)] Cons show ?case by (subst skip_headers.simps) simp
qed

lemma status_line_ok: "status_line (''HTTP/1.1 200 OK'' @ [CHR 0x0D] @ LF @ s) = Some (''HTTP/1.1'', 200, s)"
  by (simp add: status_line_def read_word_def is_space_def read_dec_u32_def is_digit_def dec_value_def
      digit_value_def getline_def)

lemma rpc_request_eq:
  "rpc_request method params =
     (let kvs = [(''jsonrpc'', j_string ''1.0''), (''id'', j_int 1), (''method'', j_string method)]
        @ (if json_Size params > 0 then [(''params'', params)] else [])
      in Node JSON_OBJECT [] kvs (map fst kvs) (VBool False))"
  by (auto simp: rpc_request_def j_object_eq Let_def)

lemma plain_ok: "plain j \<Longrightarrow> json_ok j"
proof (induction j rule: plain.induct)
  case (1 ty vs m ord v)
  then show ?case by (cases ty) (auto simp: list_all_iff split: JSONValue.splits)
qed

lemma plain_request:
  assumes "set method \<inter> {CHR 0x22, CHR 0x27} = {}" and "plain params"
  shows "plain (rpc_request method params)"
  using assms unfolding rpc_request_def by (auto simp: list_all_iff)

lemma request_text:
  assumes "json_ok params"
  obtains t where "ToString sd (rpc_request method params) = Inr t"
proof -
  have "json_ok (rpc_request method params)"
    using assms by (auto simp: rpc_request_def intro!: object_ok)
  from write_json_total [OF this, of sd] that show ?thesis by (auto simp: ToString_def)
qed

lemma Query_answered:
  assumes q: "qi_laws q"
    and request: "set method \<inter> {CHR 0x22, CHR 0x27} = {}" "plain params"
    and reply: "plain reply" "j_type reply = JSON_OBJECT" "ToString sd reply = Inr s"
    and headers: "\<And>h. h \<in> set hs \<Longrightarrow> CHR 0x0A \<notin> set h \<and> h \<noteq> []"
    and body: "later = None \<and> b = s @ rest \<or> CHR 0x0A \<notin> set b \<and> (\<exists>b'. later = Some (Inr b') \<and> b @ b' = s @ rest)"
    and daemon: "\<And>text. FromString q text = Inr (rpc_request method params) \<Longrightarrow>
      exch (http_request (B64Auth (rpc_connInfo rpc)) text) =
        \<lparr>x_error = None,
         x_first = Inr (''HTTP/1.1 200 OK'' @ [CHR 0x0D] @ LF @ concat (map (\<lambda>h. h @ [CHR 0x0D] @ LF) hs)
           @ [CHR 0x0D] @ LF @ b),
         x_more = later\<rparr>"
  shows "JSONRPC_Query sd q rpc exch method params
    = Inr (case map_of (j_map reply) ''result'' of Some r \<Rightarrow> r | None \<Rightarrow> JSON_new JSON_NULL)"
proof -
  have plain: "plain (rpc_request method params)" by (rule plain_request [OF request])
  obtain t where t: "ToString sd (rpc_request method params) = Inr t"
    by (rule request_text [OF plain_ok [OF request(2)]])
  from read_written_object [OF q plain _ this, of "[]"] have "FromString q t = Inr (rpc_request method params)"
    by (simp add: rpc_request_eq Let_def)
  note x = daemon [OF this]
  have read: "FromString q (s @ rest) = Inr reply" by (rule read_written_object [OF q reply])
  have "response_body later b = Inr (s @ rest)" using body by (auto simp: response_body_def)
  with read reply(2) show ?thesis
    by (simp add: JSONRPC_Query_def t x status_line_ok [simplified] skip_headers_lines [OF headers, simplified]
        index_key_def become_def split: option.split)
qed

section \<open>Properties\<close>


text \<open>
  Whatever the daemon sends, a query ends with a well-formed document or with an exception, which
  its callers catch, as long as the functions for sockets do so; a refused connection and every status
  but 200 are exceptions.
\<close>

theorem JSONRPC_Query_safe:
  assumes q: "qi_ok q" and params: "json_ok params"
    and sockets: "\<And>r why. x_first (exch r) \<noteq> Inl (Undefined why) \<and> x_more (exch r) \<noteq> Some (Inl (Undefined why))"
  shows "(\<exists>j. JSONRPC_Query sd q rpc exch method params = Inr j \<and> json_ok j
      \<and> (\<exists>r b v c. x_error (exch r) = None \<and> x_first (exch r) = Inr b \<and> status_line b = Some (v, 200, c)))
    \<or> (\<exists>e. JSONRPC_Query sd q rpc exch method params = Inl (Exception e))"
proof -
  obtain t where t: "ToString sd (rpc_request method params) = Inr t"
    by (rule request_text [OF params])
  define x where "x = exch (http_request (B64Auth (rpc_connInfo rpc)) t)"
  have field: "(\<exists>j. index_key ''result'' d = Inr j \<and> json_ok (fst j)) \<or> (\<exists>e. index_key ''result'' d = Inl (Exception e))"
    if "json_ok d" for d
    using index_key_ok [of "''result''" d] that by (auto simp: index_key_def become_def split: option.splits)
  have read: "(\<exists>e. f = Inl (Exception e)) \<or> (\<exists>j. f = Inr j \<and> json_ok j)"
    if "f = bindR (FromString q b) (\<lambda>data. bindR (index_key ''result'' data) (\<lambda>(r, _). Inr r))" for b f
    using FromString_cases [OF q, of b] field that by fastforce
  have body: "(\<exists>e. response_body (x_more x) b = Inl (Exception e)) \<or> (\<exists>b'. response_body (x_more x) b = Inr b')" for b
    using sockets unfolding x_def response_body_def
    by (auto simp: bindR_def split: option.split sum.split) (metis fault.exhaust)
  show ?thesis
  proof (cases "x_error x")
    case None
    show ?thesis
    proof (cases "x_first x")
      case (Inl e)
      with sockets have "\<exists>w. e = Exception w" unfolding x_def by (cases e) auto
      with Inl None show ?thesis by (auto simp: JSONRPC_Query_def t x_def)
    next
      case (Inr b)
      show ?thesis
      proof (cases "status_line b")
        case (Some p)
        obtain v code c where p: "p = (v, code, c)" by (cases p)
        note eq = JSONRPC_Query_def t None [unfolded x_def] Inr [unfolded x_def] Some p
        show ?thesis
        proof (cases "take 5 v = ''HTTP/'' \<and> code = 200")
          case True
          then have ok: "\<exists>r b v c. x_error (exch r) = None \<and> x_first (exch r) = Inr b \<and> status_line b = Some (v, 200, c)"
            using None Inr Some p unfolding x_def by blast
          from body [of "skip_headers c"] show ?thesis
          proof (elim disjE exE)
            fix b' assume b': "response_body (x_more x) (skip_headers c) = Inr b'"
            then have "JSONRPC_Query sd q rpc exch method params
                = bindR (FromString q b') (\<lambda>data. bindR (index_key ''result'' data) (\<lambda>(r, _). Inr r))"
              using True by (simp add: eq x_def)
            from read [OF this] ok show ?thesis by blast
          qed (use True in \<open>simp add: eq x_def\<close>)
        qed (auto simp: eq)
      qed (use None Inr in \<open>simp add: JSONRPC_Query_def t x_def\<close>)
    qed
  qed (simp add: JSONRPC_Query_def t x_def)
qed

text \<open>An answer with one header line, whose last character comes later.\<close>

definition sample_reply :: JSON where
  "sample_reply = j_object [(''result'', j_int 7), (''error'', j_null)]"

definition sample_exchange :: "string \<Rightarrow> exchange" where
  "sample_exchange request =
     \<lparr>x_error = None,
      x_first = Inr (''HTTP/1.1 200 OK'' @ [CHR 0x0D] @ LF @ ''Server: d'' @ [CHR 0x0D] @ LF @ [CHR 0x0D] @ LF
        @ ''{'' @ dquote @ ''result'' @ dquote @ '':7,'' @ dquote @ ''error'' @ dquote @ '':null''),
      x_more = Some (Inr (''}'' @ LF))\<rparr>"

definition sample_rpc :: JSONRPC where
  "sample_rpc = \<lparr>rpc_connInfo = \<lparr>Host = ''localhost'', Port = ''8332'', User = [], Pass = [], B64Auth = ''Og==''\<rparr>,
     rpc_ep = ''127.0.0.1''\<rparr>"

lemma sample_reply_eq:
  "sample_reply = Node JSON_OBJECT [] [(''result'', j_int 7), (''error'', j_null)] [''result'', ''error''] (VBool False)"
  using fold_store_key [of "[(''result'', j_int 7), (''error'', j_null)]"]
  by (simp add: sample_reply_def j_object_def store_all_def)


theorem JSONRPC_Query_safe_witness:
  "(\<exists>j. JSONRPC_Query (\<lambda>_. []) sample_qi sample_rpc sample_exchange ''getinfo'' j_null = Inr j \<and> json_ok j
      \<and> (\<exists>r b v c. x_error (sample_exchange r) = None \<and> x_first (sample_exchange r) = Inr b
          \<and> status_line b = Some (v, 200, c)))
    \<or> (\<exists>e. JSONRPC_Query (\<lambda>_. []) sample_qi sample_rpc sample_exchange ''getinfo'' j_null = Inl (Exception e))"
  by (rule JSONRPC_Query_safe) (use sample_laws in \<open>auto simp: qi_laws_def sample_exchange_def\<close>)

end
