(* ===== verification/Work_Queue.thy ===== *)
theory Work_Queue
  imports Prelude "HOL-Library.Multiset"
begin

text \<open>
  The queue of database operations and the threads that work on it: \<^verbatim>\<open>Util::SynchronisedQueue\<close>
  (\<open>shared/Util.h\<close>), \<^verbatim>\<open>DatabaseWorker::Work\<close> (\<open>shared/MySQL/DatabaseWorker.cpp\<close>) and the asynchronous
  half of \<^verbatim>\<open>DatabaseWorkerPool\<close>. Every operation of the queue holds its mutex, so it is one step; the
  threads interleave as the transition relation \<open>pool_step\<close>.
\<close>

section \<open>The queue (Util.h)\<close>

record 'a SynchronisedQueue =
  endQueue :: bool
  sq_queue :: "'a list"

definition SynchronisedQueue_new :: "'a SynchronisedQueue" where
  "SynchronisedQueue_new = \<lparr>endQueue = False, sq_queue = []\<rparr>"

definition Enqueue :: "'a \<Rightarrow> 'a SynchronisedQueue \<Rightarrow> 'a SynchronisedQueue" where
  "Enqueue data q = q\<lparr>sq_queue := sq_queue q @ [data]\<rparr>"

text \<open>
  \<^verbatim>\<open>Dequeue\<close>: \<open>None\<close> while the caller has to wait for the condition variable; \<open>Some (None, _)\<close> when it
  returns \<^verbatim>\<open>NULL\<close>, because the queue has been stopped.
\<close>

definition Dequeue :: "'a SynchronisedQueue \<Rightarrow> ('a option \<times> 'a SynchronisedQueue) option" where
  "Dequeue q =
     (if sq_queue q = [] \<and> \<not> endQueue q then None
      else if endQueue q then Some (None, q)
      else Some (Some (hd (sq_queue q)), q\<lparr>sq_queue := tl (sq_queue q)\<rparr>))"

definition Stop :: "'a SynchronisedQueue \<Rightarrow> 'a SynchronisedQueue" where
  "Stop q = q\<lparr>endQueue := True\<rparr>"

definition sq_Size :: "'a SynchronisedQueue \<Rightarrow> uint32" where
  "sq_Size q = of_nat (length (sq_queue q))"

text \<open>What a consumer gets when it neither waits nor is told to end.\<close>

definition dequeued :: "'a SynchronisedQueue \<Rightarrow> ('a \<times> 'a SynchronisedQueue) option" where
  "dequeued q = (case Dequeue q of Some (Some x, q') \<Rightarrow> Some (x, q') | _ \<Rightarrow> None)"

interpretation work_queue: fifo sq_queue Enqueue dequeued "\<lambda>q. \<not> endQueue q"
  by unfold_locales (auto simp: Enqueue_def dequeued_def Dequeue_def)

section \<open>Worker threads (DatabaseWorker.cpp)\<close>

text \<open>A thread is about to take an operation, is executing one, or has left its loop.\<close>

datatype 'op worker = Waiting | Working 'op | Exited

text \<open>
  The queue, the threads, and the history: the operations that were queued, that a thread took
  from the queue, and that were executed.
\<close>

record 'op pool =
  asyncQueue :: "'op SynchronisedQueue"
  workers :: "'op worker list"
  queued :: "'op list"
  taken :: "'op list"
  executed :: "'op list"

definition pool_init :: "'op pool \<Rightarrow> bool" where
  "pool_init p \<longleftrightarrow> asyncQueue p = SynchronisedQueue_new \<and> set (workers p) \<subseteq> {Waiting}
     \<and> queued p = [] \<and> taken p = [] \<and> executed p = []"

text \<open>\<^verbatim>\<open>ExecuteAsync\<close> and \<^verbatim>\<open>QueryAsync\<close> queue an operation; they always return \<^verbatim>\<open>true\<close>.\<close>

definition ExecuteAsync :: "'op \<Rightarrow> 'op pool \<Rightarrow> bool \<times> 'op pool" where
  "ExecuteAsync query p =
     (True, p\<lparr>asyncQueue := Enqueue query (asyncQueue p), queued := queued p @ [query]\<rparr>)"

definition pool_Stop :: "'op pool \<Rightarrow> 'op pool" where
  "pool_Stop p = p\<lparr>asyncQueue := Stop (asyncQueue p)\<rparr>"

text \<open>One iteration of \<^verbatim>\<open>Work\<close> in thread \<open>i\<close>: the call of \<^verbatim>\<open>Dequeue\<close>, then the execution.\<close>

definition worker_Dequeue :: "nat \<Rightarrow> 'op pool \<Rightarrow> 'op pool option" where
  "worker_Dequeue i p =
     (if i < length (workers p) \<and> workers p ! i = Waiting
      then case Dequeue (asyncQueue p) of
          None \<Rightarrow> None
        | Some (None, q) \<Rightarrow> Some (p\<lparr>asyncQueue := q, workers := (workers p)[i := Exited]\<rparr>)
        | Some (Some op, q) \<Rightarrow>
            Some (p\<lparr>asyncQueue := q, workers := (workers p)[i := Working op], taken := taken p @ [op]\<rparr>)
      else None)"

definition worker_Execute :: "nat \<Rightarrow> 'op pool \<Rightarrow> 'op pool option" where
  "worker_Execute i p =
     (if i < length (workers p)
      then case workers p ! i of
          Working op \<Rightarrow> Some (p\<lparr>workers := (workers p)[i := Waiting], executed := executed p @ [op]\<rparr>)
        | _ \<Rightarrow> None
      else None)"

inductive pool_step :: "'op pool \<Rightarrow> 'op pool \<Rightarrow> bool" where
  step_enqueue: "pool_step p (snd (ExecuteAsync op p))"
| step_stop: "pool_step p (pool_Stop p)"
| step_dequeue: "worker_Dequeue i p = Some p' \<Longrightarrow> pool_step p p'"
| step_execute: "worker_Execute i p = Some p' \<Longrightarrow> pool_step p p'"

inductive_cases pool_stepE: "pool_step p p'"

section \<open>Nothing is lost, nothing is done twice\<close>

definition working :: "'op worker list \<Rightarrow> 'op multiset" where
  "working ws = (\<Sum>w\<in>#mset ws. case w of Working op \<Rightarrow> {#op#} | _ \<Rightarrow> {#})"

definition pool_inv :: "'op pool \<Rightarrow> bool" where
  "pool_inv p \<longleftrightarrow> queued p = taken p @ sq_queue (asyncQueue p)
     \<and> mset (taken p) = mset (executed p) + working (workers p)"

lemma working_update:
  assumes "i < length ws"
  shows "working (ws[i := w]) + (case ws ! i of Working op \<Rightarrow> {#op#} | _ \<Rightarrow> {#})
    = working ws + (case w of Working op \<Rightarrow> {#op#} | _ \<Rightarrow> {#})"
proof -
  let ?f = "\<lambda>w. case w of Working op \<Rightarrow> {#op#} | _ \<Rightarrow> {#}"
  have "add_mset (ws ! i) (mset (ws[i := w])) = add_mset w (mset ws)"
    using assms by (simp add: mset_update)
  then have "(\<Sum>w\<in>#add_mset (ws ! i) (mset (ws[i := w])). ?f w) = (\<Sum>w\<in>#add_mset w (mset ws). ?f w)"
    by simp
  then show ?thesis by (simp add: working_def add.commute)
qed

lemma working_waiting: "set ws \<subseteq> {Waiting} \<Longrightarrow> working ws = {#}"
  by (induction ws) (auto simp: working_def)

lemma Dequeue_cases:
  "Dequeue q = Some (None, q') \<Longrightarrow> q' = q"
  "Dequeue q = Some (Some op, q') \<Longrightarrow> sq_queue q = op # sq_queue q' \<and> \<not> endQueue q"
  by (auto simp: Dequeue_def split: if_splits)

lemma worker_Dequeue_inv: "pool_inv p \<Longrightarrow> worker_Dequeue i p = Some p' \<Longrightarrow> pool_inv p'"
  using working_update [of i "workers p" Exited] working_update [of i "workers p" "Working op" for op]
  by (auto simp: worker_Dequeue_def pool_inv_def split: if_splits option.splits dest!: Dequeue_cases)

lemma worker_Execute_inv: "pool_inv p \<Longrightarrow> worker_Execute i p = Some p' \<Longrightarrow> pool_inv p'"
  using working_update [of i "workers p" Waiting]
  by (auto simp: worker_Execute_def pool_inv_def split: if_splits worker.splits)

interpretation pool_system: invariant_system pool_init pool_step pool_inv
proof
  show "pool_init p \<Longrightarrow> pool_inv p" for p :: "'a pool"
    by (auto simp: pool_init_def pool_inv_def SynchronisedQueue_new_def working_waiting)
  show "pool_step p p' \<Longrightarrow> pool_inv p'" if "pool_inv p" for p p' :: "'a pool"
    using that
  proof (elim pool_stepE)
    show "pool_inv p'" if "pool_inv p" "worker_Dequeue i p = Some p'" for i
      using that by (rule worker_Dequeue_inv)
    show "pool_inv p'" if "pool_inv p" "worker_Execute i p = Some p'" for i
      using that by (rule worker_Execute_inv)
  qed (auto simp: ExecuteAsync_def pool_Stop_def Stop_def Enqueue_def pool_inv_def)
qed

section \<open>Properties\<close>

text \<open>
  C34. Whatever the interleaving of producers and worker threads, the operations that threads have
  taken are, in this order, the first ones that were queued, and each of them has been executed
  exactly once or is the one its thread is executing: none is lost or run twice.
\<close>

theorem pool_no_loss:
  assumes "reach pool_init pool_step p"
  shows "queued p = taken p @ sq_queue (asyncQueue p)
    \<and> mset (taken p) = mset (executed p) + working (workers p)"
  using pool_system.reach_inv [OF assms] by (simp add: pool_inv_def)

definition sample_pool :: "string pool" where
  "sample_pool = \<lparr>asyncQueue = SynchronisedQueue_new, workers = [Waiting, Waiting], queued = [],
     taken = [], executed = []\<rparr>"

lemma sample_pool_reach: "reach pool_init pool_step (snd (ExecuteAsync ''b'' (snd (ExecuteAsync ''a'' sample_pool))))"
proof -
  have "reach pool_init pool_step sample_pool"
    by (rule reach_init) (simp add: pool_init_def sample_pool_def)
  from reach_step [OF reach_step [OF this step_enqueue] step_enqueue] show ?thesis .
qed

theorem pool_no_loss_witness:
  "\<exists>p. reach pool_init pool_step p \<and> executed p = [''a''] \<and> queued p = taken p @ sq_queue (asyncQueue p)
    \<and> mset (taken p) = mset (executed p) + working (workers p)"
proof -
  let ?p = "snd (ExecuteAsync ''b'' (snd (ExecuteAsync ''a'' sample_pool)))"
  obtain p1 where p1: "worker_Dequeue 1 ?p = Some p1" "workers p1 = [Waiting, Working ''a'']" "executed p1 = []"
    by (simp add: worker_Dequeue_def Dequeue_def ExecuteAsync_def Enqueue_def sample_pool_def
        SynchronisedQueue_new_def)
  obtain p2 where p2: "worker_Execute 1 p1 = Some p2" "executed p2 = [''a'']"
    using p1 by (simp add: worker_Execute_def)
  have "reach pool_init pool_step p2"
    using reach_step [OF reach_step [OF sample_pool_reach step_dequeue [OF p1(1)]] step_execute [OF p2(1)]] .
  with pool_no_loss [OF this] p2 show ?thesis by blast
qed

text \<open>
  A pool that has not been stopped never deadlocks: while an operation is queued, a waiting
  thread can take the oldest one, and a working thread can always finish.
\<close>

theorem pool_progress:
  assumes "i < length (workers p)" and "workers p ! i \<noteq> Exited"
    and "\<not> endQueue (asyncQueue p)" and "sq_queue (asyncQueue p) = op # rest"
  shows "(\<exists>p'. worker_Dequeue i p = Some p' \<and> workers p' ! i = Working op \<and> sq_queue (asyncQueue p') = rest)
    \<or> (\<exists>p'. worker_Execute i p = Some p' \<and> workers p' ! i = Waiting)"
  using assms
  by (cases "workers p ! i") (auto simp: worker_Dequeue_def worker_Execute_def Dequeue_def)

theorem pool_progress_witness:
  "let p = snd (ExecuteAsync ''a'' sample_pool) in
    (\<exists>p'. worker_Dequeue 0 p = Some p' \<and> workers p' ! 0 = Working ''a'' \<and> sq_queue (asyncQueue p') = [])
    \<or> (\<exists>p'. worker_Execute 0 p = Some p' \<and> workers p' ! 0 = Waiting)"
  unfolding Let_def
  by (rule pool_progress)
    (simp_all add: ExecuteAsync_def Enqueue_def sample_pool_def SynchronisedQueue_new_def)

lemma stopped_step:
  "pool_step p p' \<Longrightarrow> endQueue (asyncQueue p) \<Longrightarrow> endQueue (asyncQueue p') \<and> taken p' = taken p"
  by (auto elim!: pool_stepE simp: ExecuteAsync_def Enqueue_def pool_Stop_def Stop_def worker_Dequeue_def
      worker_Execute_def Dequeue_def split: if_splits option.splits worker.splits)

text \<open>
  Once the queue has been stopped, no thread takes another operation, whatever happens: the
  operations that are still queued are never executed.
\<close>

theorem stopped_pool_drops:
  assumes "pool_step\<^sup>*\<^sup>* p p'" and "endQueue (asyncQueue p)"
  shows "taken p' = taken p"
proof -
  have "endQueue (asyncQueue p') \<and> taken p' = taken p"
    using assms by (induction rule: rtranclp_induct) (auto dest: stopped_step)
  then show ?thesis ..
qed

theorem stopped_pool_drops_witness:
  "let p = pool_Stop (snd (ExecuteAsync ''a'' sample_pool)) in
     queued p = [''a''] \<and> (\<forall>p'. pool_step\<^sup>*\<^sup>* p p' \<longrightarrow> taken p' = [])"
proof -
  let ?p = "pool_Stop (snd (ExecuteAsync ''a'' sample_pool))"
  have stopped: "endQueue (asyncQueue ?p)" and "taken ?p = []" "queued ?p = [''a'']"
    by (simp_all add: pool_Stop_def Stop_def ExecuteAsync_def sample_pool_def)
  note \<open>taken ?p = []\<close> \<open>queued ?p = [''a'']\<close>
  moreover have "taken p' = taken ?p" if "pool_step\<^sup>*\<^sup>* ?p p'" for p'
    using that by (rule stopped_pool_drops) (rule stopped)
  ultimately show ?thesis unfolding Let_def by metis
qed

end
