(* ===== verification/Share_Store.thy ===== *)
theory Share_Store
  imports Hex Work_Queue
begin

text \<open>
  The store of submitted shares and its upload to the database: \<open>DataMgr/Share.h\<close>, \<open>DataMgr.h\<close> and
  \<open>DataMgr.cpp\<close>. The options \<open>ShareUploadMinCount\<close> and \<open>ShareUploadBulkCount\<close> are arguments.
\<close>

section \<open>Shares and the store (Share.h, DataMgr.h)\<close>

record Share =
  host :: uint64
  username :: string
  share_result :: bool
  reason :: string
  share_time :: uint64
  share_diff :: uint64

definition Share_new :: "uint32 \<Rightarrow> string \<Rightarrow> bool \<Rightarrow> string \<Rightarrow> uint64 \<Rightarrow> uint64 \<Rightarrow> Share" where
  "Share_new ahost ausername aresult areason atime adiff =
     \<lparr>host = ucast ahost, username = ausername, share_result = aresult, reason = areason,
      share_time = atime, share_diff = adiff\<rparr>"

record DataMgr =
  datastore :: "Share list"

definition Push :: "Share \<Rightarrow> DataMgr \<Rightarrow> DataMgr" where
  "Push data m = m\<lparr>datastore := datastore m @ [data]\<rparr>"

text \<open>The front of an empty deque is undefined behaviour.\<close>

definition Pop :: "DataMgr \<Rightarrow> (Share \<times> DataMgr) result" where
  "Pop m = (case datastore m of
      [] \<Rightarrow> Inl (Undefined ''front of an empty deque'')
    | share # rest \<Rightarrow> Inr (share, m\<lparr>datastore := rest\<rparr>))"

definition dm_Size :: "DataMgr \<Rightarrow> uint64" where
  "dm_Size m = of_nat (length (datastore m))"

interpretation share_queue: fifo datastore Push "\<lambda>m. case Pop m of Inr p \<Rightarrow> Some p | Inl _ \<Rightarrow> None" "\<lambda>_. True"
  by unfold_locales (auto simp: Push_def Pop_def)

section \<open>Upload (DataMgr.cpp)\<close>

definition insert_header :: string where
  "insert_header = ''INSERT INTO `shares` (`rem_host`, `username`, `our_result`, `upstream_result`, `reason`, `time`, `difficulty`) VALUES ''"

abbreviation apostrophe :: string where "apostrophe \<equiv> [CHR 0x27]"

definition share_row :: "Share \<Rightarrow> string" where
  "share_row s =
     FS [''(INET_NTOA('', show_u (host s), ''), '', apostrophe, c_str (username s), apostrophe, '', '',
         (if share_result s then ''1'' else ''0''), '', 0, '', apostrophe, c_str (reason s), apostrophe,
         '', FROM_UNIXTIME('', show_u (share_time s), ''), '', show_u (share_diff s), '')'']"

text \<open>The inner loop, from index \<open>i\<close> on, with the query built so far.\<close>

function bulk_loop :: "nat \<Rightarrow> nat \<Rightarrow> string \<Rightarrow> DataMgr \<Rightarrow> (string \<times> DataMgr) result" where
  "bulk_loop bulkCount i query m =
     (if i < bulkCount
      then bindR (Pop m) (\<lambda>(share, m).
        let query = query @ share_row share in
        if dm_Size m = 0 then Inr (query, m)
        else bulk_loop bulkCount (i + 1) (if i \<noteq> bulkCount - 1 then query @ '','' else query) m)
      else Inr (query, m))"
  by pat_completeness auto
termination
  by (relation "measure (\<lambda>(bulk, i, q, m). bulk - i)") auto

declare bulk_loop.simps [simp del]

text \<open>
  The outer loop hands every query to \<^verbatim>\<open>ExecuteAsync\<close>. It may run forever: then the value is \<open>None\<close>.
\<close>

partial_function (option) upload_loop ::
    "uint32 \<Rightarrow> uint32 \<Rightarrow> DataMgr \<Rightarrow> string pool \<Rightarrow> (DataMgr \<times> string pool) result option" where
  "upload_loop minCount bulkCount m db =
     (if dm_Size m > ucast minCount
      then case bulk_loop (unat bulkCount) 0 insert_header m of
          Inl e \<Rightarrow> Some (Inl e)
        | Inr (query, m) \<Rightarrow> upload_loop minCount bulkCount m (snd (ExecuteAsync (c_str query) db))
      else Some (Inr (m, db)))"

definition Upload :: "uint32 \<Rightarrow> uint32 \<Rightarrow> DataMgr \<Rightarrow> string pool \<Rightarrow> (DataMgr \<times> string pool) result option" where
  "Upload minCount bulkCount m db = upload_loop minCount bulkCount m db"

section \<open>What one query holds\<close>

definition bulk_query :: "Share list \<Rightarrow> string" where
  "bulk_query shares = insert_header @ join_with '','' (map share_row shares)"

lemma join_with_Cons: "ss \<noteq> [] \<Longrightarrow> join_with sep (s # ss) = s @ sep @ join_with sep ss"
  by (cases ss) simp_all

lemma dm_Size_0: "length (datastore m) < 2 ^ 64 \<Longrightarrow> dm_Size m = 0 \<longleftrightarrow> datastore m = []"
  unfolding dm_Size_def word_unat_eq_iff by (subst unat_of_nat_fits) simp_all

lemma bulk_loop_done: "bulk_loop n n query m = Inr (query, m)"
  by (subst bulk_loop.simps) simp

text \<open>
  The loop takes as many shares as it may and as there are, and puts a comma between two rows and
  nowhere else.
\<close>

lemma bulk_loop_eq:
  "datastore m = s # ss \<Longrightarrow> length (s # ss) < 2 ^ 64 \<Longrightarrow>
   bulk_loop (i + Suc n) i query m
   = Inr (query @ join_with '','' (map share_row (take (Suc n) (s # ss))),
          m\<lparr>datastore := drop (Suc n) (s # ss)\<rparr>)"
proof (induction n arbitrary: i query m s ss)
  case 0
  then show ?case
    using bulk_loop_done [of "Suc i"] by (subst bulk_loop.simps) (simp add: Pop_def Let_def)
next
  case (Suc n)
  show ?case
  proof (cases ss)
    case Nil
    with Suc.prems show ?thesis by (subst bulk_loop.simps) (simp add: Pop_def dm_Size_def)
  next
    case (Cons s' ss')
    let ?m = "m\<lparr>datastore := ss\<rparr>"
    have "dm_Size ?m \<noteq> 0" using Suc.prems dm_Size_0 [of ?m] by (simp add: Cons)
    moreover have "bulk_loop (i + 1 + Suc n) (i + 1) (query @ share_row s @ '','') ?m
        = Inr ((query @ share_row s @ '','') @ join_with '','' (map share_row (take (Suc n) ss)),
            ?m\<lparr>datastore := drop (Suc n) ss\<rparr>)"
      using Suc.IH [of ?m s' ss' "i + 1"] Suc.prems by (simp add: Cons)
    ultimately have "bulk_loop (i + Suc (Suc n)) i query m
        = Inr ((query @ share_row s @ '','') @ join_with '','' (map share_row (take (Suc n) ss)),
            ?m\<lparr>datastore := drop (Suc n) ss\<rparr>)"
      using Suc.prems by (subst bulk_loop.simps) (simp add: Pop_def)
    then show ?thesis by (simp add: join_with_Cons Cons)
  qed
qed

lemma bulk_query_loop:
  assumes "datastore m \<noteq> []" and "length (datastore m) < 2 ^ 64" and "0 < n"
  shows "bulk_loop n 0 insert_header m
    = Inr (bulk_query (take n (datastore m)), m\<lparr>datastore := drop n (datastore m)\<rparr>)"
proof -
  from assms(1) obtain s ss where "datastore m = s # ss" by (cases "datastore m") auto
  moreover from assms(3) obtain k where "n = Suc k" by (cases n) auto
  ultimately show ?thesis
    using assms(2) bulk_loop_eq [of m s ss 0 k insert_header] by (simp add: bulk_query_def)
qed

section \<open>The whole upload\<close>

text \<open>What one round leaves, and the chunks of all rounds.\<close>

function chunks :: "nat \<Rightarrow> nat \<Rightarrow> Share list \<Rightarrow> Share list list" where
  "chunks minCount bulk xs =
     (if bulk > 0 \<and> length xs > minCount
      then take bulk xs # chunks minCount bulk (drop bulk xs) else [])"
  by pat_completeness auto
termination
  by (relation "measure (\<lambda>(a, b, xs). length xs)") auto

declare chunks.simps [simp del]

lemma concat_chunks:
  "0 < bulk \<Longrightarrow> \<exists>rest. concat (chunks mc bulk xs) @ rest = xs \<and> length rest \<le> mc"
proof (induction mc bulk xs rule: chunks.induct)
  case (1 mc bulk xs)
  show ?case
  proof (cases "length xs > mc")
    case True
    with 1 obtain rest where rest: "concat (chunks mc bulk (drop bulk xs)) @ rest = drop bulk xs"
        "length rest \<le> mc"
      by blast
    with True 1(2) have "concat (chunks mc bulk xs) @ rest = xs"
      by (subst chunks.simps) simp
    with rest(2) show ?thesis by blast
  next
    case False
    then show ?thesis by (subst chunks.simps) simp
  qed
qed

lemma chunks_bounds:
  "c \<in> set (chunks mc bulk xs) \<Longrightarrow> c \<noteq> [] \<and> length c \<le> bulk"
proof (induction mc bulk xs rule: chunks.induct)
  case (1 mc bulk xs)
  from 1(2) show ?case
    using 1(1) by (subst (asm) chunks.simps) (auto split: if_splits)
qed

definition send_all :: "string list \<Rightarrow> string pool \<Rightarrow> string pool" where
  "send_all qs db = fold (\<lambda>q db. snd (ExecuteAsync (c_str q) db)) qs db"

lemma upload_loop_eq:
  assumes "0 < bulkCount"
  shows "length (datastore m) < 2 ^ 64 \<Longrightarrow>
    upload_loop minCount bulkCount m db
    = (let cs = chunks (unat minCount) (unat bulkCount) (datastore m) in
       Some (Inr (m\<lparr>datastore := drop (length (concat cs)) (datastore m)\<rparr>, send_all (map bulk_query cs) db)))"
proof (induction "length (datastore m)" arbitrary: m db rule: less_induct)
  case less
  let ?b = "unat bulkCount" and ?mc = "unat minCount"
  have b: "0 < ?b" using assms by (simp add: word_less_nat_alt)
  have gt: "dm_Size m > ucast minCount \<longleftrightarrow> length (datastore m) > ?mc"
  proof -
    have "unat (ucast minCount :: uint64) = ?mc"
      using unsigned_less [of minCount, where ?'a = nat] by simp
    then show ?thesis using less.prems by (simp add: dm_Size_def word_less_nat_alt)
  qed
  show ?case
  proof (cases "length (datastore m) > ?mc")
    case False
    then have "upload_loop minCount bulkCount m db = Some (Inr (m, db))"
      by (subst upload_loop.simps) (simp add: gt)
    moreover have "chunks ?mc ?b (datastore m) = []" using False by (subst chunks.simps) simp
    ultimately show ?thesis by (simp add: send_all_def)
  next
    case True
    let ?m = "m\<lparr>datastore := drop ?b (datastore m)\<rparr>"
    let ?q = "bulk_query (take ?b (datastore m))"
    have ne: "datastore m \<noteq> []" using True by auto
    have "upload_loop minCount bulkCount m db
        = upload_loop minCount bulkCount ?m (snd (ExecuteAsync (c_str ?q) db))"
      using True by (subst upload_loop.simps) (simp add: gt bulk_query_loop [OF ne less.prems b])
    also have "\<dots> = (let cs = chunks ?mc ?b (datastore ?m) in
        Some (Inr (?m\<lparr>datastore := drop (length (concat cs)) (datastore ?m)\<rparr>,
          send_all (map bulk_query cs) (snd (ExecuteAsync (c_str ?q) db)))))"
      using ne b less.prems by (intro less.hyps) (simp_all add: min_def)
    also have "\<dots> = (let cs = take ?b (datastore m) # chunks ?mc ?b (datastore ?m) in
        Some (Inr (m\<lparr>datastore := drop (length (concat cs)) (datastore m)\<rparr>, send_all (map bulk_query cs) db)))"
      by (simp add: Let_def send_all_def add.commute min_def)
    also have "take ?b (datastore m) # chunks ?mc ?b (datastore ?m) = chunks ?mc ?b (datastore m)"
      using True b by (subst (2) chunks.simps) simp
    finally show ?thesis .
  qed
qed

lemma queued_send_all: "queued (send_all qs db) = queued db @ map c_str qs"
  by (induction qs arbitrary: db) (simp_all add: send_all_def ExecuteAsync_def)

text \<open>
  Whatever the numbers, what the upload takes from the store it puts into queries, in order; this needs
  no bound on the number of shares.
\<close>

lemma bulk_loop_moves:
  "bulk_loop n i query m = Inr (query', m') \<Longrightarrow>
   \<exists>c. datastore m = c @ datastore m' \<and> query' = query @ join_with '','' (map share_row c) \<and> (i < n \<longrightarrow> c \<noteq> [])"
proof (induction n i query m arbitrary: query' m' rule: bulk_loop.induct)
  case (1 n i query m)
  show ?case
  proof (cases "i < n")
    case False
    then show ?thesis using "1.prems" by (subst (asm) bulk_loop.simps) simp
  next
    case True
    from "1.prems" True obtain s ss where m: "datastore m = s # ss"
      by (subst (asm) bulk_loop.simps) (auto simp: Pop_def split: list.splits)
    let ?m = "m\<lparr>datastore := ss\<rparr>" and ?q = "query @ share_row s"
    show ?thesis
    proof (cases "dm_Size ?m = 0")
      case True
      then have "query' = ?q \<and> m' = ?m"
        using "1.prems" \<open>i < n\<close> m by (subst (asm) bulk_loop.simps) (simp add: Pop_def)
      then show ?thesis using m by (intro exI [of _ "[s]"]) simp
    next
      case False
      let ?q' = "if i \<noteq> n - 1 then ?q @ '','' else ?q"
      have run: "bulk_loop n (i + 1) ?q' ?m = Inr (query', m')"
        using "1.prems" \<open>i < n\<close> m False unfolding bulk_loop.simps [of n i] by (simp add: Pop_def Let_def split: if_splits)
      from "1.IH" [OF \<open>i < n\<close> refl False run] obtain c where
        c: "datastore ?m = c @ datastore m'" "query' = ?q' @ join_with '','' (map share_row c)" "i + 1 < n \<longrightarrow> c \<noteq> []"
        by blast
      have "query' = query @ join_with '','' (map share_row (s # c))"
      proof (cases "i + 1 < n")
        case True
        with c(3) have "map share_row c \<noteq> []" by simp
        with True c(2) show ?thesis by (simp add: join_with_Cons)
      next
        case False
        with \<open>i < n\<close> have "i + 1 = n" by simp
        with run have "query' = ?q" by (auto simp: bulk_loop_done)
        moreover from this c(2) \<open>i + 1 = n\<close> have "join_with '','' (map share_row c) = []" by auto
        moreover from run \<open>i + 1 = n\<close> have "datastore m' = ss" by (auto simp: bulk_loop_done)
        then have "c = []" using c(1) by simp
        ultimately show ?thesis by simp
      qed
      with c(1) m show ?thesis by (intro exI [of _ "s # c"]) simp
    qed
  qed
qed

lemma Upload_sends:
  assumes "Upload minCount bulkCount m db = Some (Inr (m', db'))"
  shows "\<exists>cs. datastore m = concat cs @ datastore m' \<and> db' = send_all (map bulk_query cs) db"
proof -
  have "case r of Inl e \<Rightarrow> True | Inr (m', db') \<Rightarrow>
      \<exists>cs. datastore m = concat cs @ datastore m' \<and> db' = send_all (map bulk_query cs) db"
    if "upload_loop minCount bulkCount m db = Some r" for r
  proof (induction rule: upload_loop.raw_induct [OF _ that])
    case (1 loop minCount bulkCount m db r)
    show ?case
    proof (cases "dm_Size m > ucast minCount")
      case True
      show ?thesis
      proof (cases "bulk_loop (unat bulkCount) 0 insert_header m")
        case (Inr p)
        obtain q m1 where p: "p = (q, m1)" by (cases p)
        from bulk_loop_moves [of "unat bulkCount" 0 insert_header m q m1] Inr p obtain c
          where c: "datastore m = c @ datastore m1" "q = bulk_query c" by (auto simp: bulk_query_def)
        have "loop minCount bulkCount m1 (snd (ExecuteAsync (c_str q) db)) = Some r"
          using 1(2) True Inr p by simp
        from 1(1) [OF this] c show ?thesis
          by (auto split: sum.splits) (metis concat.simps(2) fold_simps(2) list.simps(9) send_all_def)
      qed (use 1(2) True in auto)
    qed (use 1(2) in \<open>auto simp: send_all_def intro!: exI [of _ "[]"]\<close>)
  qed
  from this [of "Inr (m', db')"] assms show ?thesis by (simp add: Upload_def)
qed

lemma Upload_moves:
  assumes "Upload minCount bulkCount m db = Some (Inr (m', db'))"
  shows "\<exists>cs. datastore m = concat cs @ datastore m' \<and> queued db' = queued db @ map (\<lambda>c. c_str (bulk_query c)) cs"
  using Upload_sends [OF assms] by (auto simp: queued_send_all)

lemma send_all_runs: "pool_step\<^sup>*\<^sup>* db (send_all qs db)"
proof (induction qs arbitrary: db)
  case (Cons q qs)
  from Cons.IH [of "snd (ExecuteAsync (c_str q) db)"] show ?case
    unfolding send_all_def by simp (metis converse_rtranclp_into_rtranclp step_enqueue)
qed (simp add: send_all_def)

section \<open>Properties\<close>


definition sample_share :: Share where
  "sample_share = Share_new 2130706433 ''worker'' True [] 1400000000 16"



text \<open>
  With a bulk count of 0, which the configuration allows, the upload never ends once more than
  \<open>ShareUploadMinCount\<close> shares are stored: it queues a query without rows again and again.
\<close>

theorem Upload_zero_diverges:
  assumes "dm_Size m > ucast minCount"
  shows "Upload minCount 0 m db = None"
proof -
  have "bulkCount = 0 \<longrightarrow> \<not> dm_Size m > ucast minCount"
    if "upload_loop minCount bulkCount m db = Some y" for bulkCount m db y
    by (rule upload_loop.raw_induct [OF _ that])
      (auto simp: bulk_loop_done split: if_splits)
  then show ?thesis
    using assms by (cases "upload_loop minCount 0 m db") (auto simp: Upload_def)
qed

theorem Upload_zero_diverges_witness:
  "Upload 2 0 \<lparr>datastore = [sample_share, sample_share, sample_share]\<rparr> sample_pool = None"
  by (rule Upload_zero_diverges) (simp add: dm_Size_def)

end
