(* ===== verification/Pool_State.thy ===== *)
theory Pool_State
  imports Effects Bitcoin Json_Rpc Share_Store
begin

text \<open>
  The state of the pool while it runs, one record for each class: jobs and share limiters
  (\<open>Stratum/Job.h\<close>, \<open>ShareLimiter.h\<close>), clients (\<open>Stratum/Client.h\<close>), the stratum server
  (\<open>Stratum/Server.h\<close>), the network manager (\<open>NetworkMgr/NetworkMgr.h\<close>), and the singletons they use.
  What lies outside the sources is the environment \<open>env\<close>.
\<close>

section \<open>Objects\<close>

text \<open>A block template is shared and not changed after it has been published, so a job holds its value.\<close>

record Job =
  job_diff :: uint64
  job_block :: Block
  coinbase1 :: BinaryData
  coinbase2 :: BinaryData
  job_shares :: "uint64 set"
  blockTarget :: int
  jobTarget :: int

record ShareLimiterRecord =
  rec_diff :: uint64
  rec_time :: uint64

record ShareLimiter =
  sl_shares :: "ShareLimiterRecord list"
  lastRetargetTime :: uint64
  lastRetargetShares :: uint64
  startTime :: uint64
  totalShares :: uint64
  totalBadShares :: uint64

record Client =
  c_ip :: uint32
  c_id :: uint64
  c_workers :: "string set"
  c_subscribed :: bool
  c_extranonce :: uint32
  c_jobs :: "uint64 \<rightharpoonup> Job"
  c_jobid :: uint32
  c_diff :: uint64
  c_minDiff :: uint64
  c_shareLimiter :: ShareLimiter
  c_recvMessage :: string

record BanInfo =
  ban_ip :: uint32
  ban_timestamp :: uint64

text \<open>The server's set of clients is ordered by their numbers and is the set of these numbers here.\<close>

record StratumServer =
  s_clients :: "uint64 set"
  s_clientId :: uint64
  s_bans :: "BanInfo list"
  s_currentWork :: "Block option"
  s_extranonce :: uint32

text \<open>
  The network manager: its subscribers (each is the stratum server's \<^verbatim>\<open>BlockNotify\<close>) are counted;
  \<open>n_calls\<close> counts the queries made so far, because a daemon may answer the same query differently at
  another time.
\<close>

record NetworkMgr =
  n_binds :: nat
  n_blockHeight :: uint32
  n_cons :: "JSONRPC list"
  n_curBlockTmpl :: "Block option"
  n_calls :: nat

text \<open>Handlers that have been posted to the I/O service.\<close>

datatype task = TaskSendJob uint64 bool | TaskBlockNotify "Block option" bool | TaskSendMessage uint64 JSON

text \<open>
  Asynchronous operations that wait for completion: a connection for the client with the given number, data
  from a client, and the three timers. At most one operation of each kind is started at a time.
\<close>

datatype io_op = IoAccept uint64 | IoRead uint64 | UploadTimer | BlockCheckTimer | BlockNotifyTimer

text \<open>
  Everything together. A client object outlives its removal from the server's set as long as a
  handler refers to it; \<open>objs\<close> holds the objects by their numbers. \<open>wire\<close> is what was written to the
  clients' sockets, \<open>closed\<close> the clients whose socket has been closed, \<open>pending\<close> the operations under way.
\<close>

record world =
  objs :: "uint64 \<rightharpoonup> Client"
  server :: StratumServer
  net :: NetworkMgr
  dataMgr :: DataMgr
  database :: "string pool"
  posted :: "task list"
  wire :: "(uint64 \<times> string) list"
  closed :: "uint64 set"
  pending :: "io_op set"

section \<open>Environment\<close>

text \<open>The options that the modelled code reads.\<close>

record Config =
  RetargetInterval :: uint32
  RetargetSharesThreshold :: uint32
  RetargetTimeBuffer :: uint32
  RetargetTimePerShare :: double
  RetargetVariance :: uint32
  RetargetStartingDiff :: uint32
  RetargetMinDiff :: uint32
  RetargetMaxDiff :: uint32
  MiningAddress :: string
  BitcoinRPC :: "string list"
  StratumRedirectHost :: string
  StratumPort :: uint16
  ShareUploadMinCount :: uint32
  ShareUploadBulkCount :: uint32

text \<open>
  SHA-256; the clock (one reading for one handler); \<^verbatim>\<open>boost::split\<close>, Base64, the resolver and the
  attempt to connect to an address; listening on a port, which may throw; what happens on the socket of a daemon's connection when the \<open>t\<close>-th
  query sends a request; the rows MySQL returns for a query (\<open>None\<close> for an error) with
  nullable text columns; MySQL's escaping; Spirit's tokens; \<^verbatim>\<open>boost::lexical_cast<uint32>\<close>; the text of a \<^verbatim>\<open>double\<close>; and the
  value that a variable happens to have which the code does not initialise.
\<close>

record env =
  e_cfg :: Config
  e_sha :: hash_fn
  e_now :: uint32
  e_explode :: "string \<Rightarrow> string \<Rightarrow> string list"
  e_base64 :: "string \<Rightarrow> string"
  e_resolve :: "string \<Rightarrow> string \<Rightarrow> string list result"
  e_connect :: "string \<Rightarrow> string option"
  e_listen :: "uint16 \<Rightarrow> unit result"
  e_http :: "nat \<Rightarrow> JSONRPC \<Rightarrow> string \<Rightarrow> exchange"
  e_mysql :: "string \<Rightarrow> string option list list option"
  e_escape :: "string \<Rightarrow> string"
  e_lexical_cast :: "string \<Rightarrow> uint32 result"
  e_qi :: qi
  e_show_double :: "double \<Rightarrow> string"
  e_junk :: uint32

type_synonym 'a action = "(world, 'a) eff"

section \<open>Asynchronous operations\<close>

definition start_io :: "io_op \<Rightarrow> unit action" where
  "start_io op = modE (\<lambda>w. w\<lparr>pending := insert op (pending w)\<rparr>)"

text \<open>The I/O service takes an operation that has completed and calls its handler.\<close>

definition finish_io :: "io_op \<Rightarrow> world \<Rightarrow> world" where
  "finish_io op w = w\<lparr>pending := pending w - {op}\<rparr>"

lemma finish_io_fields [simp]:
  "objs (finish_io op w) = objs w" "server (finish_io op w) = server w" "net (finish_io op w) = net w"
  "dataMgr (finish_io op w) = dataMgr w" "database (finish_io op w) = database w" "posted (finish_io op w) = posted w"
  "wire (finish_io op w) = wire w" "pending (finish_io op w) = pending w - {op}"
  by (simp_all add: finish_io_def)

lemma start_io_apply [eff_simps]: "start_io op w = (w\<lparr>pending := insert op (pending w)\<rparr>, Inr ())"
  by (simp add: start_io_def modE_def)

section \<open>Access to a client object\<close>

definition get_client :: "uint64 \<Rightarrow> Client action" where
  "get_client cid w =
     (case objs w cid of
        Some c \<Rightarrow> (w, Inr c) | None \<Rightarrow> (w, Inl (Undefined ''no such object'')))"

definition mod_client :: "uint64 \<Rightarrow> (Client \<Rightarrow> Client) \<Rightarrow> unit action" where
  "mod_client cid f = modE (\<lambda>w. w\<lparr>objs := (objs w)(cid := map_option f (objs w cid))\<rparr>)"

lemma get_client_apply [eff_simps]: "objs w cid = Some c \<Longrightarrow> get_client cid w = (w, Inr c)"
  by (simp add: get_client_def)

lemma bindE_get_client [eff_simps]: "objs w cid = Some c \<Longrightarrow> bindE (get_client cid) f w = f c w"
  by (simp add: bindE_def get_client_def)

lemma mod_client_apply [eff_simps]:
  "objs w cid = Some c \<Longrightarrow> mod_client cid f w = (w\<lparr>objs := (objs w)(cid \<mapsto> f c)\<rparr>, Inr ())"
  by (simp add: mod_client_def modE_def)

lemma bindE_mod_client [eff_simps]:
  "objs w cid = Some c \<Longrightarrow> bindE (mod_client cid f) g w = g () (w\<lparr>objs := (objs w)(cid \<mapsto> f c)\<rparr>)"
  by (simp add: bindE_def mod_client_def modE_def)

text \<open>The map of client objects is a keyed store, and so is the map of a client's jobs.\<close>

interpretation client_jobs: keyed_store c_jobs "\<lambda>k j c. c\<lparr>c_jobs := (c_jobs c)(k \<mapsto> j)\<rparr>"
  by unfold_locales simp

section \<open>Reading a member of a JSON document\<close>

text \<open>
  \<^verbatim>\<open>node[key]\<close> used as a value; that the key is created in the local copy when it is missing does not
  show.
\<close>

definition get_field :: "string \<Rightarrow> JSON \<Rightarrow> JSON result" where
  "get_field k j = bindR (index_key k j) (\<lambda>(x, _). Inr x)"

section \<open>A small instance\<close>

text \<open>A configuration with the default values, and an environment in which everything answers nothing.\<close>

definition sample_config :: Config where
  "sample_config = \<lparr>RetargetInterval = 20, RetargetSharesThreshold = 20, RetargetTimeBuffer = 300,
     RetargetTimePerShare = 4, RetargetVariance = 40, RetargetStartingDiff = 2, RetargetMinDiff = 1,
     RetargetMaxDiff = 1000000, MiningAddress = ''00'', BitcoinRPC = [], StratumRedirectHost = ''0.0.0.0'', StratumPort = 3333,
     ShareUploadMinCount = 2, ShareUploadBulkCount = 50\<rparr>"

definition sample_env :: env where
  "sample_env = \<lparr>e_cfg = sample_config, e_sha = (\<lambda>x. take 32 (x @ replicate 32 0)), e_now = 1400000000,
     e_explode = (\<lambda>s d. [s]), e_base64 = (\<lambda>s. s), e_resolve = (\<lambda>h p. Inr [h]), e_connect = (\<lambda>e. None), e_listen = (\<lambda>p. Inr ()),
     e_http = (\<lambda>t rpc. sample_exchange), e_mysql = (\<lambda>q. None), e_escape = (\<lambda>s. s),
     e_lexical_cast = (\<lambda>s. Inl (Exception ''bad_lexical_cast'')), e_qi = sample_qi, e_show_double = (\<lambda>d. []), e_junk = 0\<rparr>"

end
