(* ===== verification/Mysql_Values.thy ===== *)
theory Mysql_Values
  imports Byte_Buffer Hex
begin

text \<open>
  Values on their way to and from MySQL: the fields and rows of a result (\<open>shared/MySQL/Field.h\<close>,
  \<open>QueryResult.h\<close>, \<open>QueryResult.cpp\<close>) and the parameters of a prepared statement
  (\<open>PreparedStatement.h\<close>, \<open>PreparedStatement.cpp\<close>). What the client library delivers is an argument;
  that memory is given back is not modelled.
\<close>

section \<open>Memory\<close>

definition bytes_of :: "string \<Rightarrow> BinaryData" where
  "bytes_of s = map (\<lambda>c. of_nat (of_char c)) s"

definition text_of :: "BinaryData \<Rightarrow> string" where
  "text_of bs = map (\<lambda>b. char_of (unat b)) bs"

lemma text_of_bytes_of [simp]: "text_of (bytes_of s) = s"
proof -
  have "unat (of_nat (of_char c) :: byte) = of_char c" for c
  proof -
    have "of_char c mod 256 < (256 :: nat)" by (rule mod_less_divisor) simp
    then show ?thesis by (subst unat_of_nat_fits) simp_all
  qed
  then show ?thesis by (simp add: text_of_def bytes_of_def comp_def)
qed

text \<open>Reading an integer from memory, which has to have enough bytes.\<close>

definition load :: "BinaryData \<Rightarrow> 'a::len word result" where
  "load m =
     (if length m < sizeof (0 :: 'a word) then Inl (Undefined ''read outside the buffer'')
      else bindR (Read (ByteBuffer_of (take (sizeof (0 :: 'a word)) m))) (\<lambda>(x, _). Inr x))"

section \<open>Fields (Field.h)\<close>

datatype enum_field_types =
  MYSQL_TYPE_DECIMAL | MYSQL_TYPE_TINY | MYSQL_TYPE_SHORT | MYSQL_TYPE_LONG | MYSQL_TYPE_FLOAT
| MYSQL_TYPE_DOUBLE | MYSQL_TYPE_NULL | MYSQL_TYPE_TIMESTAMP | MYSQL_TYPE_LONGLONG | MYSQL_TYPE_INT24
| MYSQL_TYPE_DATE | MYSQL_TYPE_TIME | MYSQL_TYPE_DATETIME | MYSQL_TYPE_YEAR | MYSQL_TYPE_BIT
| MYSQL_TYPE_NEWDECIMAL | MYSQL_TYPE_TINY_BLOB | MYSQL_TYPE_MEDIUM_BLOB | MYSQL_TYPE_LONG_BLOB
| MYSQL_TYPE_BLOB | MYSQL_TYPE_VAR_STRING | MYSQL_TYPE_STRING | MYSQL_TYPE_OTHER

text \<open>The value of a field is \<open>None\<close> for a null pointer.\<close>

record Field =
  f_length :: uint32
  f_value :: "BinaryData option"
  f_type :: enum_field_types
  f_raw :: bool

text \<open>The constructor leaves the flag \<open>f_raw\<close> as it was.\<close>

definition Field_new :: "bool \<Rightarrow> Field" where
  "Field_new junk = \<lparr>f_length = 0, f_value = None, f_type = MYSQL_TYPE_NULL, f_raw = junk\<rparr>"

definition CleanUp :: "Field \<Rightarrow> Field" where
  "CleanUp f = f\<lparr>f_value := None\<rparr>"

definition field_SetValue :: "string option \<Rightarrow> enum_field_types \<Rightarrow> Field \<Rightarrow> Field" where
  "field_SetValue str ty f =
     (let f = (if f_value f \<noteq> None then CleanUp f else f);
          f = (case str of
                 Some s \<Rightarrow> f\<lparr>f_value := Some (bytes_of (c_str s)), f_length := of_nat (length (c_str s))\<rparr>
               | None \<Rightarrow> f)
      in f\<lparr>f_type := ty, f_raw := False\<rparr>)"

text \<open>\<open>m\<close> is the memory at the pointer; copying more bytes than it has is undefined.\<close>

definition SetByteValue :: "BinaryData option \<Rightarrow> nat \<Rightarrow> enum_field_types \<Rightarrow> uint32 \<Rightarrow> Field \<Rightarrow> Field result" where
  "SetByteValue m sz ty len f =
     (let f = (if f_value f \<noteq> None then CleanUp f else f) in
      case m of
        Some bytes \<Rightarrow>
          if length bytes < sz then Inl (Undefined ''read outside the buffer'')
          else Inr (f\<lparr>f_value := Some (take sz bytes), f_length := len, f_type := ty, f_raw := True\<rparr>)
      | None \<Rightarrow> Inr (f\<lparr>f_type := ty, f_raw := True\<rparr>))"

text \<open>\<^verbatim>\<open>Get<T>\<close> of an integer type; \<^verbatim>\<open>boost::lexical_cast\<close> is an argument.\<close>

definition Get :: "(string \<Rightarrow> 'a::len word result) \<Rightarrow> Field \<Rightarrow> 'a word result" where
  "Get lexical_cast f =
     (case f_value f of
        None \<Rightarrow> Inl (Undefined ''null pointer'')
      | Some bytes \<Rightarrow> if f_raw f then load bytes else lexical_cast (text_of bytes))"

text \<open>\<^verbatim>\<open>Get<std::string>\<close>: as many bytes as the recorded length says, or the text up to its end.\<close>

definition Get_string :: "Field \<Rightarrow> string result" where
  "Get_string f =
     (case f_value f of
        None \<Rightarrow> Inl (Undefined ''null pointer'')
      | Some bytes \<Rightarrow>
          if f_raw f
          then if unat (f_length f) \<le> length bytes then Inr (text_of (take (unat (f_length f)) bytes))
               else Inl (Undefined ''read outside the buffer'')
          else Inr (text_of bytes))"

record MYSQL_FIELD =
  mf_type :: enum_field_types
  mf_max_length :: nat
  mf_unsigned :: bool

text \<open>\<open>sizeof_MYSQL_TIME\<close> is the size of a structure of the client library.\<close>

fun type_size :: "nat \<Rightarrow> nat \<Rightarrow> enum_field_types \<Rightarrow> nat" where
  "type_size sizeof_MYSQL_TIME max_length MYSQL_TYPE_NULL = 0"
| "type_size sizeof_MYSQL_TIME max_length MYSQL_TYPE_TINY = 1"
| "type_size sizeof_MYSQL_TIME max_length MYSQL_TYPE_YEAR = 2"
| "type_size sizeof_MYSQL_TIME max_length MYSQL_TYPE_SHORT = 2"
| "type_size sizeof_MYSQL_TIME max_length MYSQL_TYPE_INT24 = 4"
| "type_size sizeof_MYSQL_TIME max_length MYSQL_TYPE_LONG = 4"
| "type_size sizeof_MYSQL_TIME max_length MYSQL_TYPE_FLOAT = 4"
| "type_size sizeof_MYSQL_TIME max_length MYSQL_TYPE_DOUBLE = 8"
| "type_size sizeof_MYSQL_TIME max_length MYSQL_TYPE_LONGLONG = 8"
| "type_size sizeof_MYSQL_TIME max_length MYSQL_TYPE_BIT = 8"
| "type_size sizeof_MYSQL_TIME max_length MYSQL_TYPE_TIMESTAMP = sizeof_MYSQL_TIME"
| "type_size sizeof_MYSQL_TIME max_length MYSQL_TYPE_DATE = sizeof_MYSQL_TIME"
| "type_size sizeof_MYSQL_TIME max_length MYSQL_TYPE_TIME = sizeof_MYSQL_TIME"
| "type_size sizeof_MYSQL_TIME max_length MYSQL_TYPE_DATETIME = sizeof_MYSQL_TIME"
| "type_size sizeof_MYSQL_TIME max_length MYSQL_TYPE_TINY_BLOB = max_length + 1"
| "type_size sizeof_MYSQL_TIME max_length MYSQL_TYPE_MEDIUM_BLOB = max_length + 1"
| "type_size sizeof_MYSQL_TIME max_length MYSQL_TYPE_LONG_BLOB = max_length + 1"
| "type_size sizeof_MYSQL_TIME max_length MYSQL_TYPE_BLOB = max_length + 1"
| "type_size sizeof_MYSQL_TIME max_length MYSQL_TYPE_STRING = max_length + 1"
| "type_size sizeof_MYSQL_TIME max_length MYSQL_TYPE_VAR_STRING = max_length + 1"
| "type_size sizeof_MYSQL_TIME max_length MYSQL_TYPE_DECIMAL = 64"
| "type_size sizeof_MYSQL_TIME max_length MYSQL_TYPE_NEWDECIMAL = 64"
| "type_size sizeof_MYSQL_TIME max_length MYSQL_TYPE_OTHER = 0"

definition SizeForType :: "nat \<Rightarrow> MYSQL_FIELD \<Rightarrow> nat" where
  "SizeForType sizeof_MYSQL_TIME field = type_size sizeof_MYSQL_TIME (mf_max_length field) (mf_type field)"

section \<open>Result sets (QueryResult.h, QueryResult.cpp)\<close>

record ResultSet =
  rs_rowCount :: uint64
  rs_currentRow :: uint64
  rs_fieldCount :: uint32
  rs_rows :: "Field list list"

text \<open>The rows of a plain query: \<open>fetched\<close> are the rows that \<^verbatim>\<open>mysql_fetch_row\<close> returns, one after the other.\<close>

definition query_row :: "bool \<Rightarrow> uint32 \<Rightarrow> enum_field_types list \<Rightarrow> string option list \<Rightarrow> Field list result" where
  "query_row junk fieldCount types row =
     (if unat fieldCount \<le> length row \<and> unat fieldCount \<le> length types
      then Inr (map (\<lambda>i. field_SetValue (row ! i) (types ! i) (Field_new junk)) [0..<unat fieldCount])
      else Inl (Undefined ''index outside the array''))"

fun query_rows :: "bool \<Rightarrow> uint32 \<Rightarrow> enum_field_types list \<Rightarrow> string option list list \<Rightarrow> Field list list result" where
  "query_rows junk fieldCount types [] = Inr []"
| "query_rows junk fieldCount types (row # fetched) =
     bindR (query_row junk fieldCount types row) (\<lambda>fields.
     bindR (query_rows junk fieldCount types fetched) (\<lambda>rows. Inr (fields # rows)))"

definition ResultSet_query ::
    "bool \<Rightarrow> string option list list \<Rightarrow> enum_field_types list \<Rightarrow> uint64 \<Rightarrow> uint32 \<Rightarrow> ResultSet result" where
  "ResultSet_query junk fetched types rowCount fieldCount =
     bindR (query_rows junk fieldCount types fetched) (\<lambda>rows.
     Inr \<lparr>rs_rowCount = rowCount, rs_currentRow = 0, rs_fieldCount = fieldCount, rs_rows = rows\<rparr>)"

definition FetchRow :: "ResultSet \<Rightarrow> (Field list option \<times> ResultSet) result" where
  "FetchRow rs =
     (if rs_currentRow rs \<ge> rs_rowCount rs then Inr (None, rs)
      else if unat (rs_currentRow rs) < length (rs_rows rs)
      then Inr (Some (rs_rows rs ! unat (rs_currentRow rs)), rs\<lparr>rs_currentRow := rs_currentRow rs + 1\<rparr>)
      else Inl (Undefined ''index outside the vector''))"

text \<open>
  The rows of a prepared statement. A row that was fetched gives for every column whether it is null,
  its length, and what the library wrote into the buffer, whose size comes from the description of the
  column. \<open>sz\<close> are the sizes of the buffers.
\<close>

record column =
  col_null :: bool
  col_length :: uint32
  col_bytes :: BinaryData

text \<open>What is copied for a null in a column of strings is the literal \<^verbatim>\<open>""\<close>: a single byte.\<close>

definition stmt_field :: "bool \<Rightarrow> enum_field_types \<Rightarrow> nat \<Rightarrow> column \<Rightarrow> Field result" where
  "stmt_field junk ty sz col =
     (if \<not> col_null col then SetByteValue (Some (col_bytes col)) sz ty (col_length col) (Field_new junk)
      else if ty \<in> {MYSQL_TYPE_TINY_BLOB, MYSQL_TYPE_MEDIUM_BLOB, MYSQL_TYPE_LONG_BLOB, MYSQL_TYPE_BLOB,
                    MYSQL_TYPE_STRING, MYSQL_TYPE_VAR_STRING}
      then SetByteValue (Some [0]) sz ty (col_length col) (Field_new junk)
      else SetByteValue None sz ty (col_length col) (Field_new junk))"

text \<open>A row of \<open>n\<close> columns; a column without a description has no buffer.\<close>

fun stmt_row :: "bool \<Rightarrow> nat \<Rightarrow> nat \<Rightarrow> MYSQL_FIELD list \<Rightarrow> column list \<Rightarrow> Field list result" where
  "stmt_row junk time_size 0 _ _ = Inr []"
| "stmt_row junk time_size (Suc n) (mf # mfs) (col # cols) =
     bindR (stmt_field junk (mf_type mf) (SizeForType time_size mf) col) (\<lambda>f.
     bindR (stmt_row junk time_size n mfs cols) (\<lambda>fs. Inr (f # fs)))"
| "stmt_row junk time_size (Suc n) _ _ = Inl (Undefined ''null pointer'')"

text \<open>\<^verbatim>\<open>_NextSTMTRow\<close>: the code of \<^verbatim>\<open>mysql_stmt_fetch\<close>, in 8 bits.\<close>

definition NextSTMTRow :: "uint8 \<Rightarrow> bool" where
  "NextSTMTRow ret \<longleftrightarrow> ret = 0 \<or> ret = 101"

fun stmt_rows :: "bool \<Rightarrow> nat \<Rightarrow> nat \<Rightarrow> MYSQL_FIELD list \<Rightarrow> (uint8 \<times> column list) list \<Rightarrow> Field list list result" where
  "stmt_rows junk time_size n mfs [] = Inr []"
| "stmt_rows junk time_size n mfs ((ret, cols) # fetches) =
     (if NextSTMTRow ret
      then bindR (stmt_row junk time_size n mfs cols) (\<lambda>f.
           bindR (stmt_rows junk time_size n mfs fetches) (\<lambda>rows. Inr (f # rows)))
      else Inr [])"

text \<open>
  What the library does for a prepared statement: the description of the columns (\<open>None\<close> when there is
  no result), whether \<^verbatim>\<open>mysql_stmt_store_result\<close> and \<^verbatim>\<open>mysql_stmt_bind_result\<close> succeed, the number of rows, and
  the outcomes of \<^verbatim>\<open>mysql_stmt_fetch\<close> up to the end of the data.
\<close>

record stmt_result =
  sr_metadata :: "MYSQL_FIELD list option"
  sr_store_ok :: bool
  sr_bind_ok :: bool
  sr_num_rows :: uint64
  sr_fetches :: "(uint8 \<times> column list) list"

text \<open>The constructor; where it returns early, the number of rows keeps the value \<open>junk\<close>.\<close>

definition ResultSet_stmt :: "bool \<Rightarrow> uint64 \<Rightarrow> nat \<Rightarrow> stmt_result \<Rightarrow> uint32 \<Rightarrow> ResultSet result" where
  "ResultSet_stmt fjunk junk time_size res fieldCount =
     (let rs = \<lparr>rs_rowCount = junk, rs_currentRow = 0, rs_fieldCount = fieldCount, rs_rows = []\<rparr> in
      case sr_metadata res of
        None \<Rightarrow> Inr rs
      | Some mfs \<Rightarrow>
          if \<not> sr_store_ok res then Inr rs
          else if length mfs > unat fieldCount then Inl (Undefined ''index outside the array'')
          else if \<not> sr_bind_ok res then Inr rs
          else
            bindR (stmt_rows fjunk time_size (unat fieldCount) mfs (sr_fetches res)) (\<lambda>rows.
            Inr (rs\<lparr>rs_rowCount := sr_num_rows res, rs_rows := rows\<rparr>)))"

section \<open>Parameters of a prepared statement (PreparedStatement.h)\<close>

text \<open>The alternatives of the variant; a \<^verbatim>\<open>float\<close> and a \<^verbatim>\<open>double\<close> are their bits.\<close>

datatype MySQLValue =
  V_int8 "8 word" | V_int16 "16 word" | V_int32 "32 word" | V_int64 "64 word"
| V_uint8 uint8 | V_uint16 uint16 | V_uint32 uint32 | V_uint64 uint64
| V_float "32 word" | V_double "64 word" | V_string string

datatype MySQLValueTypes =
  MYSQL_UINT8 | MYSQL_UINT16 | MYSQL_UINT32 | MYSQL_UINT64 | MYSQL_INT8 | MYSQL_INT16 | MYSQL_INT32
| MYSQL_INT64 | MYSQL_FLOAT | MYSQL_DOUBLE | MYSQL_STRING | MYSQL_NULL

record PreparedStatementData =
  psd_value :: MySQLValue
  psd_type :: MySQLValueTypes

record PreparedStatement =
  ps_data :: "PreparedStatementData list"
  ps_index :: uint32

definition PreparedStatement_new :: "uint32 \<Rightarrow> PreparedStatement" where
  "PreparedStatement_new index = \<lparr>ps_data = [], ps_index = index\<rparr>"

text \<open>
  An element that \<^verbatim>\<open>resize\<close> adds is value-initialised: the first alternative of the variant and the first
  enumerator.
\<close>

definition psd_default :: PreparedStatementData where
  "psd_default = \<lparr>psd_value = V_int8 0, psd_type = MYSQL_UINT8\<rparr>"

definition ps_Set :: "uint8 \<Rightarrow> MySQLValue \<Rightarrow> MySQLValueTypes \<Rightarrow> PreparedStatement \<Rightarrow> PreparedStatement" where
  "ps_Set index v ty stmt =
     (let data = (if unat index \<ge> length (ps_data stmt)
                  then ps_data stmt @ replicate (unat index + 1 - length (ps_data stmt)) psd_default
                  else ps_data stmt)
      in stmt\<lparr>ps_data := data[unat index := \<lparr>psd_value = v, psd_type = ty\<rparr>]\<rparr>)"

definition SetUInt8 :: "uint8 \<Rightarrow> uint8 \<Rightarrow> PreparedStatement \<Rightarrow> PreparedStatement" where
  "SetUInt8 index x = ps_Set index (V_uint8 x) MYSQL_UINT8"

definition SetBool :: "uint8 \<Rightarrow> bool \<Rightarrow> PreparedStatement \<Rightarrow> PreparedStatement" where
  "SetBool index x = SetUInt8 index (if x then 1 else 0)"

definition SetUInt16 :: "uint8 \<Rightarrow> uint16 \<Rightarrow> PreparedStatement \<Rightarrow> PreparedStatement" where
  "SetUInt16 index x = ps_Set index (V_uint16 x) MYSQL_UINT16"

definition SetUInt32 :: "uint8 \<Rightarrow> uint32 \<Rightarrow> PreparedStatement \<Rightarrow> PreparedStatement" where
  "SetUInt32 index x = ps_Set index (V_uint32 x) MYSQL_UINT32"

definition SetUInt64 :: "uint8 \<Rightarrow> uint64 \<Rightarrow> PreparedStatement \<Rightarrow> PreparedStatement" where
  "SetUInt64 index x = ps_Set index (V_uint64 x) MYSQL_UINT64"

definition SetInt8 :: "uint8 \<Rightarrow> 8 word \<Rightarrow> PreparedStatement \<Rightarrow> PreparedStatement" where
  "SetInt8 index x = ps_Set index (V_int8 x) MYSQL_INT8"

definition SetInt16 :: "uint8 \<Rightarrow> 16 word \<Rightarrow> PreparedStatement \<Rightarrow> PreparedStatement" where
  "SetInt16 index x = ps_Set index (V_int16 x) MYSQL_INT16"

definition SetInt32 :: "uint8 \<Rightarrow> 32 word \<Rightarrow> PreparedStatement \<Rightarrow> PreparedStatement" where
  "SetInt32 index x = ps_Set index (V_int32 x) MYSQL_INT32"

definition SetInt64 :: "uint8 \<Rightarrow> 64 word \<Rightarrow> PreparedStatement \<Rightarrow> PreparedStatement" where
  "SetInt64 index x = ps_Set index (V_int64 x) MYSQL_INT64"

definition SetFloat :: "uint8 \<Rightarrow> 32 word \<Rightarrow> PreparedStatement \<Rightarrow> PreparedStatement" where
  "SetFloat index x = ps_Set index (V_float x) MYSQL_FLOAT"

definition SetDouble :: "uint8 \<Rightarrow> 64 word \<Rightarrow> PreparedStatement \<Rightarrow> PreparedStatement" where
  "SetDouble index x = ps_Set index (V_double x) MYSQL_DOUBLE"

definition SetString :: "uint8 \<Rightarrow> string \<Rightarrow> PreparedStatement \<Rightarrow> PreparedStatement" where
  "SetString index x = ps_Set index (V_string x) MYSQL_STRING"

definition SetNull :: "uint8 \<Rightarrow> PreparedStatement \<Rightarrow> PreparedStatement" where
  "SetNull index = ps_Set index (V_int64 0) MYSQL_NULL"

section \<open>The parameters on a connection (PreparedStatement.cpp)\<close>

text \<open>The members of the library's structure that the code sets.\<close>

record MYSQL_BIND =
  b_type :: enum_field_types
  b_buffer :: "BinaryData option"
  b_buffer_length :: nat
  b_is_null :: bool
  b_length :: "nat option"
  b_unsigned :: bool

definition bind_zero :: MYSQL_BIND where
  "bind_zero = \<lparr>b_type = MYSQL_TYPE_DECIMAL, b_buffer = None, b_buffer_length = 0, b_is_null = False,
     b_length = None, b_unsigned = False\<rparr>"

record ConnectionPreparedStatement =
  cps_stmt :: nat
  cps_bind :: "MYSQL_BIND list"
  cps_paramCount :: uint8

text \<open>The constructor narrows the number of parameters to 8 bits.\<close>

definition ConnectionPreparedStatement_new :: "nat \<Rightarrow> uint64 \<Rightarrow> ConnectionPreparedStatement" where
  "ConnectionPreparedStatement_new stmt param_count =
     (let n = ucast param_count in
      \<lparr>cps_stmt = stmt, cps_bind = replicate (unat n) bind_zero, cps_paramCount = n\<rparr>)"

definition set_bind :: "uint8 \<Rightarrow> (MYSQL_BIND \<Rightarrow> MYSQL_BIND) \<Rightarrow> ConnectionPreparedStatement \<Rightarrow> ConnectionPreparedStatement result" where
  "set_bind index f cps =
     (if unat index < length (cps_bind cps)
      then Inr (cps\<lparr>cps_bind := (cps_bind cps)[unat index := f (cps_bind cps ! unat index)]\<rparr>)
      else Inl (Undefined ''index outside the array''))"

definition cps_SetValue ::
    "uint8 \<Rightarrow> enum_field_types \<Rightarrow> BinaryData \<Rightarrow> bool \<Rightarrow> ConnectionPreparedStatement \<Rightarrow> ConnectionPreparedStatement result" where
  "cps_SetValue index ty bytes isUnsigned =
     set_bind index (\<lambda>b. b\<lparr>b_type := ty, b_buffer := Some bytes, b_buffer_length := 0, b_is_null := False,
       b_length := None, b_unsigned := isUnsigned\<rparr>)"

definition cps_SetString :: "uint8 \<Rightarrow> string \<Rightarrow> ConnectionPreparedStatement \<Rightarrow> ConnectionPreparedStatement result" where
  "cps_SetString index str =
     set_bind index (\<lambda>b. b\<lparr>b_type := MYSQL_TYPE_VAR_STRING, b_buffer := Some (bytes_of str @ [0]),
       b_buffer_length := length str + 1, b_is_null := False, b_length := Some (length str)\<rparr>)"

definition cps_SetNull :: "uint8 \<Rightarrow> ConnectionPreparedStatement \<Rightarrow> ConnectionPreparedStatement result" where
  "cps_SetNull index =
     set_bind index (\<lambda>b. b\<lparr>b_type := MYSQL_TYPE_NULL, b_buffer := None, b_buffer_length := 0, b_is_null := True,
       b_length := None\<rparr>)"

text \<open>One parameter; \<^verbatim>\<open>boost::get\<close> throws when the variant holds another alternative than the type says.\<close>

definition bad_get :: "'a result" where
  "bad_get = Inl (Exception ''boost::bad_get: failed value get using boost::get'')"

definition bind_one :: "uint8 \<Rightarrow> PreparedStatementData \<Rightarrow> ConnectionPreparedStatement \<Rightarrow> ConnectionPreparedStatement result" where
  "bind_one i d cps =
     (case (psd_type d, psd_value d) of
        (MYSQL_UINT8, V_uint8 x) \<Rightarrow> cps_SetValue i MYSQL_TYPE_TINY (word_bytes x) True cps
      | (MYSQL_UINT16, V_uint16 x) \<Rightarrow> cps_SetValue i MYSQL_TYPE_SHORT (word_bytes x) True cps
      | (MYSQL_UINT32, V_uint32 x) \<Rightarrow> cps_SetValue i MYSQL_TYPE_LONG (word_bytes x) True cps
      | (MYSQL_UINT64, V_uint64 x) \<Rightarrow> cps_SetValue i MYSQL_TYPE_LONGLONG (word_bytes x) True cps
      | (MYSQL_INT8, V_int8 x) \<Rightarrow> cps_SetValue i MYSQL_TYPE_TINY (word_bytes x) False cps
      | (MYSQL_INT16, V_int16 x) \<Rightarrow> cps_SetValue i MYSQL_TYPE_SHORT (word_bytes x) False cps
      | (MYSQL_INT32, V_int32 x) \<Rightarrow> cps_SetValue i MYSQL_TYPE_LONG (word_bytes x) False cps
      | (MYSQL_INT64, V_int64 x) \<Rightarrow> cps_SetValue i MYSQL_TYPE_LONGLONG (word_bytes x) False cps
      | (MYSQL_FLOAT, V_float x) \<Rightarrow> cps_SetValue i MYSQL_TYPE_FLOAT (word_bytes x) False cps
      | (MYSQL_DOUBLE, V_double x) \<Rightarrow> cps_SetValue i MYSQL_TYPE_DOUBLE (word_bytes x) False cps
      | (MYSQL_STRING, V_string x) \<Rightarrow> cps_SetString i x cps
      | (MYSQL_NULL, _) \<Rightarrow> cps_SetNull i cps
      | _ \<Rightarrow> bad_get)"

text \<open>The loop has a counter of 8 bits, which is always below 256: then it would not end.\<close>

partial_function (option) bind_loop ::
    "uint8 \<Rightarrow> PreparedStatementData list \<Rightarrow> ConnectionPreparedStatement \<Rightarrow> ConnectionPreparedStatement result option" where
  "bind_loop i data cps =
     (if unat i < length data
      then case bind_one i (data ! unat i) cps of
          Inl e \<Rightarrow> Some (Inl e)
        | Inr cps \<Rightarrow> bind_loop (i + 1) data cps
      else Some (Inr cps))"

definition BindParameters :: "PreparedStatement \<Rightarrow> ConnectionPreparedStatement \<Rightarrow> ConnectionPreparedStatement result option" where
  "BindParameters stmt cps = bind_loop 0 (ps_data stmt) cps"

definition ClearParameters :: "ConnectionPreparedStatement \<Rightarrow> ConnectionPreparedStatement" where
  "ClearParameters cps =
     cps\<lparr>cps_bind := map (\<lambda>b. b\<lparr>b_length := None, b_buffer := None\<rparr>) (take (unat (cps_paramCount cps)) (cps_bind cps))
       @ drop (unat (cps_paramCount cps)) (cps_bind cps)\<rparr>"

section \<open>Facts on fields and rows\<close>

lemma load_word_bytes:
  fixes x :: "'a::len word"
  assumes "LENGTH('a) = 8 * (LENGTH('a) div 8)" and "LENGTH('a) \<le> 64"
  shows "load (word_bytes x @ rest) = Inr x"
proof -
  have len: "length (word_bytes x) = sizeof x" by (simp add: sizeof_def)
  have "length (word_bytes x) \<le> 8" using assms(2) by (simp add: sizeof_def)
  then have "bb_ok (ByteBuffer_of (word_bytes x))" by simp
  from Read_word_bytes [OF this _ assms, of x "[]"]
  have "Read (ByteBuffer_of (word_bytes x)) = Inr (x, advance (length (word_bytes x)) (ByteBuffer_of (word_bytes x)))"
    by simp
  then show ?thesis by (simp add: load_def sizeof_def)
qed

lemmas load_simps [simp] =
  load_word_bytes [where ?'a = 8, simplified, where rest = "[]", simplified]
  load_word_bytes [where ?'a = 16, simplified, where rest = "[]", simplified]
  load_word_bytes [where ?'a = 32, simplified, where rest = "[]", simplified]
  load_word_bytes [where ?'a = 64, simplified, where rest = "[]", simplified]

lemma query_rows_eq:
  assumes "\<And>row. row \<in> set fetched \<Longrightarrow> length row = unat n" and "length types = unat n"
  shows "query_rows junk n types fetched
    = Inr (map (\<lambda>row. map2 (\<lambda>c ty. field_SetValue c ty (Field_new junk)) row types) fetched)"
  using assms(1)
proof (induction fetched)
  case (Cons row fetched)
  have "map (\<lambda>i. field_SetValue (row ! i) (types ! i) (Field_new junk)) [0..<unat n]
      = map2 (\<lambda>c ty. field_SetValue c ty (Field_new junk)) row types"
    using Cons.prems [of row] assms(2) by (intro nth_equalityI) simp_all
  with Cons assms(2) show ?case by (simp add: query_row_def)
qed simp

text \<open>What a caller sees who fetches \<open>n\<close> rows.\<close>

fun fetch_rows :: "nat \<Rightarrow> ResultSet \<Rightarrow> (Field list option list \<times> ResultSet) result" where
  "fetch_rows 0 rs = Inr ([], rs)"
| "fetch_rows (Suc n) rs =
     bindR (FetchRow rs) (\<lambda>(row, rs).
     bindR (fetch_rows n rs) (\<lambda>(rows, rs). Inr (row # rows, rs)))"

lemma fetch_rows_eq:
  assumes "length (rs_rows rs) < 2 ^ 64" and "rs_rowCount rs = of_nat (length (rs_rows rs))"
    and "unat (rs_currentRow rs) + n \<le> length (rs_rows rs)"
  shows "fetch_rows n rs = Inr (map Some (take n (drop (unat (rs_currentRow rs)) (rs_rows rs))),
    rs\<lparr>rs_currentRow := rs_currentRow rs + of_nat n\<rparr>)"
  using assms
proof (induction n arbitrary: rs)
  case (Suc n)
  let ?i = "unat (rs_currentRow rs)"
  let ?rs = "rs\<lparr>rs_currentRow := rs_currentRow rs + 1\<rparr>"
  have less: "\<not> rs_currentRow rs \<ge> rs_rowCount rs"
    using Suc.prems by (simp add: word_le_nat_alt)
  have i: "unat (rs_currentRow ?rs) = ?i + 1"
    using Suc.prems by (simp add: unat_plus_fits)
  have "fetch_rows n ?rs = Inr (map Some (take n (drop (?i + 1) (rs_rows rs))),
      ?rs\<lparr>rs_currentRow := rs_currentRow ?rs + of_nat n\<rparr>)"
    using Suc.IH [of ?rs] Suc.prems i by simp
  moreover have "FetchRow rs = Inr (Some (rs_rows rs ! ?i), ?rs)"
    using less Suc.prems by (simp add: FetchRow_def)
  moreover have "drop ?i (rs_rows rs) = rs_rows rs ! ?i # drop (?i + 1) (rs_rows rs)"
    using Suc.prems by (simp add: Cons_nth_drop_Suc)
  ultimately show ?case by (simp add: add.assoc)
qed simp

section \<open>Facts on parameters\<close>

text \<open>What the library reads from a bound parameter; \<open>None\<close> is \<^verbatim>\<open>NULL\<close>.\<close>

definition read_bind :: "MYSQL_BIND \<Rightarrow> MySQLValue option result" where
  "read_bind b =
     (if b_is_null b \<or> b_type b = MYSQL_TYPE_NULL then Inr None
      else case b_buffer b of
        None \<Rightarrow> Inl (Undefined ''null pointer'')
      | Some m \<Rightarrow>
          (case b_type b of
             MYSQL_TYPE_TINY \<Rightarrow> bindR (load m) (\<lambda>x. Inr (Some (if b_unsigned b then V_uint8 x else V_int8 x)))
           | MYSQL_TYPE_SHORT \<Rightarrow> bindR (load m) (\<lambda>x. Inr (Some (if b_unsigned b then V_uint16 x else V_int16 x)))
           | MYSQL_TYPE_LONG \<Rightarrow> bindR (load m) (\<lambda>x. Inr (Some (if b_unsigned b then V_uint32 x else V_int32 x)))
           | MYSQL_TYPE_LONGLONG \<Rightarrow> bindR (load m) (\<lambda>x. Inr (Some (if b_unsigned b then V_uint64 x else V_int64 x)))
           | MYSQL_TYPE_FLOAT \<Rightarrow> bindR (load m) (\<lambda>x. Inr (Some (V_float x)))
           | MYSQL_TYPE_DOUBLE \<Rightarrow> bindR (load m) (\<lambda>x. Inr (Some (V_double x)))
           | _ \<Rightarrow>
               (case b_length b of
                  None \<Rightarrow> Inl (Undefined ''null pointer'')
                | Some n \<Rightarrow> if n \<le> length m then Inr (Some (V_string (text_of (take n m))))
                    else Inl (Undefined ''read outside the buffer''))))"

definition param_of :: "PreparedStatementData \<Rightarrow> MySQLValue option" where
  "param_of d = (if psd_type d = MYSQL_NULL then None else Some (psd_value d))"

text \<open>The value of a parameter has the alternative that its type says.\<close>

primrec type_of :: "MySQLValue \<Rightarrow> MySQLValueTypes" where
  "type_of (V_uint8 _) = MYSQL_UINT8"
| "type_of (V_uint16 _) = MYSQL_UINT16"
| "type_of (V_uint32 _) = MYSQL_UINT32"
| "type_of (V_uint64 _) = MYSQL_UINT64"
| "type_of (V_int8 _) = MYSQL_INT8"
| "type_of (V_int16 _) = MYSQL_INT16"
| "type_of (V_int32 _) = MYSQL_INT32"
| "type_of (V_int64 _) = MYSQL_INT64"
| "type_of (V_float _) = MYSQL_FLOAT"
| "type_of (V_double _) = MYSQL_DOUBLE"
| "type_of (V_string _) = MYSQL_STRING"

definition typed :: "PreparedStatementData \<Rightarrow> bool" where
  "typed d \<longleftrightarrow> psd_type d = MYSQL_NULL \<or> psd_type d = type_of (psd_value d)"

text \<open>The structure that is left for a parameter.\<close>

definition bound :: "PreparedStatementData \<Rightarrow> MYSQL_BIND \<Rightarrow> MYSQL_BIND" where
  "bound d b =
     (let put = (\<lambda>ty bytes u. b\<lparr>b_type := ty, b_buffer := Some bytes, b_buffer_length := 0, b_is_null := False,
                   b_length := None, b_unsigned := u\<rparr>) in
      if psd_type d = MYSQL_NULL
      then b\<lparr>b_type := MYSQL_TYPE_NULL, b_buffer := None, b_buffer_length := 0, b_is_null := True, b_length := None\<rparr>
      else case psd_value d of
        V_uint8 x \<Rightarrow> put MYSQL_TYPE_TINY (word_bytes x) True
      | V_uint16 x \<Rightarrow> put MYSQL_TYPE_SHORT (word_bytes x) True
      | V_uint32 x \<Rightarrow> put MYSQL_TYPE_LONG (word_bytes x) True
      | V_uint64 x \<Rightarrow> put MYSQL_TYPE_LONGLONG (word_bytes x) True
      | V_int8 x \<Rightarrow> put MYSQL_TYPE_TINY (word_bytes x) False
      | V_int16 x \<Rightarrow> put MYSQL_TYPE_SHORT (word_bytes x) False
      | V_int32 x \<Rightarrow> put MYSQL_TYPE_LONG (word_bytes x) False
      | V_int64 x \<Rightarrow> put MYSQL_TYPE_LONGLONG (word_bytes x) False
      | V_float x \<Rightarrow> put MYSQL_TYPE_FLOAT (word_bytes x) False
      | V_double x \<Rightarrow> put MYSQL_TYPE_DOUBLE (word_bytes x) False
      | V_string x \<Rightarrow> b\<lparr>b_type := MYSQL_TYPE_VAR_STRING, b_buffer := Some (bytes_of x @ [0]),
          b_buffer_length := length x + 1, b_is_null := False, b_length := Some (length x)\<rparr>)"

lemma bind_one_typed:
  assumes "typed d"
  shows "bind_one i d cps = set_bind i (bound d) cps"
proof (cases "psd_type d = MYSQL_NULL")
  case True
  then show ?thesis by (simp add: bind_one_def cps_SetNull_def bound_def [abs_def])
next
  case False
  with assms have "psd_type d = type_of (psd_value d)" by (simp add: typed_def)
  then show ?thesis
    by (cases "psd_value d") (simp_all add: bind_one_def cps_SetValue_def cps_SetString_def bound_def [abs_def])
qed

lemma read_bound: "read_bind (bound d b) = Inr (param_of d)"
proof (cases "psd_type d = MYSQL_NULL")
  case True
  then show ?thesis by (simp add: bound_def read_bind_def param_of_def)
next
  case False
  have "length (bytes_of s) = length s" for s by (simp add: bytes_of_def)
  with False show ?thesis
    by (cases "psd_value d") (simp_all add: bound_def read_bind_def param_of_def)
qed

lemma bind_one_untyped:
  assumes "\<not> typed d"
  shows "bind_one i d cps = bad_get"
proof -
  have "psd_type d \<noteq> MYSQL_NULL" "psd_type d \<noteq> type_of (psd_value d)" using assms by (simp_all add: typed_def)
  then show ?thesis by (cases "psd_value d"; cases "psd_type d") (simp_all add: bind_one_def)
qed

text \<open>The loop from index \<open>i\<close> on, up to the index \<open>n\<close> before which every parameter can be bound.\<close>

lemma bind_loop_prefix:
  assumes "\<And>k. k < n \<Longrightarrow> typed (data ! k)" and "n \<le> length data" and "n \<le> length (cps_bind cps)"
    and "n \<le> 255" and "unat i \<le> n"
  shows "\<exists>bs. bind_loop i data cps = bind_loop (of_nat n) data (cps\<lparr>cps_bind := bs\<rparr>)
    \<and> length bs = length (cps_bind cps)
    \<and> (\<forall>k < length bs. if unat i \<le> k \<and> k < n then read_bind (bs ! k) = Inr (param_of (data ! k))
        else bs ! k = cps_bind cps ! k)"
  using assms(3,5)
proof (induction "n - unat i" arbitrary: i cps)
  case 0
  then have "of_nat n = i" by (metis diff_is_0_eq le_antisym of_nat_unat ucast_id)
  with 0 show ?case by (intro exI [of _ "cps_bind cps"]) auto
next
  case (Suc m)
  let ?k = "unat i"
  let ?b = "bound (data ! ?k) (cps_bind cps ! ?k)"
  let ?cps = "cps\<lparr>cps_bind := (cps_bind cps)[?k := ?b]\<rparr>"
  have k: "?k < n" using Suc.hyps(2) by simp
  have suc: "unat (i + 1) = Suc ?k" using k assms(4) by (simp add: unat_plus_fits)
  have "bind_one i (data ! ?k) cps = Inr ?cps"
    using k Suc.prems assms(1) by (simp add: bind_one_typed set_bind_def)
  then have step: "bind_loop i data cps = bind_loop (i + 1) data ?cps"
    using k assms(2) by (subst bind_loop.simps) simp
  have "m = n - unat (i + 1)" "n \<le> length (cps_bind ?cps)" "unat (i + 1) \<le> n"
    using Suc.hyps(2) Suc.prems k suc by simp_all
  from Suc.hyps(1) [OF this] obtain bs where
      bs: "bind_loop (i + 1) data ?cps = bind_loop (of_nat n) data (?cps\<lparr>cps_bind := bs\<rparr>)"
      "length bs = length (cps_bind ?cps)"
      "\<forall>j < length bs. if unat (i + 1) \<le> j \<and> j < n then read_bind (bs ! j) = Inr (param_of (data ! j))
        else bs ! j = cps_bind ?cps ! j"
    by blast
  have "if ?k \<le> j \<and> j < n then read_bind (bs ! j) = Inr (param_of (data ! j)) else bs ! j = cps_bind cps ! j"
    if "j < length bs" for j
    using bs(3) [rule_format, OF that] bs(2) that k suc by (cases "j = ?k") (auto simp: read_bound split: if_splits)
  with bs(1,2) step show ?case by (intro exI [of _ bs]) auto
qed

lemma bind_loop_end: "unat i = length data \<Longrightarrow> bind_loop i data cps = Some (Inr cps)"
  by (subst bind_loop.simps) simp

lemma bind_loop_fault:
  "unat i < length data \<Longrightarrow> bind_one i (data ! unat i) cps = Inl e \<Longrightarrow> bind_loop i data cps = Some (Inl e)"
  by (subst bind_loop.simps) simp

section \<open>Properties\<close>

text \<open>
  C31. The parameters of a statement reach MySQL: when each was set and there are no more than the
  statement on the connection has, binding them ends, and the structures that the library reads hold
  these values in this order, null for a null and numbers with their width and sign; the others stay as
  they are.
\<close>

theorem BindParameters_round_trip:
  assumes typed: "\<And>d. d \<in> set (ps_data stmt) \<Longrightarrow> typed d"
    and fits: "length (ps_data stmt) \<le> length (cps_bind cps)"
    and count: "length (cps_bind cps) = unat (cps_paramCount cps)"
  shows "\<exists>cps'. BindParameters stmt cps = Some (Inr cps')
    \<and> map read_bind (take (length (ps_data stmt)) (cps_bind cps')) = map (\<lambda>d. Inr (param_of d)) (ps_data stmt)
    \<and> drop (length (ps_data stmt)) (cps_bind cps') = drop (length (ps_data stmt)) (cps_bind cps)
    \<and> length (cps_bind cps') = length (cps_bind cps)"
proof -
  let ?n = "length (ps_data stmt)"
  have small: "?n \<le> 255" using fits count unsigned_less [of "cps_paramCount cps", where ?'a = nat] by simp
  obtain bs where bs: "bind_loop 0 (ps_data stmt) cps = bind_loop (of_nat ?n) (ps_data stmt) (cps\<lparr>cps_bind := bs\<rparr>)"
      "length bs = length (cps_bind cps)"
      "\<And>k. k < length bs \<Longrightarrow> if unat (0 :: uint8) \<le> k \<and> k < ?n
        then read_bind (bs ! k) = Inr (param_of (ps_data stmt ! k)) else bs ! k = cps_bind cps ! k"
    using bind_loop_prefix [of ?n "ps_data stmt" cps 0] typed fits small by auto
  have "bind_loop (of_nat ?n) (ps_data stmt) (cps\<lparr>cps_bind := bs\<rparr>) = Some (Inr (cps\<lparr>cps_bind := bs\<rparr>))"
    using small by (intro bind_loop_end) simp
  moreover have "map read_bind (take ?n bs) = map (\<lambda>d. Inr (param_of d)) (ps_data stmt)"
    using bs(2,3) fits by (intro nth_equalityI) auto
  moreover have "drop ?n bs = drop ?n (cps_bind cps)"
    using bs(2) bs(3) [of "?n + k" for k] fits by (intro nth_equalityI) auto
  ultimately show ?thesis using bs(1,2) by (auto simp: BindParameters_def)
qed

text \<open>
  Binding always ends, also when the counter of 8 bits could wrap. The first parameter that was
  skipped when the others were set makes it throw; a parameter more than the statement has is
  written outside the array.
\<close>

theorem BindParameters_faults:
  assumes count: "length (cps_bind cps) = unat (cps_paramCount cps)"
    and first: "k < length (ps_data stmt)" "\<And>j. j < k \<Longrightarrow> typed (ps_data stmt ! j)"
    and fault: "k \<le> length (cps_bind cps)" "\<not> typed (ps_data stmt ! k) \<or> k = length (cps_bind cps)"
  shows "BindParameters stmt cps = Some (if typed (ps_data stmt ! k)
      then Inl (Undefined ''index outside the array'') else bad_get)"
proof -
  have small: "k \<le> 255" using fault(1) count unsigned_less [of "cps_paramCount cps", where ?'a = nat] by simp
  then have k: "unat (of_nat k :: uint8) = k" by simp
  obtain bs where bs: "bind_loop 0 (ps_data stmt) cps = bind_loop (of_nat k) (ps_data stmt) (cps\<lparr>cps_bind := bs\<rparr>)"
      "length bs = length (cps_bind cps)"
    using bind_loop_prefix [of k "ps_data stmt" cps 0] first fault(1) small by auto
  have "bind_one (of_nat k) (ps_data stmt ! k) (cps\<lparr>cps_bind := bs\<rparr>)
      = (if typed (ps_data stmt ! k) then Inl (Undefined ''index outside the array'') else bad_get)"
    using fault(2) bs(2) k by (auto simp: bind_one_typed bind_one_untyped set_bind_def)
  then show ?thesis
    using bs(1) first(1) k bind_loop_fault [of "of_nat k" "ps_data stmt" "cps\<lparr>cps_bind := bs\<rparr>"]
    by (auto simp: BindParameters_def bad_get_def)
qed

text \<open>
  A caller who fetches the rows of a query gets all of them, in order, each column with the text that
  the server sent or without a value for \<^verbatim>\<open>NULL\<close>, and after the last one always the null pointer.
\<close>

lemma query_result_rows:
  assumes "length fetched < 2 ^ 64" and "\<And>row. row \<in> set fetched \<Longrightarrow> length row = unat n" and "length types = unat n"
  shows "\<exists>rs rows rs'. ResultSet_query junk fetched types (of_nat (length fetched)) n = Inr rs
    \<and> fetch_rows (length fetched) rs = Inr (map Some rows, rs') \<and> FetchRow rs' = Inr (None, rs')
    \<and> map (map (\<lambda>f. map_option text_of (f_value f))) rows = map (map (map_option c_str)) fetched"
proof -
  let ?rows = "map (\<lambda>row. map2 (\<lambda>c ty. field_SetValue c ty (Field_new junk)) row types) fetched"
  let ?rs = "\<lparr>rs_rowCount = of_nat (length fetched), rs_currentRow = 0, rs_fieldCount = n, rs_rows = ?rows\<rparr>"
  let ?rs' = "?rs\<lparr>rs_currentRow := of_nat (length fetched)\<rparr>"
  have "ResultSet_query junk fetched types (of_nat (length fetched)) n = Inr ?rs"
    using query_rows_eq [OF assms(2,3)] by (simp add: ResultSet_query_def)
  moreover have "fetch_rows (length fetched) ?rs = Inr (map Some ?rows, ?rs')"
    using fetch_rows_eq [of ?rs "length fetched"] assms(1) by simp
  moreover have "FetchRow ?rs' = Inr (None, ?rs')" by (simp add: FetchRow_def)
  moreover have "map_option text_of (f_value (field_SetValue c ty (Field_new junk))) = map_option c_str c" for c ty
    by (cases c) (simp_all add: field_SetValue_def Field_new_def)
  then have "map (\<lambda>f. map_option text_of (f_value f)) (map2 (\<lambda>c ty. field_SetValue c ty (Field_new junk)) row types)
      = map (map_option c_str) row" if "row \<in> set fetched" for row
    using assms(2) [OF that] assms(3) by (intro nth_equalityI) simp_all
  then have "map (map (\<lambda>f. map_option text_of (f_value f))) ?rows = map (map (map_option c_str)) fetched"
    by (auto simp: comp_def)
  ultimately show ?thesis by blast
qed

text \<open>
  When a prepared statement has no result set, or the result cannot be stored, the number of rows is
  whatever the memory held, and unless this is 0 the first fetch leaves the empty vector.
\<close>

lemma stmt_rowCount_uninitialised:
  assumes "sr_metadata res = None \<or> \<not> sr_store_ok res" and "junk \<noteq> 0"
  shows "bindR (ResultSet_stmt fjunk junk time_size res n) FetchRow = Inl (Undefined ''index outside the vector'')"
proof -
  have "ResultSet_stmt fjunk junk time_size res n
      = Inr \<lparr>rs_rowCount = junk, rs_currentRow = 0, rs_fieldCount = n, rs_rows = []\<rparr>"
    using assms(1) by (auto simp: ResultSet_stmt_def Let_def split: option.split)
  with assms(2) show ?thesis by (simp add: FetchRow_def)
qed

text \<open>
  When a column of strings holds a null in the first row and a longer string elsewhere, so that its
  buffer has more than one byte, more bytes are copied from the literal for the null than it has.
\<close>

theorem stmt_null_string_undefined:
  assumes "sr_metadata res = Some (mf # mfs)" "sr_store_ok res" "sr_bind_ok res" and n: "length (mf # mfs) = unat n"
    and "sr_fetches res = (0, col # cols) # fetches"
    and "mf_type mf \<in> {MYSQL_TYPE_STRING, MYSQL_TYPE_VAR_STRING, MYSQL_TYPE_BLOB}"
    and "0 < mf_max_length mf" and "col_null col"
  shows "ResultSet_stmt fjunk junk time_size res n = Inl (Undefined ''read outside the buffer'')"
proof -
  have "unat n = Suc (length mfs)" using n by simp
  with assms show ?thesis
    by (auto simp: ResultSet_stmt_def NextSTMTRow_def stmt_field_def SetByteValue_def SizeForType_def Field_new_def)
qed

section \<open>Small instances\<close>

definition sample_stmt :: PreparedStatement where
  "sample_stmt = SetString 2 ''worker'' (SetNull 1 (SetUInt32 0 7 (PreparedStatement_new 5)))"

lemma sample_stmt_data:
  "ps_data sample_stmt = [\<lparr>psd_value = V_uint32 7, psd_type = MYSQL_UINT32\<rparr>,
     \<lparr>psd_value = V_int64 0, psd_type = MYSQL_NULL\<rparr>, \<lparr>psd_value = V_string ''worker'', psd_type = MYSQL_STRING\<rparr>]"
  by (simp add: sample_stmt_def SetString_def SetNull_def SetUInt32_def ps_Set_def PreparedStatement_new_def psd_default_def)

theorem BindParameters_round_trip_witness:
  "\<exists>cps'. BindParameters sample_stmt (ConnectionPreparedStatement_new 1 4) = Some (Inr cps')
    \<and> map read_bind (take 3 (cps_bind cps')) = [Inr (Some (V_uint32 7)), Inr None, Inr (Some (V_string ''worker''))]"
proof -
  have "\<exists>cps'. BindParameters sample_stmt (ConnectionPreparedStatement_new 1 4) = Some (Inr cps')
    \<and> map read_bind (take (length (ps_data sample_stmt)) (cps_bind cps')) = map (\<lambda>d. Inr (param_of d)) (ps_data sample_stmt)
    \<and> drop (length (ps_data sample_stmt)) (cps_bind cps')
        = drop (length (ps_data sample_stmt)) (cps_bind (ConnectionPreparedStatement_new 1 4))
    \<and> length (cps_bind cps') = length (cps_bind (ConnectionPreparedStatement_new 1 4))"
    by (rule BindParameters_round_trip)
      (auto simp: sample_stmt_data typed_def ConnectionPreparedStatement_new_def)
  then show ?thesis by (auto simp: sample_stmt_data param_of_def numeral_3_eq_3)
qed

text \<open>A statement whose parameter with index 0 was forgotten.\<close>

theorem BindParameters_faults_witness:
  "BindParameters (SetUInt32 1 7 (PreparedStatement_new 5)) (ConnectionPreparedStatement_new 1 2) = Some bad_get"
  using BindParameters_faults [of "ConnectionPreparedStatement_new 1 2" 0 "SetUInt32 1 7 (PreparedStatement_new 5)"]
  by (simp add: ConnectionPreparedStatement_new_def SetUInt32_def ps_Set_def PreparedStatement_new_def psd_default_def
      typed_def)

definition sample_column :: MYSQL_FIELD where
  "sample_column = \<lparr>mf_type = MYSQL_TYPE_VAR_STRING, mf_max_length = 6, mf_unsigned = False\<rparr>"

theorem stmt_null_string_undefined_witness:
  "ResultSet_stmt True 0 8 \<lparr>sr_metadata = Some [sample_column], sr_store_ok = True, sr_bind_ok = True, sr_num_rows = 1,
      sr_fetches = [(0, [\<lparr>col_null = True, col_length = 0, col_bytes = []\<rparr>])]\<rparr> 1 = Inl (Undefined ''read outside the buffer'')"
  by (rule stmt_null_string_undefined [where mf = sample_column and mfs = "[]" and cols = "[]" and fetches = "[]"
      and col = "\<lparr>col_null = True, col_length = 0, col_bytes = []\<rparr>"]) (simp_all add: sample_column_def)

end
