(* ===== verification/Mysql_Connection.thy ===== *)
theory Mysql_Connection
  imports Mysql_Values Effects Work_Queue
begin

text \<open>
  Connections to MySQL and their pool: \<open>shared/MySQL/DatabaseConnection.h\<close>, \<open>DatabaseConnection.cpp\<close>,
  \<open>DatabaseOperation.cpp\<close> and the synchronous half of \<open>DatabaseWorkerPool.h\<close>, \<open>DatabaseWorkerPool.cpp\<close>.
  The client library is an argument: what its \<open>t\<close>-th call on a connection does. Operations that retry
  after a lost connection may never return; then their value is \<open>None\<close>.
\<close>

section \<open>The client library\<close>

record ConnectionInfo =
  ci_Host :: string
  ci_Port :: uint16
  ci_User :: string
  ci_Pass :: string
  ci_DB :: string

text \<open>
  What a query leaves: whether there is a result set, its rows and the types of its columns, the number of
  affected rows, and the number of columns.
\<close>

record query_data =
  qd_stored :: bool
  qd_rows :: "string option list list"
  qd_types :: "enum_field_types list"
  qd_affected :: uint64
  qd_fields :: uint32

text \<open>
  The answers of the library: initialisation and connecting (an error is a number with a text), a
  query, preparing a statement (the number of its parameters), binding its parameters, executing it, and its
  result with the number of columns. An error of a query or a statement is its number. \<open>lib_escape\<close> is what
  \<^verbatim>\<open>mysql_real_escape_string\<close> writes before the final zero.
\<close>

record mysql_lib =
  lib_init :: "nat \<Rightarrow> bool"
  lib_connect :: "nat \<Rightarrow> ConnectionInfo \<Rightarrow> (uint32 \<times> string) option"
  lib_query :: "nat \<Rightarrow> string \<Rightarrow> uint32 + query_data"
  lib_stmt_init :: "nat \<Rightarrow> bool"
  lib_prepare :: "nat \<Rightarrow> string \<Rightarrow> uint64 option"
  lib_bind_param :: "nat \<Rightarrow> MYSQL_BIND list \<Rightarrow> uint32 option"
  lib_execute :: "nat \<Rightarrow> MYSQL_BIND list \<Rightarrow> uint32 option"
  lib_result :: "nat \<Rightarrow> stmt_result \<times> uint32"
  lib_escape :: "string \<Rightarrow> string"

section \<open>Connections (DatabaseConnection.h)\<close>

datatype ConnectionType = MYSQL_CONN_SYNC | MYSQL_CONN_ASYNC

text \<open>The pointer to the library's handle; a handle that has been closed is not set to null.\<close>

datatype mysql_ptr = Null_ptr | Open_ptr | Closed_ptr

text \<open>\<open>dc_calls\<close> counts the calls of the library on this connection.\<close>

record DatabaseConnection =
  dc_Type :: ConnectionType
  dc_mysql :: mysql_ptr
  dc_mysqlConnectError :: uint32
  dc_stmts :: "ConnectionPreparedStatement option list"
  dc_connectionInfo :: ConnectionInfo
  dc_calls :: nat

text \<open>The constructor; the error number is not initialised.\<close>

definition DatabaseConnection_new :: "uint32 \<Rightarrow> ConnectionInfo \<Rightarrow> bool \<Rightarrow> DatabaseConnection" where
  "DatabaseConnection_new junk connInfo has_queue =
     \<lparr>dc_Type = (if has_queue then MYSQL_CONN_ASYNC else MYSQL_CONN_SYNC), dc_mysql = Null_ptr,
      dc_mysqlConnectError = junk, dc_stmts = [], dc_connectionInfo = connInfo, dc_calls = 0\<rparr>"

definition tick :: "DatabaseConnection \<Rightarrow> DatabaseConnection" where
  "tick c = c\<lparr>dc_calls := dc_calls c + 1\<rparr>"

definition GetPreparedStatement :: "uint32 \<Rightarrow> DatabaseConnection \<Rightarrow> ConnectionPreparedStatement option" where
  "GetPreparedStatement index c =
     (if unat index \<ge> length (dc_stmts c) then None else dc_stmts c ! unat index)"

section \<open>Opening and reconnecting (DatabaseConnection.cpp)\<close>

definition Open :: "mysql_lib \<Rightarrow> (DatabaseConnection, bool) eff" where
  "Open lib c =
     (if \<not> lib_init lib (dc_calls c)
      then (tick c, Inl (Exception (FS [''Could not initialize Mysql connection to database `'',
              c_str (ci_DB (dc_connectionInfo c)), ''`''])))
      else
        let c = tick c in
        case lib_connect lib (dc_calls c) (dc_connectionInfo c) of
          None \<Rightarrow> ((tick c)\<lparr>dc_mysql := Open_ptr\<rparr>, Inr True)
        | Some (errno, error) \<Rightarrow>
            ((tick c)\<lparr>dc_mysql := Null_ptr, dc_mysqlConnectError := errno\<rparr>,
             Inl (Exception (FS [''Could not connect to MySQL database at '',
               c_str (ci_Host (dc_connectionInfo c)), '': '', c_str error]))))"

text \<open>Closing a handle twice is undefined; closing a null pointer does nothing.\<close>

definition close_handle :: "DatabaseConnection \<Rightarrow> DatabaseConnection result" where
  "close_handle c =
     (case dc_mysql c of
        Null_ptr \<Rightarrow> Inr c
      | Open_ptr \<Rightarrow> Inr (c\<lparr>dc_mysql := Closed_ptr\<rparr>)
      | Closed_ptr \<Rightarrow> Inl (Undefined ''handle closed twice''))"

definition ClientError :: "uint32 set" where
  "ClientError = {2006, 2013, 2048, 2055}"

partial_function (option) HandleMySQLErrno ::
    "mysql_lib \<Rightarrow> uint32 \<Rightarrow> DatabaseConnection \<Rightarrow> (DatabaseConnection \<times> bool result) option" where
  "HandleMySQLErrno lib lErrno c =
     (if lErrno \<in> ClientError
      then case close_handle c of
          Inl e \<Rightarrow> Some (c, Inl e)
        | Inr c \<Rightarrow>
            (case Open lib c of
               (c, Inr _) \<Rightarrow> Some (c, Inr True)
             | (c, Inl (Exception what)) \<Rightarrow> HandleMySQLErrno lib (dc_mysqlConnectError c) c
             | (c, Inl (Undefined why)) \<Rightarrow> Some (c, Inl (Undefined why)))
      else Some (c, Inr False))"

section \<open>Queries\<close>

text \<open>Calling the library with a handle that has been closed is undefined.\<close>

partial_function (option) Execute ::
    "mysql_lib \<Rightarrow> string option \<Rightarrow> DatabaseConnection \<Rightarrow> (DatabaseConnection \<times> bool result) option" where
  "Execute lib query c =
     (case query of
        None \<Rightarrow> Some (c, Inr False)
      | Some q \<Rightarrow>
          if dc_mysql c = Null_ptr then Some (c, Inr False)
          else if dc_mysql c = Closed_ptr then Some (c, Inl (Undefined ''closed handle''))
          else
            (case lib_query lib (dc_calls c) q of
               Inr _ \<Rightarrow> Some (tick c, Inr True)
             | Inl lErrno \<Rightarrow>
                 (case HandleMySQLErrno lib lErrno (tick c) of
                    None \<Rightarrow> None
                  | Some (c, Inl e) \<Rightarrow> Some (c, Inl e)
                  | Some (c, Inr handled) \<Rightarrow>
                      if handled then Execute lib query c else Some (c, Inr False))))"

text \<open>The private \<^verbatim>\<open>_Query\<close>: \<open>None\<close> for \<^verbatim>\<open>false\<close>.\<close>

partial_function (option) Query_rows ::
    "mysql_lib \<Rightarrow> string \<Rightarrow> DatabaseConnection \<Rightarrow> (DatabaseConnection \<times> query_data option result) option" where
  "Query_rows lib query c =
     (if dc_mysql c = Null_ptr then Some (c, Inr None)
      else if dc_mysql c = Closed_ptr then Some (c, Inl (Undefined ''closed handle''))
      else
        (case lib_query lib (dc_calls c) query of
           Inr d \<Rightarrow>
             Some (tick c, Inr (if \<not> qd_stored d then None else if qd_affected d = 0 then None else Some d))
         | Inl lErrno \<Rightarrow>
             (case HandleMySQLErrno lib lErrno (tick c) of
                None \<Rightarrow> None
              | Some (c, Inl e) \<Rightarrow> Some (c, Inl e)
              | Some (c, Inr handled) \<Rightarrow>
                  if handled then Query_rows lib query c else Some (c, Inr None))))"

definition Query ::
    "bool \<Rightarrow> mysql_lib \<Rightarrow> string option \<Rightarrow> DatabaseConnection \<Rightarrow> (DatabaseConnection \<times> ResultSet option result) option" where
  "Query junk lib query c =
     (case query of
        None \<Rightarrow> Some (c, Inr None)
      | Some q \<Rightarrow>
          (case Query_rows lib q c of
             None \<Rightarrow> None
           | Some (c, Inl e) \<Rightarrow> Some (c, Inl e)
           | Some (c, Inr None) \<Rightarrow> Some (c, Inr None)
           | Some (c, Inr (Some d)) \<Rightarrow>
               Some (c, bindR (ResultSet_query junk (qd_rows d) (qd_types d) (qd_affected d) (qd_fields d))
                          (\<lambda>rs. Inr (Some rs)))))"

section \<open>Prepared statements\<close>

definition PrepareStatement :: "mysql_lib \<Rightarrow> uint32 \<Rightarrow> string \<Rightarrow> (DatabaseConnection, bool) eff" where
  "PrepareStatement lib index sql c =
     (if dc_mysql c = Null_ptr then (c, Inr False)
      else if dc_mysql c = Closed_ptr then (c, Inl (Undefined ''closed handle''))
      else if \<not> lib_stmt_init lib (dc_calls c) then (tick c, Inr False)
      else
        case lib_prepare lib (dc_calls (tick c)) (c_str sql) of
          None \<Rightarrow> (tick (tick c), Inr False)
        | Some param_count \<Rightarrow>
            let n = unat (index + 1);
                stmts = (if unat index \<ge> length (dc_stmts c)
                         then take n (dc_stmts c) @ replicate (n - length (dc_stmts c)) None
                         else dc_stmts c);
                cstmt = ConnectionPreparedStatement_new (dc_calls c) param_count
            in if unat index < length stmts
               then ((tick (tick c))\<lparr>dc_stmts := stmts[unat index := Some cstmt]\<rparr>, Inr True)
               else (tick (tick c), Inl (Undefined ''index outside the vector'')))"

definition put_stmt :: "uint32 \<Rightarrow> ConnectionPreparedStatement \<Rightarrow> DatabaseConnection \<Rightarrow> DatabaseConnection" where
  "put_stmt index cps c = c\<lparr>dc_stmts := (dc_stmts c)[unat index := Some cps]\<rparr>"

definition clear_stmt :: "uint32 \<Rightarrow> DatabaseConnection \<Rightarrow> DatabaseConnection" where
  "clear_stmt index c =
     (case GetPreparedStatement index c of
        None \<Rightarrow> c | Some cps \<Rightarrow> put_stmt index (ClearParameters cps) c)"

text \<open>
  The common beginning of \<^verbatim>\<open>Execute\<close> and \<^verbatim>\<open>_Query\<close> for a statement: it is looked up, its parameters are
  bound, and it is executed. After an exception of \<^verbatim>\<open>BindParameters\<close> nothing reads the parameters that were
  bound before it: a synchronous connection stays locked, and in a worker thread the exception ends the program.
\<close>

datatype attempt = Not_found | Bind_failed uint32 | Exec_failed uint32 | Executed

definition attempt_stmt :: "mysql_lib \<Rightarrow> PreparedStatement \<Rightarrow> DatabaseConnection \<Rightarrow> (DatabaseConnection \<times> attempt result) option" where
  "attempt_stmt lib stmt c =
     (if dc_mysql c = Null_ptr then Some (c, Inr Not_found)
      else
        case GetPreparedStatement (ps_index stmt) c of
          None \<Rightarrow> Some (c, Inr Not_found)
        | Some cstmt \<Rightarrow>
            (case BindParameters stmt cstmt of
               None \<Rightarrow> None
             | Some (Inl e) \<Rightarrow> Some (c, Inl e)
             | Some (Inr cstmt) \<Rightarrow>
                 let c = put_stmt (ps_index stmt) cstmt c in
                 if dc_mysql c = Closed_ptr then Some (c, Inl (Undefined ''closed handle''))
                 else
                   (case lib_bind_param lib (dc_calls c) (cps_bind cstmt) of
                      Some lErrno \<Rightarrow> Some (tick c, Inr (Bind_failed lErrno))
                    | None \<Rightarrow>
                        (case lib_execute lib (dc_calls (tick c)) (cps_bind cstmt) of
                           Some lErrno \<Rightarrow> Some (tick (tick c), Inr (Exec_failed lErrno))
                         | None \<Rightarrow> Some (clear_stmt (ps_index stmt) (tick (tick c)), Inr Executed)))))"

partial_function (option) Execute_stmt ::
    "mysql_lib \<Rightarrow> PreparedStatement \<Rightarrow> DatabaseConnection \<Rightarrow> (DatabaseConnection \<times> bool result) option" where
  "Execute_stmt lib stmt c =
     (case attempt_stmt lib stmt c of
        None \<Rightarrow> None
      | Some (c, Inl e) \<Rightarrow> Some (c, Inl e)
      | Some (c, Inr a) \<Rightarrow>
          (case a of
             Not_found \<Rightarrow> Some (c, Inr False)
           | Executed \<Rightarrow> Some (c, Inr True)
           | Bind_failed lErrno \<Rightarrow>
               (case HandleMySQLErrno lib lErrno c of
                  None \<Rightarrow> None
                | Some (c, Inl e) \<Rightarrow> Some (c, Inl e)
                | Some (c, Inr handled) \<Rightarrow>
                    if handled then Execute_stmt lib stmt c else Some (clear_stmt (ps_index stmt) c, Inr False))
           | Exec_failed lErrno \<Rightarrow>
               (case HandleMySQLErrno lib lErrno c of
                  None \<Rightarrow> None
                | Some (c, Inl e) \<Rightarrow> Some (c, Inl e)
                | Some (c, Inr handled) \<Rightarrow>
                    if handled then Execute_stmt lib stmt c else Some (clear_stmt (ps_index stmt) c, Inr False))))"

text \<open>
  The private \<^verbatim>\<open>_Query\<close> for a statement. After parameters could not be bound and the connection was
  made again, it goes on with \<^verbatim>\<open>Execute\<close>: it returns \<^verbatim>\<open>true\<close> without a result (\<open>Some None\<close>).
\<close>

partial_function (option) Query_stmt_result ::
    "mysql_lib \<Rightarrow> PreparedStatement \<Rightarrow> DatabaseConnection
      \<Rightarrow> (DatabaseConnection \<times> (stmt_result \<times> uint32) option option result) option" where
  "Query_stmt_result lib stmt c =
     (case attempt_stmt lib stmt c of
        None \<Rightarrow> None
      | Some (c, Inl e) \<Rightarrow> Some (c, Inl e)
      | Some (c, Inr a) \<Rightarrow>
          (case a of
             Not_found \<Rightarrow> Some (c, Inr None)
           | Executed \<Rightarrow> Some (tick c, Inr (Some (Some (lib_result lib (dc_calls c)))))
           | Bind_failed lErrno \<Rightarrow>
               (case HandleMySQLErrno lib lErrno c of
                  None \<Rightarrow> None
                | Some (c, Inl e) \<Rightarrow> Some (c, Inl e)
                | Some (c, Inr handled) \<Rightarrow>
                    if handled
                    then (case Execute_stmt lib stmt c of
                            None \<Rightarrow> None
                          | Some (c, Inl e) \<Rightarrow> Some (c, Inl e)
                          | Some (c, Inr ok) \<Rightarrow> Some (c, Inr (if ok then Some None else None)))
                    else Some (clear_stmt (ps_index stmt) c, Inr None))
           | Exec_failed lErrno \<Rightarrow>
               (case HandleMySQLErrno lib lErrno c of
                  None \<Rightarrow> None
                | Some (c, Inl e) \<Rightarrow> Some (c, Inl e)
                | Some (c, Inr handled) \<Rightarrow>
                    if handled then Query_stmt_result lib stmt c else Some (clear_stmt (ps_index stmt) c, Inr None))))"

text \<open>The memory that the constructor of a result set leaves as it is: \<open>fjunk\<close> and \<open>junk\<close>.\<close>

definition Query_stmt ::
    "bool \<Rightarrow> uint64 \<Rightarrow> nat \<Rightarrow> mysql_lib \<Rightarrow> PreparedStatement \<Rightarrow> DatabaseConnection
      \<Rightarrow> (DatabaseConnection \<times> ResultSet option result) option" where
  "Query_stmt fjunk junk time_size lib stmt c =
     (case Query_stmt_result lib stmt c of
        None \<Rightarrow> None
      | Some (c, Inl e) \<Rightarrow> Some (c, Inl e)
      | Some (c, Inr None) \<Rightarrow> Some (c, Inr None)
      | Some (c, Inr (Some r)) \<Rightarrow>
          (case r of
             Some (res, fieldCount) \<Rightarrow>
               Some (c, bindR (ResultSet_stmt fjunk junk time_size res fieldCount) (\<lambda>rs. Inr (Some rs)))
           | None \<Rightarrow>
               Some (c, Inr (Some \<lparr>rs_rowCount = junk, rs_currentRow = 0, rs_fieldCount = 0, rs_rows = []\<rparr>))))"

text \<open>\<^verbatim>\<open>Escape\<close>: the buffer has room for two characters for each one, and the result ends at the first zero.\<close>

definition Escape :: "mysql_lib \<Rightarrow> string \<Rightarrow> DatabaseConnection \<Rightarrow> string result" where
  "Escape lib txt c =
     (if dc_mysql c \<noteq> Open_ptr then Inl (Undefined ''no open handle'')
      else if length (lib_escape lib txt) > length txt * 2 then Inl (Undefined ''write outside the buffer'')
      else Inr (c_str (lib_escape lib txt)))"

section \<open>Operations of the workers (DatabaseOperation.h, DatabaseOperation.cpp)\<close>

text \<open>With a callback, the operation hands it the result.\<close>

datatype DatabaseOperation =
  PingOperation
| QueryOperation string bool
| PreparedStatementOperation PreparedStatement bool

text \<open>The outer option of the value is whether the callback is called, the inner one its argument.\<close>

definition op_Execute ::
    "bool \<Rightarrow> uint64 \<Rightarrow> nat \<Rightarrow> mysql_lib \<Rightarrow> DatabaseOperation \<Rightarrow> DatabaseConnection
      \<Rightarrow> (DatabaseConnection \<times> ResultSet option option result) option" where
  "op_Execute fjunk junk time_size lib oper c =
     (let quiet = map_option (\<lambda>(c, r). (c, bindR r (\<lambda>_. Inr None)));
          call = map_option (\<lambda>(c, r). (c, bindR r (\<lambda>rs. Inr (Some rs))))
      in case oper of
        PingOperation \<Rightarrow>
          if dc_mysql c = Open_ptr then Some (tick c, Inr None) else Some (c, Inl (Undefined ''no open handle''))
      | QueryOperation query has_callback \<Rightarrow>
          if has_callback then call (Query fjunk lib (Some (c_str query)) c)
          else quiet (Execute lib (Some (c_str query)) c)
      | PreparedStatementOperation stmt has_callback \<Rightarrow>
          if has_callback then call (Query_stmt fjunk junk time_size lib stmt c)
          else quiet (Execute_stmt lib stmt c))"

section \<open>The pool of connections (DatabaseWorkerPool.h, DatabaseWorkerPool.cpp)\<close>

text \<open>The queue of the pool and its threads are in \<open>Work_Queue\<close>.\<close>

record DatabaseWorkerPool =
  wp_sync :: "DatabaseConnection list"
  wp_async :: "DatabaseConnection list"
  wp_connectionInfo :: ConnectionInfo

text \<open>
  Opening \<open>n\<close> connections one after the other; \<open>libs\<close> is what the library does on each of them, by its
  position. The first exception leaves the loop.
\<close>

fun open_loop ::
    "(nat \<Rightarrow> mysql_lib) \<Rightarrow> uint32 \<Rightarrow> ConnectionInfo \<Rightarrow> bool \<Rightarrow> nat \<Rightarrow> bool \<Rightarrow> (DatabaseConnection list, bool) eff" where
  "open_loop libs junk info async 0 res cs = (cs, Inr res)"
| "open_loop libs junk info async (Suc n) res cs =
     (case Open (libs (length cs)) (DatabaseConnection_new junk info async) of
        (c, Inl e) \<Rightarrow> (cs, Inl e)
      | (c, Inr ok) \<Rightarrow> open_loop libs junk info async n (res \<and> ok) (cs @ [c]))"

text \<open>
  \<^verbatim>\<open>Close\<close> deletes the connections; the destructor asserts that there is a handle and closes it. The pool keeps
  its pointers to them: a connection with a closed handle stands for one that was deleted. The loops
  over the connections of a kind count in 8 bits; a pool that was opened once has at most 255 of them. That
  the queue is stopped is \<open>pool_Stop\<close> in \<open>Work_Queue\<close>.
\<close>

definition delete_connection :: "DatabaseConnection \<Rightarrow> DatabaseConnection result" where
  "delete_connection c = (if dc_mysql c = Null_ptr then Inl (Undefined ''assertion failed'') else close_handle c)"

fun close_all :: "DatabaseConnection list \<Rightarrow> DatabaseConnection list result" where
  "close_all [] = Inr []"
| "close_all (c # cs) = bindR (delete_connection c) (\<lambda>c. bindR (close_all cs) (\<lambda>cs. Inr (c # cs)))"

definition wp_Close :: "DatabaseWorkerPool \<Rightarrow> DatabaseWorkerPool result" where
  "wp_Close p =
     bindR (close_all (wp_sync p)) (\<lambda>sync.
     bindR (close_all (wp_async p)) (\<lambda>async. Inr (p\<lparr>wp_sync := sync, wp_async := async\<rparr>)))"

text \<open>The destructor of the pool, which runs when the program ends, closes it again.\<close>

definition wp_delete :: "DatabaseWorkerPool \<Rightarrow> unit result" where
  "wp_delete p = bindR (wp_Close p) (\<lambda>_. Inr ())"

lemma close_all_twice: "close_all cs = Inr cs' \<Longrightarrow> cs \<noteq> [] \<Longrightarrow> \<exists>what. close_all cs' = Inl (Undefined what)"
  by (cases cs) (auto simp: delete_connection_def close_handle_def split: if_splits mysql_ptr.splits)

lemma Close_twice:
  assumes "wp_Close p = Inr p'" and "wp_Close p' = Inr p''"
  shows "wp_sync p = [] \<and> wp_async p = []"
  using assms close_all_twice [of "wp_sync p"] close_all_twice [of "wp_async p"]
  by (fastforce simp: wp_Close_def)

text \<open>Preparing a statement on the connections of a list, up to the first that fails.\<close>

fun prepare_loop ::
    "(nat \<Rightarrow> mysql_lib) \<Rightarrow> uint32 \<Rightarrow> string \<Rightarrow> DatabaseConnection list \<Rightarrow> (DatabaseConnection list, bool) eff" where
  "prepare_loop libs index sql [] ready = (ready, Inr True)"
| "prepare_loop libs index sql (c # cs) ready =
     (case PrepareStatement (libs (length ready)) index sql c of
        (c, Inr True) \<Rightarrow> prepare_loop libs index sql cs (ready @ [c])
      | (c, r) \<Rightarrow> (ready @ c # cs, r))"

definition wp_PrepareStatement ::
    "(nat \<Rightarrow> mysql_lib) \<Rightarrow> (nat \<Rightarrow> mysql_lib) \<Rightarrow> uint32 \<Rightarrow> string \<Rightarrow> bool \<Rightarrow> bool \<Rightarrow> (DatabaseWorkerPool, bool) eff" where
  "wp_PrepareStatement sync_libs async_libs index sql on_sync on_async p =
     (case (if on_sync then prepare_loop sync_libs index sql (wp_sync p) [] else (wp_sync p, Inr True)) of
        (cs, Inr True) \<Rightarrow>
          (case (if on_async then prepare_loop async_libs index sql (wp_async p) [] else (wp_async p, Inr True)) of
             (ds, r) \<Rightarrow> (p\<lparr>wp_sync := cs, wp_async := ds\<rparr>, r))
      | (cs, r) \<Rightarrow> (p\<lparr>wp_sync := cs\<rparr>, r))"

text \<open>The statement that the pool prepares (\<open>Database/ServerDatabaseEnv.h\<close>); the result is not looked at.\<close>

definition STMT_QUERY_SHARES :: uint32 where
  "STMT_QUERY_SHARES = 2"

definition LoadSTMT :: "(nat \<Rightarrow> mysql_lib) \<Rightarrow> (nat \<Rightarrow> mysql_lib) \<Rightarrow> (DatabaseWorkerPool, unit) eff" where
  "LoadSTMT sync_libs async_libs =
     bindE (wp_PrepareStatement sync_libs async_libs STMT_QUERY_SHARES
       ''SELECT `id`, `difficulty`, UNIX_TIMESTAMP(`time`) FROM `shares` WHERE `id` > ? ORDER BY `id` ASC LIMIT 500000;''
       True True) (\<lambda>_. returnE ())"

text \<open>\<^verbatim>\<open>Open\<close>: both loops run to \<^verbatim>\<open>syncThreads\<close>.\<close>

definition wp_Open ::
    "(nat \<Rightarrow> mysql_lib) \<Rightarrow> (nat \<Rightarrow> mysql_lib) \<Rightarrow> uint32 \<Rightarrow> ConnectionInfo \<Rightarrow> uint8 \<Rightarrow> uint8 \<Rightarrow> (DatabaseWorkerPool, bool) eff" where
  "wp_Open sync_libs async_libs junk connInfo syncThreads asyncThreads p =
     (let p = p\<lparr>wp_connectionInfo := connInfo\<rparr> in
      case open_loop sync_libs junk connInfo False (unat syncThreads) True (wp_sync p) of
        (cs, Inl e) \<Rightarrow> (p\<lparr>wp_sync := cs\<rparr>, Inl e)
      | (cs, Inr res) \<Rightarrow>
          (case open_loop async_libs junk connInfo True (unat syncThreads) res (wp_async p) of
             (ds, Inl e) \<Rightarrow> (p\<lparr>wp_sync := cs, wp_async := ds\<rparr>, Inl e)
           | (ds, Inr res) \<Rightarrow>
               bindE (LoadSTMT sync_libs async_libs) (\<lambda>_. returnE res) (p\<lparr>wp_sync := cs, wp_async := ds\<rparr>)))"

text \<open>
  \<^verbatim>\<open>Server::InitDatabase\<close>: the numbers of threads are narrowed from 16 to 8 bits, and with another driver no
  connection is opened. \<^verbatim>\<open>boost::iequals\<close> is an argument.
\<close>

record DatabaseConfig =
  DatabaseDriver :: string
  MySQLInfo :: ConnectionInfo
  MySQLSyncThreads :: uint16
  MySQLAsyncThreads :: uint16

definition InitDatabase ::
    "(string \<Rightarrow> string \<Rightarrow> bool) \<Rightarrow> (nat \<Rightarrow> mysql_lib) \<Rightarrow> (nat \<Rightarrow> mysql_lib) \<Rightarrow> uint32 \<Rightarrow> DatabaseConfig
      \<Rightarrow> (DatabaseWorkerPool, bool) eff" where
  "InitDatabase iequals sync_libs async_libs junk cfg =
     (if iequals (DatabaseDriver cfg) ''mysql''
      then wp_Open sync_libs async_libs junk (MySQLInfo cfg) (ucast (MySQLSyncThreads cfg)) (ucast (MySQLAsyncThreads cfg))
      else returnE False)"

text \<open>
  \<^verbatim>\<open>GetSyncConnection\<close>: the position of the connection whose lock was taken. \<open>ready k j\<close> tells whether the
  \<open>k\<close>-th attempt finds connection \<open>j\<close> unlocked. The number of connections is narrowed to 8 bits.
\<close>

partial_function (option) sync_loop :: "(nat \<Rightarrow> nat \<Rightarrow> bool) \<Rightarrow> uint8 \<Rightarrow> nat \<Rightarrow> uint32 \<Rightarrow> nat result option" where
  "sync_loop ready conn_size k i =
     (if conn_size = 0 then Some (Inl (Undefined ''division by zero''))
      else let i = i + 1; j = unat i mod unat conn_size in
        if ready k j then Some (Inr j) else sync_loop ready conn_size (k + 1) i)"

definition GetSyncConnection :: "(nat \<Rightarrow> nat \<Rightarrow> bool) \<Rightarrow> DatabaseWorkerPool \<Rightarrow> nat result option" where
  "GetSyncConnection ready p = sync_loop ready (of_nat (length (wp_sync p))) 0 0"

text \<open>A synchronous operation \<open>f\<close> on the connection that was found.\<close>

definition on_sync_connection ::
    "(nat \<Rightarrow> nat \<Rightarrow> bool) \<Rightarrow> (nat \<Rightarrow> DatabaseConnection \<Rightarrow> (DatabaseConnection \<times> 'a result) option)
      \<Rightarrow> DatabaseWorkerPool \<Rightarrow> (DatabaseWorkerPool \<times> 'a result) option" where
  "on_sync_connection ready f p =
     (case GetSyncConnection ready p of
        None \<Rightarrow> None
      | Some (Inl e) \<Rightarrow> Some (p, Inl e)
      | Some (Inr j) \<Rightarrow>
          map_option (\<lambda>(c, r). (p\<lparr>wp_sync := (wp_sync p)[j := c]\<rparr>, r)) (f j (wp_sync p ! j)))"

definition wp_Execute ::
    "(nat \<Rightarrow> nat \<Rightarrow> bool) \<Rightarrow> (nat \<Rightarrow> mysql_lib) \<Rightarrow> string option \<Rightarrow> DatabaseWorkerPool \<Rightarrow> (DatabaseWorkerPool \<times> bool result) option" where
  "wp_Execute ready libs query = on_sync_connection ready (\<lambda>j. Execute (libs j) query)"

definition wp_Query ::
    "(nat \<Rightarrow> nat \<Rightarrow> bool) \<Rightarrow> bool \<Rightarrow> (nat \<Rightarrow> mysql_lib) \<Rightarrow> string option \<Rightarrow> DatabaseWorkerPool
      \<Rightarrow> (DatabaseWorkerPool \<times> ResultSet option result) option" where
  "wp_Query ready fjunk libs query = on_sync_connection ready (\<lambda>j. Query fjunk (libs j) query)"

definition wp_Execute_stmt ::
    "(nat \<Rightarrow> nat \<Rightarrow> bool) \<Rightarrow> (nat \<Rightarrow> mysql_lib) \<Rightarrow> PreparedStatement \<Rightarrow> DatabaseWorkerPool \<Rightarrow> (DatabaseWorkerPool \<times> bool result) option" where
  "wp_Execute_stmt ready libs stmt = on_sync_connection ready (\<lambda>j. Execute_stmt (libs j) stmt)"

definition wp_Query_stmt ::
    "(nat \<Rightarrow> nat \<Rightarrow> bool) \<Rightarrow> bool \<Rightarrow> uint64 \<Rightarrow> nat \<Rightarrow> (nat \<Rightarrow> mysql_lib) \<Rightarrow> PreparedStatement \<Rightarrow> DatabaseWorkerPool
      \<Rightarrow> (DatabaseWorkerPool \<times> ResultSet option result) option" where
  "wp_Query_stmt ready fjunk junk time_size libs stmt =
     on_sync_connection ready (\<lambda>j. Query_stmt fjunk junk time_size (libs j) stmt)"

definition wp_Escape ::
    "(nat \<Rightarrow> nat \<Rightarrow> bool) \<Rightarrow> (nat \<Rightarrow> mysql_lib) \<Rightarrow> string \<Rightarrow> DatabaseWorkerPool \<Rightarrow> (DatabaseWorkerPool \<times> string result) option" where
  "wp_Escape ready libs txt = on_sync_connection ready (\<lambda>j c. Some (c, Escape (libs j) txt c))"

text \<open>A statement to fill in, and the asynchronous operations: they go to the queue of the workers.\<close>

definition wp_GetPreparedStatement :: "uint32 \<Rightarrow> PreparedStatement" where
  "wp_GetPreparedStatement stmtid = PreparedStatement_new stmtid"

definition ExecuteAsync_query :: "string \<Rightarrow> DatabaseOperation pool \<Rightarrow> bool \<times> DatabaseOperation pool" where
  "ExecuteAsync_query query = ExecuteAsync (QueryOperation (c_str query) False)"

definition ExecuteAsync_stmt :: "PreparedStatement \<Rightarrow> DatabaseOperation pool \<Rightarrow> bool \<times> DatabaseOperation pool" where
  "ExecuteAsync_stmt stmt = ExecuteAsync (PreparedStatementOperation stmt False)"

definition QueryAsync_query :: "string \<Rightarrow> DatabaseOperation pool \<Rightarrow> bool \<times> DatabaseOperation pool" where
  "QueryAsync_query query = ExecuteAsync (QueryOperation (c_str query) True)"

definition QueryAsync_stmt :: "PreparedStatement \<Rightarrow> DatabaseOperation pool \<Rightarrow> bool \<times> DatabaseOperation pool" where
  "QueryAsync_stmt stmt = ExecuteAsync (PreparedStatementOperation stmt True)"

section \<open>Reconnecting\<close>

lemma HandleMySQLErrno_reconnects:
  assumes "e \<in> ClientError" and "dc_mysql c = Open_ptr"
    and "lib_init lib (dc_calls c)" and "lib_connect lib (dc_calls c + 1) (dc_connectionInfo c) = None"
  shows "HandleMySQLErrno lib e c = Some (c\<lparr>dc_calls := dc_calls c + 2\<rparr>, Inr True)"
  using assms by (subst HandleMySQLErrno.simps) (simp add: close_handle_def Open_def tick_def Let_def)

lemma HandleMySQLErrno_other: "e \<notin> ClientError \<Longrightarrow> HandleMySQLErrno lib e c = Some (c, Inr False)"
  by (subst HandleMySQLErrno.simps) simp

text \<open>
  The first \<open>n\<close> attempts of a query lose the connection and each time it can be made again; every round is
  three calls of the library.
\<close>

definition lost_rounds :: "mysql_lib \<Rightarrow> string \<Rightarrow> ConnectionInfo \<Rightarrow> nat \<Rightarrow> nat \<Rightarrow> bool" where
  "lost_rounds lib q info t n \<longleftrightarrow>
     (\<forall>k < n. lib_query lib (t + 3 * k) q \<in> Inl ` ClientError \<and> lib_init lib (t + 3 * k + 1)
        \<and> lib_connect lib (t + 3 * k + 2) info = None)"

lemma lost_rounds_Suc:
  "lost_rounds lib q info t (Suc n) \<longleftrightarrow>
     lib_query lib t q \<in> Inl ` ClientError \<and> lib_init lib (t + 1) \<and> lib_connect lib (t + 2) info = None
     \<and> lost_rounds lib q info (t + 3) n"
  unfolding lost_rounds_def less_Suc_eq_0_disj by (auto simp: algebra_simps)

lemma lost_rounds_step:
  assumes "lost_rounds lib q (dc_connectionInfo c) (dc_calls c) (Suc n)" and "dc_mysql c = Open_ptr"
  obtains e where "lib_query lib (dc_calls c) q = Inl e"
    and "HandleMySQLErrno lib e (tick c) = Some (c\<lparr>dc_calls := dc_calls c + 3\<rparr>, Inr True)"
    and "lost_rounds lib q (dc_connectionInfo c) (dc_calls c + 3) n"
proof -
  from assms(1) obtain e where "e \<in> ClientError" "lib_query lib (dc_calls c) q = Inl e"
      "lost_rounds lib q (dc_connectionInfo c) (dc_calls c + 3) n"
      "lib_init lib (dc_calls c + 1)" "lib_connect lib (dc_calls c + 2) (dc_connectionInfo c) = None"
    by (auto simp: lost_rounds_Suc)
  with assms(2) that [of e] HandleMySQLErrno_reconnects [of e "tick c" lib] show ?thesis
    by (simp add: tick_def eval_nat_numeral)
qed

lemma Execute_rounds:
  assumes "dc_mysql c = Open_ptr" and "lost_rounds lib q (dc_connectionInfo c) (dc_calls c) n"
  shows "Execute lib (Some q) c = Execute lib (Some q) (c\<lparr>dc_calls := dc_calls c + 3 * n\<rparr>)"
  using assms
proof (induction n arbitrary: c)
  case (Suc n)
  let ?c = "c\<lparr>dc_calls := dc_calls c + 3\<rparr>"
  obtain e where e: "lib_query lib (dc_calls c) q = Inl e" "HandleMySQLErrno lib e (tick c) = Some (?c, Inr True)"
      "lost_rounds lib q (dc_connectionInfo c) (dc_calls c + 3) n"
    by (rule lost_rounds_step [OF Suc.prems(2,1)])
  have "Execute lib (Some q) c = Execute lib (Some q) ?c"
    using e(1,2) Suc.prems(1) by (subst Execute.simps) simp
  also have "\<dots> = Execute lib (Some q) (c\<lparr>dc_calls := dc_calls c + 3 * Suc n\<rparr>)"
    using Suc.IH [of ?c] Suc.prems(1) e(3) by (simp add: algebra_simps)
  finally show ?case .
qed simp

lemma Query_rounds:
  assumes "dc_mysql c = Open_ptr" and "lost_rounds lib q (dc_connectionInfo c) (dc_calls c) n"
  shows "Query_rows lib q c = Query_rows lib q (c\<lparr>dc_calls := dc_calls c + 3 * n\<rparr>)"
  using assms
proof (induction n arbitrary: c)
  case (Suc n)
  let ?c = "c\<lparr>dc_calls := dc_calls c + 3\<rparr>"
  obtain e where e: "lib_query lib (dc_calls c) q = Inl e" "HandleMySQLErrno lib e (tick c) = Some (?c, Inr True)"
      "lost_rounds lib q (dc_connectionInfo c) (dc_calls c + 3) n"
    by (rule lost_rounds_step [OF Suc.prems(2,1)])
  have "Query_rows lib q c = Query_rows lib q ?c"
    using e(1,2) Suc.prems(1) by (subst Query_rows.simps) simp
  also have "\<dots> = Query_rows lib q (c\<lparr>dc_calls := dc_calls c + 3 * Suc n\<rparr>)"
    using Suc.IH [of ?c] Suc.prems(1) e(3) by (simp add: algebra_simps)
  finally show ?case .
qed simp

section \<open>Looking for a free connection\<close>

lemma sync_loop_finds:
  assumes n: "unat n = m" "0 < m" and free: "\<And>k. k < m \<Longrightarrow> ready k j" and "k0 < m" "(k0 + 1) mod m = j" and "k \<le> k0"
  shows "\<exists>k' j'. sync_loop ready n k (of_nat k) = Some (Inr j') \<and> k' < m \<and> j' < m \<and> ready k' j'"
  using assms(6)
proof (induction "k0 - k" arbitrary: k)
  case 0
  then have "k = k0" by simp
  have m: "m < 256" using n(1) unsigned_less [of n, where ?'a = nat] by simp
  have "unat (of_nat k + 1 :: uint32) = k + 1"
    using \<open>k = k0\<close> assms(4) m by (simp add: unat_plus_fits)
  with \<open>k = k0\<close> assms(4,5) n free [of k0] show ?case
    by (subst sync_loop.simps) (auto simp: Let_def intro!: exI [of _ k0])
next
  case (Suc d)
  have m: "m < 256" using n(1) unsigned_less [of n, where ?'a = nat] by simp
  have i: "unat (of_nat k + 1 :: uint32) = k + 1" "(of_nat k + 1 :: uint32) = of_nat (k + 1)"
    using Suc.prems assms(4) m by (simp_all add: unat_plus_fits)
  have IH: "\<exists>k' j'. sync_loop ready n (k + 1) (of_nat (k + 1)) = Some (Inr j') \<and> k' < m \<and> j' < m \<and> ready k' j'"
    using Suc by (intro Suc.hyps(1)) simp_all
  show ?case
  proof (cases "ready k ((k + 1) mod m)")
    case True
    then have "sync_loop ready n k (of_nat k) = Some (Inr ((k + 1) mod m))"
      using n i(1) by (subst sync_loop.simps) (auto simp: Let_def)
    with True n Suc.prems assms(4) show ?thesis by (intro exI [of _ k] exI [of _ "(k + 1) mod m"]) simp
  next
    case False
    then have "sync_loop ready n k (of_nat k) = sync_loop ready n (k + 1) (of_nat (k + 1))"
      using n i(1) unfolding i(2) [symmetric] by (subst sync_loop.simps) (auto simp: Let_def)
    with IH show ?thesis by simp
  qed
qed

lemma sync_connection_found:
  assumes "length (wp_sync p) = m" "m \<le> 255" and "j < m" and "\<And>k. k < m \<Longrightarrow> ready k j"
  shows "\<exists>k j'. GetSyncConnection ready p = Some (Inr j') \<and> k < m \<and> j' < m \<and> ready k j'"
proof -
  have "\<exists>k0 < m. (k0 + 1) mod m = j"
  proof (cases j)
    case 0
    then show ?thesis using assms(3) by (intro exI [of _ "m - 1"]) simp
  next
    case (Suc k)
    then show ?thesis using assms(3) by (intro exI [of _ k]) simp
  qed
  then obtain k0 where "k0 < m" "(k0 + 1) mod m = j" by blast
  moreover have "unat (of_nat m :: uint8) = m" using assms(2) by simp
  ultimately show ?thesis
    using sync_loop_finds [of "of_nat m" m ready j k0 0] assms by (simp add: GetSyncConnection_def)
qed

section \<open>Properties\<close>

text \<open>
  C30. A query survives a lost connection: however often the server goes away, as long as the connection
  can be made again each time, \<^verbatim>\<open>Execute\<close> returns, and it returns whether the last attempt succeeded; the
  connection is open afterwards.
\<close>

theorem Execute_reconnects:
  assumes "dc_mysql c = Open_ptr" and "lost_rounds lib q (dc_connectionInfo c) (dc_calls c) n"
    and "lib_query lib (dc_calls c + 3 * n) q \<notin> Inl ` ClientError"
  shows "\<exists>c'. Execute lib (Some q) c = Some (c', Inr (\<exists>d. lib_query lib (dc_calls c + 3 * n) q = Inr d))
    \<and> dc_mysql c' = Open_ptr \<and> dc_stmts c' = dc_stmts c \<and> dc_calls c' = dc_calls c + 3 * n + 1"
proof -
  let ?c = "c\<lparr>dc_calls := dc_calls c + 3 * n\<rparr>"
  have "Execute lib (Some q) ?c = Some (tick ?c, Inr (\<exists>d. lib_query lib (dc_calls c + 3 * n) q = Inr d))"
  proof (cases "lib_query lib (dc_calls c + 3 * n) q")
    case (Inl e)
    with assms(3) have "HandleMySQLErrno lib e (tick ?c) = Some (tick ?c, Inr False)"
      by (intro HandleMySQLErrno_other) auto
    with Inl assms(1) show ?thesis by (subst Execute.simps) simp
  qed (use assms(1) in \<open>subst Execute.simps, simp\<close>)
  with Execute_rounds [OF assms(1,2)] assms(1) show ?thesis by (simp add: tick_def)
qed

text \<open>
  The rows of a query reach the caller, also over lost connections: when the server at last sends a
  set of rows, \<^verbatim>\<open>Query\<close> returns a result from which these rows are fetched in order, each column with its
  text or without a value for \<^verbatim>\<open>NULL\<close>, and then the null pointer.
\<close>

theorem Query_returns_rows:
  assumes "dc_mysql c = Open_ptr" and "lost_rounds lib q (dc_connectionInfo c) (dc_calls c) n"
    and d: "lib_query lib (dc_calls c + 3 * n) q = Inr d" "qd_stored d" "qd_affected d = of_nat (length (qd_rows d))"
    and rows: "qd_rows d \<noteq> []" "length (qd_rows d) < 2 ^ 64"
    and columns: "\<And>row. row \<in> set (qd_rows d) \<Longrightarrow> length row = unat (qd_fields d)" "length (qd_types d) = unat (qd_fields d)"
  shows "\<exists>c' rs rs' rows. Query junk lib (Some q) c = Some (c', Inr (Some rs)) \<and> dc_mysql c' = Open_ptr
    \<and> fetch_rows (length (qd_rows d)) rs = Inr (map Some rows, rs') \<and> FetchRow rs' = Inr (None, rs')
    \<and> map (map (\<lambda>f. map_option text_of (f_value f))) rows = map (map (map_option c_str)) (qd_rows d)"
proof -
  let ?c = "c\<lparr>dc_calls := dc_calls c + 3 * n\<rparr>"
  have "qd_affected d \<noteq> 0" using d(3) rows by (simp add: word_unat_eq_iff)
  then have "Query_rows lib q c = Some (tick ?c, Inr (Some d))"
    using Query_rounds [OF assms(1,2)] assms(1) d by (subst (asm) (2) Query_rows.simps) simp
  moreover from query_result_rows [OF rows(2) columns, of junk] obtain rs rows rs' where
    "ResultSet_query junk (qd_rows d) (qd_types d) (of_nat (length (qd_rows d))) (qd_fields d) = Inr rs"
    "fetch_rows (length (qd_rows d)) rs = Inr (map Some rows, rs')" "FetchRow rs' = Inr (None, rs')"
    "map (map (\<lambda>f. map_option text_of (f_value f))) rows = map (map (map_option c_str)) (qd_rows d)" by blast
  ultimately show ?thesis using assms(1) d(3) by (auto simp: Query_def tick_def)
qed


text \<open>
  The search for a connection ends: with at most 255 of them, if one is free whenever it is looked at
  during the first round, a connection is returned that was free at that moment.
\<close>

theorem GetSyncConnection_finds:
  assumes "length (wp_sync p) = m" "m \<le> 255" and "j < m" and "\<And>k. k < m \<Longrightarrow> ready k j"
  shows "\<exists>k j'. GetSyncConnection ready p = Some (Inr j') \<and> k < m \<and> j' < m \<and> ready k j'"
  using assms by (rule sync_connection_found)

text \<open>The number of asynchronous connections is that of the synchronous ones, whatever was asked for.\<close>

lemma open_loop_count:
  "(\<And>k. lib_init (libs k) 0 \<and> lib_connect (libs k) 1 info = None) \<Longrightarrow>
   \<exists>cs'. open_loop libs junk info async n res cs = (cs', Inr res) \<and> length cs' = length cs + n"
proof (induction n arbitrary: cs)
  case (Suc n)
  let ?c = "(DatabaseConnection_new junk info async)\<lparr>dc_calls := 2, dc_mysql := Open_ptr\<rparr>"
  have "Open (libs (length cs)) (DatabaseConnection_new junk info async) = (?c, Inr True)"
    using Suc.prems by (simp add: Open_def DatabaseConnection_new_def tick_def eval_nat_numeral)
  moreover obtain cs' where "open_loop libs junk info async n res (cs @ [?c]) = (cs', Inr res)"
      "length cs' = length (cs @ [?c]) + n"
    using Suc by blast
  ultimately show ?case by simp
qed simp

lemma prepare_loop_length: "length (fst (prepare_loop libs index sql cs ready)) = length ready + length cs"
  by (induction cs arbitrary: ready) (auto split: prod.splits sum.splits bool.splits)

lemma LoadSTMT_counts:
  "length (wp_sync (fst (LoadSTMT sl al p))) = length (wp_sync p)
   \<and> length (wp_async (fst (LoadSTMT sl al p))) = length (wp_async p)"
proof -
  let ?q = "wp_PrepareStatement sl al STMT_QUERY_SHARES
       ''SELECT `id`, `difficulty`, UNIX_TIMESTAMP(`time`) FROM `shares` WHERE `id` > ? ORDER BY `id` ASC LIMIT 500000;''
       True True p"
  have "length (wp_sync (fst ?q)) = length (wp_sync p) \<and> length (wp_async (fst ?q)) = length (wp_async p)"
    using prepare_loop_length [of sl _ _ "wp_sync p" "[]"] prepare_loop_length [of al _ _ "wp_async p" "[]"]
    by (auto simp: wp_PrepareStatement_def split: prod.splits sum.splits bool.splits) (metis fst_conv)+
  moreover have "fst (LoadSTMT sl al p) = fst ?q"
    by (auto simp: LoadSTMT_def bindE_def returnE_def split: prod.splits sum.splits)
  ultimately show ?thesis by simp
qed

lemma wp_Open_counts:
  assumes "\<And>k. lib_init (sl k) 0 \<and> lib_connect (sl k) 1 info = None" and "\<And>k. lib_init (al k) 0 \<and> lib_connect (al k) 1 info = None"
    and "wp_sync p = []" "wp_async p = []"
  shows "length (wp_sync (fst (wp_Open sl al junk info s a p))) = unat s
    \<and> length (wp_async (fst (wp_Open sl al junk info s a p))) = unat s"
proof -
  obtain cs where cs: "open_loop sl junk info False (unat s) True [] = (cs, Inr True)" "length cs = unat s"
    using open_loop_count [OF assms(1)] by fastforce
  obtain ds where ds: "open_loop al junk info True (unat s) True [] = (ds, Inr True)" "length ds = unat s"
    using open_loop_count [OF assms(2)] by fastforce
  let ?p = "p\<lparr>wp_connectionInfo := info, wp_sync := cs, wp_async := ds\<rparr>"
  have "fst (wp_Open sl al junk info s a p) = fst (LoadSTMT sl al ?p)"
    using assms(3,4) cs(1) ds(1) by (auto simp: wp_Open_def bindE_def returnE_def split: prod.splits sum.splits)
  then show ?thesis using LoadSTMT_counts [of sl al ?p] cs(2) ds(2) by simp
qed

text \<open>
  Without a connection, because another driver or a multiple of 256 threads was configured, the first
  synchronous query divides by zero.
\<close>

lemma no_connection_undefined:
  assumes "wp_sync p = []" "wp_async p = []" and "ucast (MySQLSyncThreads cfg) = (0 :: uint8) \<or> \<not> iequals (DatabaseDriver cfg) ''mysql''"
    and "InitDatabase iequals sl al junk cfg p = (p', Inr r)"
  shows "wp_Query ready fjunk libs query p' = Some (p', Inl (Undefined ''division by zero''))"
proof -
  have "fst (InitDatabase iequals sl al junk cfg p) = p'" using assms(4) by simp
  then have "wp_sync p' = []"
    using assms(1-3) LoadSTMT_counts [of sl al "p\<lparr>wp_connectionInfo := MySQLInfo cfg\<rparr>"]
    by (auto simp: InitDatabase_def wp_Open_def returnE_def bindE_def split: prod.splits sum.splits if_splits)
  then show ?thesis
    by (simp add: wp_Query_def on_sync_connection_def GetSyncConnection_def sync_loop.simps [of _ 0])
qed

section \<open>A small instance\<close>

text \<open>A server that is gone at the first query and then answers with one row; with \<open>down\<close> it does not come back.\<close>

definition sample_data :: query_data where
  "sample_data = \<lparr>qd_stored = True, qd_rows = [[Some ''1'', None]], qd_types = [MYSQL_TYPE_LONG, MYSQL_TYPE_LONG],
     qd_affected = 1, qd_fields = 2\<rparr>"

definition sample_lib :: "bool \<Rightarrow> mysql_lib" where
  "sample_lib down = \<lparr>lib_init = (\<lambda>t. True), lib_connect = (\<lambda>t info. if down then Some (2003, ''down'') else None),
     lib_query = (\<lambda>t q. if t = 0 then Inl 2006 else Inr sample_data), lib_stmt_init = (\<lambda>t. True),
     lib_prepare = (\<lambda>t sql. Some 1), lib_bind_param = (\<lambda>t b. None), lib_execute = (\<lambda>t b. None),
     lib_result = (\<lambda>t. (\<lparr>sr_metadata = None, sr_store_ok = True, sr_bind_ok = True, sr_num_rows = 0, sr_fetches = []\<rparr>, 0)),
     lib_escape = (\<lambda>txt. txt)\<rparr>"

definition sample_conn :: DatabaseConnection where
  "sample_conn = (DatabaseConnection_new 0 \<lparr>ci_Host = ''localhost'', ci_Port = 3306, ci_User = [], ci_Pass = [], ci_DB = []\<rparr> True)
     \<lparr>dc_mysql := Open_ptr\<rparr>"

lemma sample_conn_simps [simp]: "dc_mysql sample_conn = Open_ptr" "dc_calls sample_conn = 0"
  by (simp_all add: sample_conn_def DatabaseConnection_new_def)

lemma sample_lost: "lost_rounds (sample_lib False) q info 0 1"
  by (simp add: lost_rounds_def sample_lib_def ClientError_def)

theorem Execute_reconnects_witness:
  "\<exists>c'. Execute (sample_lib False) (Some ''query'') sample_conn = Some (c', Inr True) \<and> dc_mysql c' = Open_ptr
    \<and> dc_stmts c' = dc_stmts sample_conn \<and> dc_calls c' = 4"
  using Execute_reconnects [of sample_conn "sample_lib False" "''query''" 1] sample_lost
  by (simp add: sample_lib_def image_iff)

theorem Query_returns_rows_witness:
  "\<exists>c' rs rs' rows. Query True (sample_lib False) (Some ''query'') sample_conn = Some (c', Inr (Some rs))
    \<and> dc_mysql c' = Open_ptr \<and> fetch_rows 1 rs = Inr (map Some rows, rs') \<and> FetchRow rs' = Inr (None, rs')
    \<and> map (map (\<lambda>f. map_option text_of (f_value f))) rows = [[Some ''1'', None]]"
  using Query_returns_rows [of sample_conn "sample_lib False" "''query''" 1 sample_data True] sample_lost
  by (simp add: sample_lib_def sample_data_def c_str_def)


definition sample_workers :: DatabaseWorkerPool where
  "sample_workers = \<lparr>wp_sync = [sample_conn, sample_conn], wp_async = [], wp_connectionInfo = dc_connectionInfo sample_conn\<rparr>"

text \<open>Connection 1 is busy at the first attempt, connection 0 is free.\<close>

theorem GetSyncConnection_finds_witness:
  "GetSyncConnection (\<lambda>k j. j = 0) sample_workers = Some (Inr 0)"
  using GetSyncConnection_finds [of sample_workers 2 0 "\<lambda>k j. j = 0"] by (simp add: sample_workers_def)

end
