(* ===== verification/Logging.thy ===== *)
theory Logging
  imports Hex
begin

text \<open>
  The log (\<open>shared/Logging/Log.h\<close>, \<open>Log.cpp\<close>): which messages go to the console and to the file. The
  text of the time is an argument.
\<close>

section \<open>Types and levels (Log.h)\<close>

datatype LogType = LOG_GENERAL | LOG_SERVER | LOG_DATABASE | LOG_JSON | LOG_JSONRPC | LOG_STRATUM

datatype LogLevel = LOG_LEVEL_NONE | LOG_LEVEL_ERROR | LOG_LEVEL_WARN | LOG_LEVEL_INFO | LOG_LEVEL_DEBUG

primrec type_number :: "LogType \<Rightarrow> nat" where
  "type_number LOG_GENERAL = 0"
| "type_number LOG_SERVER = 1"
| "type_number LOG_DATABASE = 2"
| "type_number LOG_JSON = 3"
| "type_number LOG_JSONRPC = 4"
| "type_number LOG_STRATUM = 5"

primrec level_number :: "LogLevel \<Rightarrow> uint32" where
  "level_number LOG_LEVEL_NONE = 0"
| "level_number LOG_LEVEL_ERROR = 1"
| "level_number LOG_LEVEL_WARN = 2"
| "level_number LOG_LEVEL_INFO = 3"
| "level_number LOG_LEVEL_DEBUG = 4"

record LogConfig =
  LogConsoleLevel :: uint32
  LogConsoleDebugMask :: uint32
  LogFileLevel :: uint32
  LogFileDebugMask :: uint32

text \<open>The name of the open file, its lines, and those of the console.\<close>

record Log =
  logfile :: "string option"
  file_lines :: "string list"
  console :: "string list"

definition OpenLogFile :: "string \<Rightarrow> string \<Rightarrow> Log \<Rightarrow> Log" where
  "OpenLogFile date path log =
     (if logfile log = None then log\<lparr>logfile := Some (path @ ''/server-'' @ date @ ''.log''), file_lines := []\<rparr> else log)"

section \<open>Writing (Log.cpp)\<close>

definition AppendFile :: "string \<Rightarrow> Log \<Rightarrow> Log" where
  "AppendFile msg log = (if logfile log = None then log else log\<lparr>file_lines := file_lines log @ [msg]\<rparr>)"

definition Print :: "string \<Rightarrow> Log \<Rightarrow> Log" where
  "Print msg log = log\<lparr>console := console log @ [msg]\<rparr>"

text \<open>\<^verbatim>\<open>mask & uint32_t(pow(2, type))\<close>.\<close>

definition masked :: "uint32 \<Rightarrow> LogType \<Rightarrow> bool" where
  "masked debugmask ty \<longleftrightarrow> and debugmask (of_nat (2 ^ type_number ty)) \<noteq> 0"

definition both :: "LogConfig \<Rightarrow> uint32 \<Rightarrow> string \<Rightarrow> Log \<Rightarrow> Log" where
  "both cfg level line log =
     (let log = (if LogConsoleLevel cfg \<ge> level then Print line log else log) in
      if LogFileLevel cfg \<ge> level then AppendFile line log else log)"

definition Write :: "LogConfig \<Rightarrow> string \<Rightarrow> LogLevel \<Rightarrow> LogType \<Rightarrow> string \<Rightarrow> Log \<Rightarrow> Log" where
  "Write cfg timestamp level ty msg log =
     (case level of
        LOG_LEVEL_NONE \<Rightarrow> log
      | LOG_LEVEL_ERROR \<Rightarrow> both cfg (level_number level) (timestamp @ '' [ERROR] '' @ msg) log
      | LOG_LEVEL_WARN \<Rightarrow> both cfg (level_number level) (timestamp @ '' [WARN] '' @ msg) log
      | LOG_LEVEL_INFO \<Rightarrow> both cfg (level_number level) (timestamp @ '' [INFO] '' @ msg) log
      | LOG_LEVEL_DEBUG \<Rightarrow>
          let line = timestamp @ '' [DEBUG] '' @ msg;
              log = (if LogConsoleLevel cfg \<ge> level_number level
                     then if masked (LogConsoleDebugMask cfg) ty then Print line log else log
                     else log)
          in if LogFileLevel cfg \<ge> level_number level
             then if masked (LogFileDebugMask cfg) ty then AppendFile line log else log
             else log)"

text \<open>The four entry points format into a buffer of \<open>MAX_MSG_LEN\<close> characters; \<open>parts\<close> are the pieces of the text.\<close>

definition log_message :: "LogConfig \<Rightarrow> string \<Rightarrow> LogLevel \<Rightarrow> LogType \<Rightarrow> string list \<Rightarrow> Log \<Rightarrow> Log" where
  "log_message cfg timestamp level ty parts = Write cfg timestamp level ty (take (32 * 1024 - 1) (concat parts))"

definition Error :: "LogConfig \<Rightarrow> string \<Rightarrow> LogType \<Rightarrow> string list \<Rightarrow> Log \<Rightarrow> Log" where
  "Error cfg timestamp = log_message cfg timestamp LOG_LEVEL_ERROR"

definition Warn :: "LogConfig \<Rightarrow> string \<Rightarrow> LogType \<Rightarrow> string list \<Rightarrow> Log \<Rightarrow> Log" where
  "Warn cfg timestamp = log_message cfg timestamp LOG_LEVEL_WARN"

definition Info :: "LogConfig \<Rightarrow> string \<Rightarrow> LogType \<Rightarrow> string list \<Rightarrow> Log \<Rightarrow> Log" where
  "Info cfg timestamp = log_message cfg timestamp LOG_LEVEL_INFO"

definition Debug :: "LogConfig \<Rightarrow> string \<Rightarrow> LogType \<Rightarrow> string list \<Rightarrow> Log \<Rightarrow> Log" where
  "Debug cfg timestamp = log_message cfg timestamp LOG_LEVEL_DEBUG"

section \<open>What is written\<close>

text \<open>The mask has a bit for every type.\<close>

lemma masked_bit: "masked m ty \<longleftrightarrow> bit m (type_number ty)"
proof -
  have "(of_nat (2 ^ type_number ty) :: uint32) = 2 ^ type_number ty" by simp
  moreover have "and m (2 ^ type_number ty) = (if bit m (type_number ty) then 2 ^ type_number ty else 0)"
    by (rule bit_eqI) (auto simp: bit_simps)
  moreover have "(2 ^ type_number ty :: uint32) \<noteq> 0" by (cases ty) simp_all
  ultimately show ?thesis by (simp add: masked_def)
qed

definition wanted :: "uint32 \<Rightarrow> uint32 \<Rightarrow> LogLevel \<Rightarrow> LogType \<Rightarrow> bool" where
  "wanted limit m level ty \<longleftrightarrow>
     level \<noteq> LOG_LEVEL_NONE \<and> level_number level \<le> limit \<and> (level = LOG_LEVEL_DEBUG \<longrightarrow> bit m (type_number ty))"

text \<open>
  A message goes to the console, and to the file if one is open, exactly when its level is within the one
  configured there and, for a debug message, the bit of its type is set; nothing written before is
  touched.
\<close>

lemma Write_filter:
  "\<exists>line. (\<exists>tag. line = timestamp @ tag @ msg)
     \<and> console (Write cfg timestamp level ty msg log)
         = console log @ (if wanted (LogConsoleLevel cfg) (LogConsoleDebugMask cfg) level ty then [line] else [])
     \<and> file_lines (Write cfg timestamp level ty msg log)
         = file_lines log @ (if logfile log \<noteq> None \<and> wanted (LogFileLevel cfg) (LogFileDebugMask cfg) level ty then [line] else [])
     \<and> logfile (Write cfg timestamp level ty msg log) = logfile log"
  by (cases level)
    (auto simp: Write_def both_def Print_def AppendFile_def wanted_def masked_bit Let_def)

end
