(* ===== verification/Configuration.thy ===== *)
theory Configuration
  imports Pool_State Mysql_Connection Logging
begin

text \<open>
  The configuration: the table of options and their defaults and \<^verbatim>\<open>InitConfig\<close> (\<open>poolserver/Main.cpp\<close>),
  \<^verbatim>\<open>Config::Get\<close> (\<open>shared/Configuration/Config.h\<close>), and the records of options that the other theories
  use. The parsers of Boost and its \<^verbatim>\<open>store\<close> are arguments.
\<close>

section \<open>Options (Main.cpp)\<close>

text \<open>The values that an option can have, and the values of all options with the flag \<^verbatim>\<open>defaulted\<close>.\<close>

datatype any = A_uint16 uint16 | A_uint32 uint32 | A_double double | A_string string | A_strings "string list"

type_synonym variables_map = "string \<rightharpoonup> any \<times> bool"

type_synonym options_description = "(string \<times> any option) list"

definition descGeneric :: options_description where
  "descGeneric =
     [(''version'', None),
      (''help'', None),
      (''config'', Some (A_string ''../etc/poolserver.cfg''))]"

definition descServer :: options_description where
  "descServer =
     [(''ServerThreads'', Some (A_uint32 2)),
      (''MiningAddress'', None),
      (''BitcoinRPC'', None),
      (''ShareUploadMinCount'', Some (A_uint32 2)),
      (''ShareUploadBulkCount'', Some (A_uint32 50)),
      (''ShareUploadInterval'', Some (A_uint32 3))]"

definition descStratum :: options_description where
  "descStratum =
     [(''StratumHost'', Some (A_string ''0.0.0.0'')),
      (''StratumRedirectHost'', Some (A_string ''0.0.0.0'')),
      (''StratumPort'', Some (A_uint16 3333)),
      (''StratumBlockCheckTime'', Some (A_uint32 2000)),
      (''RetargetInterval'', Some (A_uint32 20)),
      (''RetargetSharesThreshold'', Some (A_uint32 20)),
      (''RetargetTimeBuffer'', Some (A_uint32 (60 * 5))),
      (''RetargetTimePerShare'', Some (A_double 4)),
      (''RetargetVariance'', Some (A_uint32 40)),
      (''RetargetStartingDiff'', Some (A_uint32 2)),
      (''RetargetMinDiff'', Some (A_uint32 1)),
      (''RetargetMaxDiff'', Some (A_uint32 1000000))]"

definition descLogging :: options_description where
  "descLogging =
     [(''LogConsoleLevel'', Some (A_uint32 (level_number LOG_LEVEL_INFO))),
      (''LogConsoleDebugMask'', Some (A_uint32 0)),
      (''LogFilePath'', Some (A_string ''../etc'')),
      (''LogFileLevel'', Some (A_uint32 (level_number LOG_LEVEL_WARN))),
      (''LogFileDebugMask'', Some (A_uint32 0))]"

definition descMySQL :: options_description where
  "descMySQL =
     [(''MySQLHost'', Some (A_string ''127.0.0.1'')),
      (''MySQLPort'', Some (A_uint16 3306)),
      (''MySQLUser'', Some (A_string ''root'')),
      (''MySQLPass'', Some (A_string '''')),
      (''MySQLDatabase'', Some (A_string ''poolserver'')),
      (''MySQLSyncThreads'', Some (A_uint16 2)),
      (''MySQLAsyncThreads'', Some (A_uint16 2))]"

definition descDatabase :: options_description where
  "descDatabase = (''DatabaseDriver'', Some (A_string ''mysql'')) # descMySQL"

definition cmdlineOptions :: options_description where
  "cmdlineOptions = descGeneric @ descServer @ descStratum @ descLogging @ descDatabase"

definition fileOptions :: options_description where
  "fileOptions = descServer @ descStratum @ descLogging @ descDatabase"

section \<open>Reading an option (Config.h)\<close>

text \<open>
  \<^verbatim>\<open>Get<T>\<close> catches the exception for a missing value or another type; a number is then what the variable
  happens to hold, a string or a vector is empty.
\<close>

definition Get_uint32 :: "uint32 \<Rightarrow> variables_map \<Rightarrow> string \<Rightarrow> uint32" where
  "Get_uint32 tmp vm key = (case vm key of Some (A_uint32 x, _) \<Rightarrow> x | _ \<Rightarrow> tmp)"

definition Get_uint16 :: "uint16 \<Rightarrow> variables_map \<Rightarrow> string \<Rightarrow> uint16" where
  "Get_uint16 tmp vm key = (case vm key of Some (A_uint16 x, _) \<Rightarrow> x | _ \<Rightarrow> tmp)"

definition Get_double :: "double \<Rightarrow> variables_map \<Rightarrow> string \<Rightarrow> double" where
  "Get_double tmp vm key = (case vm key of Some (A_double x, _) \<Rightarrow> x | _ \<Rightarrow> tmp)"

definition Get_text :: "variables_map \<Rightarrow> string \<Rightarrow> string" where
  "Get_text vm key = (case vm key of Some (A_string x, _) \<Rightarrow> x | _ \<Rightarrow> [])"

definition Get_texts :: "variables_map \<Rightarrow> string \<Rightarrow> string list" where
  "Get_texts vm key = (case vm key of Some (A_strings x, _) \<Rightarrow> x | _ \<Rightarrow> [])"

section \<open>Initialisation (Main.cpp)\<close>

text \<open>
  Boost: \<^verbatim>\<open>store\<close>, the parser of the command line, the text of a file if it can be opened, and the parser of
  a configuration file.
\<close>

record program_options =
  po_store :: "(string \<times> any) list \<Rightarrow> options_description \<Rightarrow> variables_map \<Rightarrow> variables_map"
  po_command_line :: "options_description \<Rightarrow> string list \<Rightarrow> (string \<times> any) list result"
  po_open :: "string \<Rightarrow> string option"
  po_config_file :: "options_description \<Rightarrow> string \<Rightarrow> (string \<times> any) list result"

definition InitConfig :: "program_options \<Rightarrow> string list \<Rightarrow> (variables_map, bool) eff" where
  "InitConfig po argv vm =
     (case po_command_line po cmdlineOptions argv of
        Inl e \<Rightarrow> (vm, Inl e)
      | Inr opts \<Rightarrow>
          let vm = po_store po opts cmdlineOptions vm in
          if vm ''help'' \<noteq> None then (vm, Inr False)
          else
            (case po_open po (Get_text vm ''config'') of
               None \<Rightarrow> (vm, Inr True)
             | Some contents \<Rightarrow>
                 (case po_config_file po fileOptions contents of
                    Inl e \<Rightarrow> (vm, Inl e)
                  | Inr opts \<Rightarrow> (po_store po opts fileOptions vm, Inr True))))"

text \<open>The options that the pool, the log and the database read.\<close>

definition Config_of :: "uint32 \<Rightarrow> uint16 \<Rightarrow> double \<Rightarrow> variables_map \<Rightarrow> Config" where
  "Config_of tmp tmp16 tmpd vm =
     \<lparr>RetargetInterval = Get_uint32 tmp vm ''RetargetInterval'',
      RetargetSharesThreshold = Get_uint32 tmp vm ''RetargetSharesThreshold'',
      RetargetTimeBuffer = Get_uint32 tmp vm ''RetargetTimeBuffer'',
      RetargetTimePerShare = Get_double tmpd vm ''RetargetTimePerShare'',
      RetargetVariance = Get_uint32 tmp vm ''RetargetVariance'',
      RetargetStartingDiff = Get_uint32 tmp vm ''RetargetStartingDiff'',
      RetargetMinDiff = Get_uint32 tmp vm ''RetargetMinDiff'',
      RetargetMaxDiff = Get_uint32 tmp vm ''RetargetMaxDiff'',
      MiningAddress = Get_text vm ''MiningAddress'',
      BitcoinRPC = Get_texts vm ''BitcoinRPC'',
      StratumRedirectHost = Get_text vm ''StratumRedirectHost'',
      StratumPort = Get_uint16 tmp16 vm ''StratumPort'',
      ShareUploadMinCount = Get_uint32 tmp vm ''ShareUploadMinCount'',
      ShareUploadBulkCount = Get_uint32 tmp vm ''ShareUploadBulkCount''\<rparr>"

definition LogConfig_of :: "uint32 \<Rightarrow> variables_map \<Rightarrow> LogConfig" where
  "LogConfig_of tmp vm =
     \<lparr>LogConsoleLevel = Get_uint32 tmp vm ''LogConsoleLevel'',
      LogConsoleDebugMask = Get_uint32 tmp vm ''LogConsoleDebugMask'',
      LogFileLevel = Get_uint32 tmp vm ''LogFileLevel'',
      LogFileDebugMask = Get_uint32 tmp vm ''LogFileDebugMask''\<rparr>"

definition DatabaseConfig_of :: "uint16 \<Rightarrow> variables_map \<Rightarrow> DatabaseConfig" where
  "DatabaseConfig_of tmp16 vm =
     \<lparr>DatabaseDriver = Get_text vm ''DatabaseDriver'',
      MySQLInfo = \<lparr>ci_Host = Get_text vm ''MySQLHost'', ci_Port = Get_uint16 tmp16 vm ''MySQLPort'',
        ci_User = Get_text vm ''MySQLUser'', ci_Pass = Get_text vm ''MySQLPass'', ci_DB = Get_text vm ''MySQLDatabase''\<rparr>,
      MySQLSyncThreads = Get_uint16 tmp16 vm ''MySQLSyncThreads'',
      MySQLAsyncThreads = Get_uint16 tmp16 vm ''MySQLAsyncThreads''\<rparr>"

section \<open>Where a value comes from\<close>

text \<open>
  What Boost documents of \<^verbatim>\<open>store\<close>: a value that is there and not a default is kept; otherwise a value that
  was parsed is stored; otherwise a default is kept or, for a described option, stored.
\<close>

definition default_of :: "options_description \<Rightarrow> string \<Rightarrow> any option" where
  "default_of desc key = Option.bind (map_of desc key) id"

definition store_laws :: "program_options \<Rightarrow> bool" where
  "store_laws po \<longleftrightarrow> (\<forall>opts desc vm key.
     (\<forall>x. vm key = Some (x, False) \<longrightarrow> po_store po opts desc vm key = Some (x, False))
     \<and> (\<forall>x. (\<forall>y. vm key \<noteq> Some (y, False)) \<longrightarrow> map_of opts key = Some x \<longrightarrow> po_store po opts desc vm key = Some (x, False))
     \<and> (\<forall>x. vm key = Some (x, True) \<longrightarrow> map_of opts key = None \<longrightarrow> po_store po opts desc vm key = Some (x, True))
     \<and> (vm key = None \<longrightarrow> map_of opts key = None \<longrightarrow>
          po_store po opts desc vm key = map_option (\<lambda>x. (x, True)) (default_of desc key)))"

text \<open>The first of several optional values.\<close>

fun first_of :: "'a option list \<Rightarrow> 'a option" where
  "first_of [] = None"
| "first_of (Some x # xs) = Some x"
| "first_of (None # xs) = first_of xs"

lemma stored:
  assumes "store_laws po"
  shows "map_option fst (po_store po opts desc vm key) =
    (case vm key of
       Some (x, False) \<Rightarrow> Some x
     | Some (x, True) \<Rightarrow> first_of [map_of opts key, Some x]
     | None \<Rightarrow> first_of [map_of opts key, default_of desc key])"
    and "po_store po opts desc vm key = Some (x, True) \<Longrightarrow> map_of opts key = None"
proof -
  have laws: "\<And>x. vm key = Some (x, False) \<Longrightarrow> po_store po opts desc vm key = Some (x, False)"
    "\<And>x. \<forall>y. vm key \<noteq> Some (y, False) \<Longrightarrow> map_of opts key = Some x \<Longrightarrow> po_store po opts desc vm key = Some (x, False)"
    "\<And>x. vm key = Some (x, True) \<Longrightarrow> map_of opts key = None \<Longrightarrow> po_store po opts desc vm key = Some (x, True)"
    "vm key = None \<Longrightarrow> map_of opts key = None \<Longrightarrow>
       po_store po opts desc vm key = map_option (\<lambda>x. (x, True)) (default_of desc key)"
    using assms unfolding store_laws_def by blast+
  show "map_option fst (po_store po opts desc vm key) =
    (case vm key of
       Some (x, False) \<Rightarrow> Some x
     | Some (x, True) \<Rightarrow> first_of [map_of opts key, Some x]
     | None \<Rightarrow> first_of [map_of opts key, default_of desc key])"
    by (cases "map_of opts key"; cases "default_of desc key")
      (auto simp: laws split: option.splits bool.splits)
  show "map_of opts key = None" if "po_store po opts desc vm key = Some (x, True)"
  proof (rule ccontr)
    assume "map_of opts key \<noteq> None"
    then show False using laws(1,2) that by (cases "\<exists>y. vm key = Some (y, False)") auto
  qed
qed

lemma stored_first:
  assumes "store_laws po"
  shows "po_store po opts desc Map.empty key =
    (case map_of opts key of Some x \<Rightarrow> Some (x, False) | None \<Rightarrow> map_option (\<lambda>x. (x, True)) (default_of desc key))"
  using assms unfolding store_laws_def by (cases "map_of opts key") simp_all

lemma stored_twice:
  assumes "store_laws po"
  shows "map_option fst (po_store po file desc2 (po_store po cmd desc1 Map.empty) key)
    = first_of [map_of cmd key, map_of file key, default_of desc1 key, default_of desc2 key]"
  by (cases "map_of cmd key"; cases "map_of file key"; cases "default_of desc1 key"; cases "default_of desc2 key")
    (simp_all add: stored(1) [OF assms] stored_first [OF assms])

lemma cmdlineOptions_eq: "cmdlineOptions = descGeneric @ fileOptions"
  by (simp add: cmdlineOptions_def fileOptions_def)

lemma default_of_fileOptions:
  assumes "default_of cmdlineOptions key = None"
  shows "default_of fileOptions key = None"
proof (cases "map_of descGeneric key")
  case None
  with assms show ?thesis by (simp add: cmdlineOptions_eq default_of_def map_add_def)
next
  case (Some d)
  then have "key = ''version'' \<or> key = ''help'' \<or> key = ''config''"
    unfolding descGeneric_def by (simp split: if_splits)
  moreover have "default_of fileOptions ''version'' = None" "default_of fileOptions ''help'' = None"
    "default_of fileOptions ''config'' = None"
    by (simp_all add: default_of_def fileOptions_def descServer_def descStratum_def descLogging_def descDatabase_def
        descMySQL_def)
  ultimately show ?thesis by metis
qed

lemma first_of_default:
  "first_of [a, b, default_of cmdlineOptions key, default_of fileOptions key] = first_of [a, b, default_of cmdlineOptions key]"
  using default_of_fileOptions [of key]
  by (cases a; cases b; cases "default_of cmdlineOptions key") simp_all

text \<open>The path of the configuration file.\<close>

definition config_path :: "(string \<times> any) list \<Rightarrow> string" where
  "config_path cmd = (case map_of cmd ''config'' of None \<Rightarrow> ''../etc/poolserver.cfg'' | Some (A_string s) \<Rightarrow> s | _ \<Rightarrow> [])"

lemma config_path_stored:
  assumes "store_laws po"
  shows "Get_text (po_store po cmd cmdlineOptions Map.empty) ''config'' = config_path cmd"
proof -
  have "default_of cmdlineOptions ''config'' = Some (A_string ''../etc/poolserver.cfg'')"
    by (simp add: default_of_def cmdlineOptions_def descGeneric_def descServer_def descStratum_def descLogging_def
        descDatabase_def descMySQL_def)
  then show ?thesis
    by (simp add: Get_text_def config_path_def stored_first [OF assms] split: option.splits)
qed

lemma InitConfig_options:
  assumes laws: "store_laws po" and cmd: "po_command_line po cmdlineOptions argv = Inr cmd"
    and opened: "(case po_open po (config_path cmd) of None \<Rightarrow> Inr [] | Some contents \<Rightarrow> po_config_file po fileOptions contents) = Inr file"
  shows "\<exists>vm. InitConfig po argv Map.empty = (vm, Inr (map_of cmd ''help'' = None))
    \<and> (map_of cmd ''help'' = None \<longrightarrow>
        (\<forall>key. map_option fst (vm key) = first_of [map_of cmd key, map_of file key, default_of cmdlineOptions key]))"
proof -
  let ?vm = "po_store po cmd cmdlineOptions Map.empty"
  have "default_of cmdlineOptions ''help'' = None"
    by (simp add: default_of_def cmdlineOptions_def descGeneric_def descServer_def descStratum_def descLogging_def
        descDatabase_def descMySQL_def)
  then have asked: "?vm ''help'' \<noteq> None \<longleftrightarrow> map_of cmd ''help'' \<noteq> None"
    by (cases "map_of cmd ''help''") (simp_all add: stored_first [OF laws])
  have once: "map_option fst (?vm key) = first_of [map_of cmd key, None, default_of cmdlineOptions key]" for key
    by (cases "map_of cmd key"; cases "default_of cmdlineOptions key") (simp_all add: stored_first [OF laws])
  have twice: "map_option fst (po_store po file fileOptions ?vm key)
    = first_of [map_of cmd key, map_of file key, default_of cmdlineOptions key]" for key
    by (simp only: stored_twice [OF laws] first_of_default)
  show ?thesis
  proof (cases "map_of cmd ''help''")
    case None
    then show ?thesis
      using opened asked once twice
      by (auto simp: InitConfig_def cmd config_path_stored [OF laws] split: option.splits)
  next
    case (Some x)
    with asked show ?thesis by (simp add: InitConfig_def cmd)
  qed
qed


section \<open>Defaults\<close>

lemmas option_tables = cmdlineOptions_def descGeneric_def descServer_def descStratum_def descLogging_def
  descDatabase_def descMySQL_def

lemma Get_values:
  assumes "map_option fst (vm key) = x"
  shows "Get_uint32 tmp vm key = (case x of Some (A_uint32 v) \<Rightarrow> v | _ \<Rightarrow> tmp)"
    and "Get_uint16 tmp16 vm key = (case x of Some (A_uint16 v) \<Rightarrow> v | _ \<Rightarrow> tmp16)"
    and "Get_double tmpd vm key = (case x of Some (A_double v) \<Rightarrow> v | _ \<Rightarrow> tmpd)"
    and "Get_text vm key = (case x of Some (A_string v) \<Rightarrow> v | _ \<Rightarrow> [])"
    and "Get_texts vm key = (case x of Some (A_strings v) \<Rightarrow> v | _ \<Rightarrow> [])"
  using assms
  by (auto simp: Get_uint32_def Get_uint16_def Get_double_def Get_text_def Get_texts_def split: option.splits any.splits)

text \<open>
  With nothing configured but the address and the daemons, no option is left to chance: the pool runs with
  the documented defaults.
\<close>

lemma default_config:
  assumes "\<And>key. map_option fst (vm key)
    = first_of [map_of [(''MiningAddress'', A_string a), (''BitcoinRPC'', A_strings ds)] key, default_of cmdlineOptions key]"
  shows "Config_of tmp tmp16 tmpd vm = sample_config\<lparr>MiningAddress := a, BitcoinRPC := ds\<rparr>"
  by (simp add: Config_of_def Get_values [OF assms] default_of_def option_tables sample_config_def)

text \<open>Without an address the coins of a block go to nobody: the option is read as the empty text.\<close>

lemma no_address:
  assumes "vm ''MiningAddress'' = None"
  shows "ASCIIToBin (MiningAddress (Config_of tmp tmp16 tmpd vm)) = []"
  using assms by (simp add: Config_of_def Get_text_def ASCIIToBin_def)

section \<open>A small instance\<close>

definition sample_store :: "(string \<times> any) list \<Rightarrow> options_description \<Rightarrow> variables_map \<Rightarrow> variables_map" where
  "sample_store opts desc vm key =
     (case vm key of
        Some (x, False) \<Rightarrow> Some (x, False)
      | Some (x, True) \<Rightarrow> (case map_of opts key of Some y \<Rightarrow> Some (y, False) | None \<Rightarrow> Some (x, True))
      | None \<Rightarrow> (case map_of opts key of
            Some y \<Rightarrow> Some (y, False) | None \<Rightarrow> map_option (\<lambda>x. (x, True)) (default_of desc key)))"

definition sample_options :: program_options where
  "sample_options = \<lparr>po_store = sample_store, po_command_line = (\<lambda>desc argv. Inr [(''StratumPort'', A_uint16 4444)]),
     po_open = (\<lambda>path. Some ''RetargetMinDiff = 8''), po_config_file = (\<lambda>desc txt. Inr [(''RetargetMinDiff'', A_uint32 8), (''StratumPort'', A_uint16 5555)])\<rparr>"

lemma sample_store_laws: "store_laws sample_options"
  unfolding store_laws_def sample_options_def by (auto simp: sample_store_def split: option.splits bool.splits)


end
