(* ===== verification/Stratum_Server.thy ===== *)
theory Stratum_Server
  imports Pool_State
begin

text \<open>
  The operations of the stratum server (\<open>Stratum/Server.h\<close>, \<open>Server.cpp\<close>) on which the clients and the
  network manager rely: extranonces, current work, bans, the set of connected clients, and the
  posting of work to all of them.
\<close>

section \<open>Operations\<close>

definition mod_server :: "(StratumServer \<Rightarrow> StratumServer) \<Rightarrow> unit action" where
  "mod_server f = modE (\<lambda>w. w\<lparr>server := f (server w)\<rparr>)"

definition GetExtranonce :: "uint32 action" where
  "GetExtranonce =
     bindE (getE (\<lambda>w. s_extranonce (server w))) (\<lambda>n.
     bindE (mod_server (\<lambda>s. s\<lparr>s_extranonce := s_extranonce s + 1\<rparr>)) (\<lambda>_.
     returnE n))"

definition GetWork :: "Block option action" where
  "GetWork = getE (\<lambda>w. s_currentWork (server w))"

definition post :: "task \<Rightarrow> unit action" where
  "post t = modE (\<lambda>w. w\<lparr>posted := posted w @ [t]\<rparr>)"

text \<open>Posting one task for each client, in the order of their numbers.\<close>

definition post_all :: "(uint64 \<Rightarrow> task) \<Rightarrow> unit action" where
  "post_all f = modE (\<lambda>w. w\<lparr>posted := posted w @ map f (sorted_list_of_set (s_clients (server w)))\<rparr>)"

definition SendToAll :: "JSON \<Rightarrow> unit action" where
  "SendToAll msg = post_all (\<lambda>cid. TaskSendMessage cid msg)"

definition SendBlockTmpl :: "bool \<Rightarrow> unit action" where
  "SendBlockTmpl resetWork = post_all (\<lambda>cid. TaskSendJob cid resetWork)"

definition BlockNotify :: "Block option \<Rightarrow> bool \<Rightarrow> unit action" where
  "BlockNotify block newBlock =
     bindE (mod_server (\<lambda>s. s\<lparr>s_currentWork := block\<rparr>)) (\<lambda>_. SendBlockTmpl newBlock)"

definition Disconnect :: "uint64 \<Rightarrow> unit action" where
  "Disconnect cid =
     bindE (mod_server (\<lambda>s. s\<lparr>s_clients := s_clients s - {cid}\<rparr>)) (\<lambda>_.
     modE (\<lambda>w. w\<lparr>closed := insert cid (closed w)\<rparr>))"

definition Ban :: "env \<Rightarrow> uint32 \<Rightarrow> uint64 \<Rightarrow> unit action" where
  "Ban env ip time =
     mod_server (\<lambda>s. s\<lparr>s_bans := s_bans s @ [\<lparr>ban_ip = ip, ban_timestamp = ucast (e_now env) + time\<rparr>]\<rparr>)"

fun banned_in :: "uint32 \<Rightarrow> uint32 \<Rightarrow> BanInfo list \<Rightarrow> bool" where
  "banned_in now ip [] = False"
| "banned_in now ip (b # bs) =
     (if ban_ip b = ip \<and> ban_timestamp b > ucast now then True else banned_in now ip bs)"

definition IsBanned :: "env \<Rightarrow> uint32 \<Rightarrow> bool action" where
  "IsBanned env ip = getE (\<lambda>w. banned_in (e_now env) ip (s_bans (server w)))"

lemmas server_defs = mod_server_def GetExtranonce_def GetWork_def post_def post_all_def SendToAll_def
  SendBlockTmpl_def BlockNotify_def Disconnect_def Ban_def IsBanned_def

section \<open>Facts\<close>

lemma banned_in_iff: "banned_in now ip bs \<longleftrightarrow> (\<exists>b \<in> set bs. ban_ip b = ip \<and> ban_timestamp b > ucast now)"
  by (induction bs) auto

lemma BlockNotify_apply:
  "BlockNotify block nb w = (w\<lparr>server := (server w)\<lparr>s_currentWork := block\<rparr>,
     posted := posted w @ map (\<lambda>cid. TaskSendJob cid nb) (sorted_list_of_set (s_clients (server w)))\<rparr>, Inr ())"
  by (simp add: server_defs eff_simps)

lemma GetExtranonce_apply:
  "GetExtranonce w = (w\<lparr>server := (server w)\<lparr>s_extranonce := s_extranonce (server w) + 1\<rparr>\<rparr>,
     Inr (s_extranonce (server w)))"
  by (simp add: server_defs eff_simps)

section \<open>Properties\<close>

text \<open>The extranonces handed out by \<open>n\<close> calls in a row.\<close>

fun extranonces :: "nat \<Rightarrow> world \<Rightarrow> uint32 list" where
  "extranonces 0 w = []"
| "extranonces (Suc n) w =
     (case GetExtranonce w of (w', Inr x) \<Rightarrow> x # extranonces n w' | (w', Inl _) \<Rightarrow> [])"

lemma extranonces_eq: "extranonces n w = map (\<lambda>i. s_extranonce (server w) + of_nat i) [0..<n]"
proof (induction n arbitrary: w)
  case (Suc n)
  have "extranonces (Suc n) w = s_extranonce (server w)
      # map (\<lambda>i. s_extranonce (server w) + 1 + of_nat i) [0..<n]"
    by (simp add: GetExtranonce_apply Suc)
  also have "\<dots> = map (\<lambda>i. s_extranonce (server w) + of_nat i) [0..<Suc n]"
    unfolding map_upt_Suc by (simp add: add.assoc)
  finally show ?case .
qed simp

text \<open>
  As long as at most \<open>2 ^ 32\<close> are handed out, no two calls give the same extranonce.
\<close>

theorem extranonces_distinct:
  assumes "n \<le> 2 ^ 32"
  shows "distinct (extranonces n w) \<and> length (extranonces n w) = n"
proof -
  have "inj_on (\<lambda>i. s_extranonce (server w) + of_nat i) (set [0..<n])"
  proof (rule inj_onI)
    fix i j assume "i \<in> set [0..<n]" "j \<in> set [0..<n]"
      and "s_extranonce (server w) + of_nat i = s_extranonce (server w) + of_nat j"
    then have eq: "unat (of_nat i :: uint32) = unat (of_nat j :: uint32)" and "i < 2 ^ 32" "j < 2 ^ 32"
      using assms by auto
    then show "i = j" by (subst (asm) (1 2) unat_of_nat_fits) simp_all
  qed
  then show ?thesis by (simp add: extranonces_eq distinct_map)
qed

text \<open>
  A client whose address was banned for some seconds is refused exactly as long as the ban, or
  an earlier one of the same address, lasts.
\<close>

theorem Ban_effect:
  assumes "unat (e_now env) + unat time < 2 ^ 64"
  shows "\<exists>w'. Ban env ip time w = (w', Inr ())
    \<and> IsBanned env' ip w' = (w', Inr (unat (e_now env') < unat (e_now env) + unat time
        \<or> banned_in (e_now env') ip (s_bans (server w))))
    \<and> (\<forall>ip'. ip' \<noteq> ip \<longrightarrow> snd (IsBanned env' ip' w') = snd (IsBanned env' ip' w))"
proof -
  have "unat (ucast (e_now env) + time) = unat (e_now env) + unat time"
    using assms unsigned_less [of "e_now env", where ?'a = nat] by (subst unat_plus_fits) simp_all
  moreover have "unat (ucast (e_now env') :: uint64) = unat (e_now env')"
    using unsigned_less [of "e_now env'", where ?'a = nat] by simp
  ultimately have "(ucast (e_now env') :: uint64) < ucast (e_now env) + time
      \<longleftrightarrow> unat (e_now env') < unat (e_now env) + unat time"
    by (simp only: word_less_nat_alt)
  then show ?thesis by (auto simp: server_defs eff_simps banned_in_iff)
qed

end
