(* ===== verification/Network_Mgr.thy ===== *)
theory Network_Mgr
  imports Stratum_Server
begin

text \<open>
  The network manager (\<open>NetworkMgr/NetworkMgr.cpp\<close>): following the block chain through the daemons,
  building block templates, submitting blocks, and telling the stratum server.
\<close>

section \<open>Queries\<close>

definition mod_net :: "(NetworkMgr \<Rightarrow> NetworkMgr) \<Rightarrow> unit action" where
  "mod_net f = modE (\<lambda>w. w\<lparr>net := f (net w)\<rparr>)"

definition rpc_Query :: "env \<Rightarrow> JSONRPC \<Rightarrow> string \<Rightarrow> JSON \<Rightarrow> JSON action" where
  "rpc_Query env rpc method params =
     bindE (getE (\<lambda>w. n_calls (net w))) (\<lambda>t.
     bindE (mod_net (\<lambda>n. n\<lparr>n_calls := n_calls n + 1\<rparr>)) (\<lambda>_.
     liftE (JSONRPC_Query (e_show_double env) (e_qi env) rpc (e_http env t rpc) method params)))"

text \<open>The default parameters, \<^verbatim>\<open>JSON::FromString("[]")\<close>.\<close>

definition no_params :: JSON where
  "no_params = JSON_new JSON_ARRAY"

section \<open>Block templates\<close>

definition get_int :: "string \<Rightarrow> JSON \<Rightarrow> int64 result" where
  "get_int k j = bindR (get_field k j) GetInt"

definition get_string :: "string \<Rightarrow> JSON \<Rightarrow> string result" where
  "get_string k j = bindR (get_field k j) GetString"

text \<open>One transaction of the template.\<close>

definition template_tx :: "JSON \<Rightarrow> nat \<Rightarrow> Transaction result" where
  "template_tx trs tidx =
     bindR (index_vec (of_nat tidx) trs) (\<lambda>x.
     bindR (get_string ''data'' x) (\<lambda>str.
     bindR (read_Transaction (ByteBuffer_of (ASCIIToBin str))) (\<lambda>(tx, _). Inr tx)))"

text \<open>The block that is built from the response of a daemon at the given height.\<close>

definition template_block :: "env \<Rightarrow> uint32 \<Rightarrow> JSON \<Rightarrow> Block result" where
  "template_block env height response =
     bindR (get_int ''version'' response) (\<lambda>version.
     bindR (get_string ''previousblockhash'' response) (\<lambda>prev.
     bindR (get_int ''curtime'' response) (\<lambda>curtime.
     bindR (get_string ''bits'' response) (\<lambda>bits.
     bindR (Read (ByteBuffer_of (Reverse (ASCIIToBin bits)))) (\<lambda>(bits, _).
     bindR (get_int ''coinbasevalue'' response) (\<lambda>value.
     bindR (get_field ''transactions'' response) (\<lambda>trs.
     bindR (mapR (template_tx trs) [0..<unat (json_Size trs)]) (\<lambda>txs.
     BuildMerkleTree (e_sha env)
       \<lparr>blk_version = ucast version, blk_prevBlockHash = Reverse (ASCIIToBin prev),
        blk_merkleRootHash = [], blk_time = ucast curtime, blk_bits = bits, blk_nonce = e_junk env,
        blk_signature = [],
        blk_tx = CreateCoinbaseTX height (ASCIIToBin (MiningAddress (e_cfg env))) value # txs,
        blk_merkleTree = []\<rparr>))))))))"

text \<open>
  One iteration of \<^verbatim>\<open>UpdateBlockTemplate\<close>: \<open>True\<close> when it set the template and the loop is left.
\<close>

definition try_template :: "env \<Rightarrow> JSONRPC \<Rightarrow> bool action" where
  "try_template env rpc =
     bindE (rpc_Query env rpc ''getblocktemplate'' no_params) (\<lambda>response.
     bindE (getE (\<lambda>w. n_blockHeight (net w))) (\<lambda>height.
     bindE (liftE (get_int ''height'' response)) (\<lambda>h.
     if sint h < int (unat height) then returnE False
     else
       bindE (liftE (template_block env height response)) (\<lambda>block.
       bindE (mod_net (\<lambda>n. n\<lparr>n_curBlockTmpl := Some block\<rparr>)) (\<lambda>_.
       returnE True)))))"

fun template_loop :: "env \<Rightarrow> JSONRPC list \<Rightarrow> unit action" where
  "template_loop env [] = returnE ()"
| "template_loop env (rpc # rpcs) =
     bindE (tryE (try_template env rpc) (\<lambda>_. returnE False)) (\<lambda>found.
     if found then returnE () else template_loop env rpcs)"

definition UpdateBlockTemplate :: "env \<Rightarrow> unit action" where
  "UpdateBlockTemplate env = bindE (getE (\<lambda>w. n_cons (net w))) (template_loop env)"

section \<open>Notification\<close>

fun notify_loop :: "Block option \<Rightarrow> bool \<Rightarrow> nat \<Rightarrow> unit action" where
  "notify_loop block newBlock 0 = returnE ()"
| "notify_loop block newBlock (Suc n) =
     bindE (post (TaskBlockNotify block newBlock)) (\<lambda>_. notify_loop block newBlock n)"

definition BlockNotifySend :: "bool \<Rightarrow> unit action" where
  "BlockNotifySend newBlock =
     bindE (getE (\<lambda>w. (n_curBlockTmpl (net w), n_binds (net w)))) (\<lambda>(block, n).
     notify_loop block newBlock n)"

text \<open>A subscriber is told the current template at once, in the same call.\<close>

definition BlockNotifyBind :: "unit action" where
  "BlockNotifyBind =
     bindE (mod_net (\<lambda>n. n\<lparr>n_binds := n_binds n + 1\<rparr>)) (\<lambda>_.
     bindE (getE (\<lambda>w. n_curBlockTmpl (net w))) (\<lambda>block.
     BlockNotify block True))"

definition BlockNotifyTimerStart :: "unit action" where
  "BlockNotifyTimerStart = start_io BlockNotifyTimer"

definition BlockNotifyTimerExpired :: "env \<Rightarrow> unit action" where
  "BlockNotifyTimerExpired env =
     bindE (UpdateBlockTemplate env) (\<lambda>_.
     bindE (BlockNotifySend False) (\<lambda>_.
     BlockNotifyTimerStart))"

section \<open>Following the chain\<close>

definition check_daemon :: "env \<Rightarrow> JSONRPC \<Rightarrow> unit action" where
  "check_daemon env rpc =
     bindE (rpc_Query env rpc ''getinfo'' no_params) (\<lambda>response.
     bindE (liftE (get_int ''blocks'' response)) (\<lambda>blocks.
     let curBlock = (ucast blocks :: uint32) in
     bindE (getE (\<lambda>w. n_blockHeight (net w))) (\<lambda>height.
     if curBlock > height
     then
       bindE (mod_net (\<lambda>n. n\<lparr>n_blockHeight := curBlock\<rparr>)) (\<lambda>_.
       bindE (UpdateBlockTemplate env) (\<lambda>_.
       BlockNotifySend True))
     else returnE ())))"

fun check_loop :: "env \<Rightarrow> JSONRPC list \<Rightarrow> unit action" where
  "check_loop env [] = returnE ()"
| "check_loop env (rpc # rpcs) =
     bindE (tryE (check_daemon env rpc) (\<lambda>_. returnE ())) (\<lambda>_. check_loop env rpcs)"

definition BlockCheck :: "env \<Rightarrow> unit action" where
  "BlockCheck env = bindE (getE (\<lambda>w. n_cons (net w))) (check_loop env)"

definition BlockCheckTimerStart :: "unit action" where
  "BlockCheckTimerStart = start_io BlockCheckTimer"

definition BlockCheckTimerExpired :: "env \<Rightarrow> unit action" where
  "BlockCheckTimerExpired env = bindE (BlockCheck env) (\<lambda>_. BlockCheckTimerStart)"

text \<open>The constructor, with the manager empty as it is in a new world.\<close>

definition NetworkMgr_Initialize :: "unit action" where
  "NetworkMgr_Initialize =
     bindE (mod_net (\<lambda>_. \<lparr>n_binds = 0, n_blockHeight = 0, n_cons = [], n_curBlockTmpl = None, n_calls = 0\<rparr>)) (\<lambda>_.
     bindE BlockCheckTimerStart (\<lambda>_.
     BlockNotifyTimerStart))"

section \<open>Submitting a block\<close>

text \<open>
  One daemon: \<open>True\<close> when it accepted the block. After a rejection the error member is read for the
  log, which throws unless it is a string.
\<close>

definition submit_to :: "env \<Rightarrow> BinaryData \<Rightarrow> JSONRPC \<Rightarrow> bool action" where
  "submit_to env bytes rpc =
     bindE (rpc_Query env rpc ''submitblock'' (j_array [j_string (BinToASCII bytes)])) (\<lambda>response.
     bindE (liftE (get_field ''result'' response)) (\<lambda>r.
     if j_type r = JSON_NULL
     then bindE (BlockCheck env) (\<lambda>_. returnE True)
     else bindE (liftE (get_string ''error'' response)) (\<lambda>_. returnE False)))"

fun submit_loop :: "env \<Rightarrow> BinaryData \<Rightarrow> JSONRPC list \<Rightarrow> bool action" where
  "submit_loop env bytes [] = returnE False"
| "submit_loop env bytes (rpc # rpcs) =
     bindE (tryE (submit_to env bytes rpc) (\<lambda>_. returnE False)) (\<lambda>accepted.
     if accepted then returnE True else submit_loop env bytes rpcs)"

definition SubmitBlock :: "env \<Rightarrow> Block \<Rightarrow> bool action" where
  "SubmitBlock env block =
     bindE (getE (\<lambda>w. n_cons (net w))) (\<lambda>rpcs.
     submit_loop env (Binary (write_Block block ByteBuffer_new)) rpcs)"

section \<open>Connecting\<close>

text \<open>
  \<^verbatim>\<open>Connect\<close>: a new connection is made and the daemon is asked for its state; the first connection
  starts following the chain.
\<close>

definition Connect :: "env \<Rightarrow> JSONRPCConnectionInfo \<Rightarrow> unit action" where
  "Connect env coninfo =
     bindE (liftE (JSONRPC_Connect (e_base64 env) (e_resolve env) (e_connect env) coninfo [])) (\<lambda>rpc.
     bindE (rpc_Query env rpc ''getinfo'' no_params) (\<lambda>response.
     bindE (liftE (get_field ''error'' response)) (\<lambda>err.
     if j_type err \<noteq> JSON_NULL
     then bindE (liftE (GetString err)) (\<lambda>what.
            liftE (Inl (Exception (FS [''Failed to get response from bitcoin rpc: '', c_str what]))))
     else
       bindE (mod_net (\<lambda>m. m\<lparr>n_cons := n_cons m @ [rpc]\<rparr>)) (\<lambda>_.
       bindE (getE (\<lambda>w. n_cons (net w))) (\<lambda>cons.
       if length cons = 1 then BlockCheck env else returnE ())))))"

end
