(* ===== verification/Stratum_Client.thy ===== *)
theory Stratum_Client
  imports Network_Mgr
begin

text \<open>
  A connected miner (\<open>Stratum/Client.h\<close>, \<open>Client.cpp\<close>), its jobs (\<open>Job.h\<close>) and its share limiter
  (\<open>ShareLimiter.h\<close>, \<open>ShareLimiter.cpp\<close>): sending work, and the handlers of the stratum protocol. An
  operation works on the client object with number \<open>cid\<close>.
\<close>

section \<open>Jobs (Job.h)\<close>

definition SubmitShare :: "uint64 \<Rightarrow> Job \<Rightarrow> bool \<times> Job" where
  "SubmitShare share job =
     (if share \<notin> job_shares job
      then (True, job\<lparr>job_shares := insert share (job_shares job)\<rparr>)
      else (False, job))"

section \<open>Messages\<close>

definition SendMessage :: "env \<Rightarrow> uint64 \<Rightarrow> JSON \<Rightarrow> unit action" where
  "SendMessage env cid msg =
     bindE (liftE (ToString (e_show_double env) msg)) (\<lambda>data.
     modE (\<lambda>w. w\<lparr>wire := wire w @ [(cid, data @ [CHR 0x0A])]\<rparr>))"

text \<open>The responses that the handlers build.\<close>

definition error_response :: "JSON \<Rightarrow> int64 \<Rightarrow> string \<Rightarrow> JSON" where
  "error_response mid code what =
     j_object [(''id'', mid), (''result'', j_null),
               (''error'', j_array [j_int code, j_string what, j_null])]"

definition true_response :: "JSON \<Rightarrow> JSON" where
  "true_response mid = j_object [(''id'', mid), (''result'', j_bool True), (''error'', j_null)]"

section \<open>Sending work (Client.cpp)\<close>

definition CleanJobs :: "uint64 \<Rightarrow> unit action" where
  "CleanJobs cid = mod_client cid (\<lambda>c. c\<lparr>c_jobs := Map.empty\<rparr>)"

text \<open>The first 46 bytes of the coinbase transaction come before the extranonces, which take 8.\<close>

definition cbsplit :: nat where
  "cbsplit = 4 + 32 + 4 + 2 + 4"

definition make_job :: "Block \<Rightarrow> uint64 \<Rightarrow> Job result" where
  "make_job block diff =
     bindR (DiffToTarget (int (unat diff))) (\<lambda>jt.
     bindR (TargetFromBits (blk_bits block)) (\<lambda>bt.
     if blk_tx block = [] then Inl (Undefined ''index outside the vector'')
     else
       let coinbase = Binary (write_Transaction (blk_tx block ! 0) ByteBuffer_new) in
       if length coinbase < cbsplit + 8 then Inl (Undefined ''range outside the vector'')
       else Inr \<lparr>job_diff = diff, job_block = block, coinbase1 = take cbsplit coinbase,
                 coinbase2 = drop (cbsplit + 8) coinbase, job_shares = {}, blockTarget = bt,
                 jobTarget = jt\<rparr>))"

definition GetJob :: "uint64 \<Rightarrow> Job action" where
  "GetJob cid =
     bindE GetWork (\<lambda>work.
     bindE (get_client cid) (\<lambda>c.
     case work of
       None \<Rightarrow> liftE (Inl (Undefined ''null pointer''))
     | Some block \<Rightarrow> liftE (make_job block (c_diff c))))"

text \<open>The hash of the previous block: eight 32-bit words are read from its reverse and written in reverse.\<close>

definition swap_prevhash :: "BinaryData \<Rightarrow> BinaryData result" where
  "swap_prevhash h =
     bindR (get_all Read 8 (ByteBuffer_of (Reverse h))) (\<lambda>(ws :: uint32 list, _).
     Inr (Binary (put_all Append (rev ws) ByteBuffer_new)))"

definition hex_word :: "uint32 \<Rightarrow> JSON" where
  "hex_word x = j_string (BinToASCII (Reverse (Binary (Append x ByteBuffer_new))))"

definition job_params :: "uint32 \<Rightarrow> Job \<Rightarrow> bool \<Rightarrow> JSON result" where
  "job_params jobid job clean =
     (let block = job_block job in
      bindR (merkle_branch 0 (length (blk_tx block)) (blk_merkleTree block)) (\<lambda>branch.
      bindR (swap_prevhash (blk_prevBlockHash block)) (\<lambda>prev.
      Inr (j_array
        [j_string (write_hex_u32 jobid), j_string (BinToASCII prev),
         j_string (BinToASCII (coinbase1 job)), j_string (BinToASCII (coinbase2 job)),
         j_array (map (\<lambda>h. j_string (BinToASCII h)) branch),
         hex_word (blk_version block), hex_word (blk_bits block), hex_word (blk_time block),
         j_bool clean]))))"

definition SendJob :: "env \<Rightarrow> uint64 \<Rightarrow> bool \<Rightarrow> unit action" where
  "SendJob env cid clean =
     bindE (if clean then CleanJobs cid else returnE ()) (\<lambda>_.
     bindE (GetJob cid) (\<lambda>job.
     bindE (get_client cid) (\<lambda>c.
     let jobid = c_jobid c in
     bindE (mod_client cid (\<lambda>c. c\<lparr>c_jobid := c_jobid c + 1,
                                  c_jobs := (c_jobs c)(ucast jobid \<mapsto> job)\<rparr>)) (\<lambda>_.
     bindE (liftE (job_params jobid job clean)) (\<lambda>params.
     SendMessage env cid
       (j_object [(''params'', params), (''id'', j_null), (''method'', j_string ''mining.notify'')]))))))"

definition SetDifficulty :: "env \<Rightarrow> uint64 \<Rightarrow> uint64 \<Rightarrow> bool \<Rightarrow> unit action" where
  "SetDifficulty env cid diff resendJob =
     bindE (get_client cid) (\<lambda>c.
     let diff = (if diff < c_minDiff c then c_minDiff c else diff) in
     if diff = c_diff c then returnE ()
     else
       bindE (mod_client cid (\<lambda>c. c\<lparr>c_diff := diff\<rparr>)) (\<lambda>_.
       bindE (SendMessage env cid
         (j_object [(''id'', j_null), (''params'', j_array [j_int diff]),
                    (''method'', j_string ''mining.set_difficulty'')])) (\<lambda>_.
       if resendJob then SendJob env cid False else returnE ())))"

definition client_Disconnect :: "uint64 \<Rightarrow> unit action" where
  "client_Disconnect cid = Disconnect cid"

definition client_Ban :: "env \<Rightarrow> uint64 \<Rightarrow> uint32 \<Rightarrow> unit action" where
  "client_Ban env cid time =
     bindE (get_client cid) (\<lambda>c.
     bindE (Ban env (c_ip c) (ucast time)) (\<lambda>_.
     client_Disconnect cid))"

section \<open>The share limiter (ShareLimiter.cpp)\<close>

definition MEGAHASHCONST :: double where
  "MEGAHASHCONST = fl (4294967296 / 1000000)"

text \<open>The constructor; the counter of shares at the last retarget is not initialised.\<close>

definition ShareLimiter_new :: "env \<Rightarrow> ShareLimiter" where
  "ShareLimiter_new env =
     (let start = ucast (e_now env - 10) in
      \<lparr>sl_shares = [], lastRetargetTime = start, lastRetargetShares = ucast (e_junk env),
       startTime = start, totalShares = 0, totalBadShares = 0\<rparr>)"

definition mod_limiter :: "uint64 \<Rightarrow> (ShareLimiter \<Rightarrow> ShareLimiter) \<Rightarrow> unit action" where
  "mod_limiter cid f = mod_client cid (\<lambda>c. c\<lparr>c_shareLimiter := f (c_shareLimiter c)\<rparr>)"

definition LogBad :: "uint64 \<Rightarrow> unit action" where
  "LogBad cid = mod_limiter cid (\<lambda>sl. sl\<lparr>totalBadShares := totalBadShares sl + 1\<rparr>)"

definition record_share :: "uint64 \<Rightarrow> uint64 \<Rightarrow> ShareLimiter \<Rightarrow> ShareLimiter" where
  "record_share curTime diff sl =
     sl\<lparr>totalShares := totalShares sl + 1,
        sl_shares := sl_shares sl @ [\<lparr>rec_diff = diff, rec_time = curTime\<rparr>]\<rparr>"

definition retarget_due :: "Config \<Rightarrow> uint64 \<Rightarrow> ShareLimiter \<Rightarrow> bool" where
  "retarget_due cfg curTime sl \<longleftrightarrow>
     \<not> (curTime - lastRetargetTime sl < ucast (RetargetInterval cfg)
        \<and> totalShares sl - lastRetargetShares sl < ucast (RetargetSharesThreshold cfg))"

definition too_many_bad :: "ShareLimiter \<Rightarrow> bool" where
  "too_many_bad sl \<longleftrightarrow>
     totalShares sl > 200
     \<and> fl (double_of_u64 (totalBadShares sl) / double_of_u64 (totalShares sl)) > fl (9 / 10)"

definition drop_old :: "Config \<Rightarrow> uint64 \<Rightarrow> ShareLimiter \<Rightarrow> ShareLimiter" where
  "drop_old cfg curTime sl =
     sl\<lparr>sl_shares :=
         dropWhile (\<lambda>r. \<not> rec_time r > curTime - ucast (RetargetTimeBuffer cfg)) (sl_shares sl)\<rparr>"

definition total_weighted :: "ShareLimiterRecord list \<Rightarrow> double" where
  "total_weighted rs = fold (\<lambda>r total. dadd total (double_of_u64 (rec_diff r))) rs 0"

definition clamp_diff :: "Config \<Rightarrow> uint64 \<Rightarrow> uint64" where
  "clamp_diff cfg newDiff =
     (let newDiff = (if newDiff < ucast (RetargetMinDiff cfg) then ucast (RetargetMinDiff cfg) else newDiff)
      in if newDiff > ucast (RetargetMaxDiff cfg) then ucast (RetargetMaxDiff cfg) else newDiff)"

definition new_diff :: "Config \<Rightarrow> uint64 \<Rightarrow> ShareLimiter \<Rightarrow> uint64 result" where
  "new_diff cfg curTime sl =
     (let totalWeighted = total_weighted (sl_shares sl);
          interval = double_of_u64 (min (curTime - startTime sl) (ucast (RetargetTimeBuffer cfg)))
      in bindR (ddiv (dmul MEGAHASHCONST totalWeighted) interval) (\<lambda>hashrate.
         bindR (ddiv (dmul hashrate (RetargetTimePerShare cfg)) MEGAHASHCONST) (\<lambda>d.
         bindR (double_to_u64 d) (\<lambda>newDiff. Inr (clamp_diff cfg newDiff)))))"

text \<open>
  \<^verbatim>\<open>abs(((newDiff - cur) * 100) / cur)\<close>: the difference and the product wrap around at 64 bits; the
  quotient is narrowed to the \<^verbatim>\<open>int\<close> that \<^verbatim>\<open>abs\<close> takes.
\<close>

definition variance :: "uint64 \<Rightarrow> uint64 \<Rightarrow> uint32 result" where
  "variance newDiff cur =
     (if cur = 0 then Inl (Undefined ''division by zero'')
      else
        let i = sint (ucast ((newDiff - cur) * 100 div cur) :: uint32) in
        if i = - (2 ^ 31) then Inl (Undefined ''abs of the least int'')
        else Inr (word_of_int \<bar>i\<bar>))"

definition retarget :: "env \<Rightarrow> uint64 \<Rightarrow> uint64 \<Rightarrow> bool action" where
  "retarget env cid curTime =
     bindE (mod_limiter cid (drop_old (e_cfg env) curTime)) (\<lambda>_.
     bindE (get_client cid) (\<lambda>c.
     bindE (liftE (new_diff (e_cfg env) curTime (c_shareLimiter c))) (\<lambda>newDiff.
     bindE (liftE (variance newDiff (c_diff c))) (\<lambda>var.
     if var < RetargetVariance (e_cfg env) then returnE True
     else if var > 2000
     then
       bindE (SetDifficulty env cid newDiff False) (\<lambda>_.
       bindE (SendJob env cid True) (\<lambda>_. returnE False))
     else bindE (SetDifficulty env cid newDiff True) (\<lambda>_. returnE True)))))"

definition limiter_Submit :: "env \<Rightarrow> uint64 \<Rightarrow> uint64 \<Rightarrow> bool action" where
  "limiter_Submit env cid diff =
     (let curTime = ucast (e_now env) in
      bindE (mod_limiter cid (record_share curTime diff)) (\<lambda>_.
      bindE (get_client cid) (\<lambda>c.
      if \<not> retarget_due (e_cfg env) curTime (c_shareLimiter c) then returnE True
      else
        bindE (mod_limiter cid (\<lambda>sl. sl\<lparr>lastRetargetTime := curTime,
                                        lastRetargetShares := totalShares sl\<rparr>)) (\<lambda>_.
        if too_many_bad (c_shareLimiter c)
        then bindE (client_Ban env cid 600) (\<lambda>_. returnE False)
        else retarget env cid curTime))))"

section \<open>mining.submit (Client.cpp)\<close>

text \<open>Answering the request \<open>msg\<close> with an error, or with \<^verbatim>\<open>true\<close>.\<close>

definition refuse :: "env \<Rightarrow> uint64 \<Rightarrow> JSON \<Rightarrow> int64 \<Rightarrow> string \<Rightarrow> unit action" where
  "refuse env cid msg code what =
     bindE (liftE (get_field ''id'' msg)) (\<lambda>mid. SendMessage env cid (error_response mid code what))"

definition accept :: "env \<Rightarrow> uint64 \<Rightarrow> JSON \<Rightarrow> unit action" where
  "accept env cid msg =
     bindE (liftE (get_field ''id'' msg)) (\<lambda>mid. SendMessage env cid (true_response mid))"

definition push_share :: "env \<Rightarrow> uint64 \<Rightarrow> string \<Rightarrow> bool \<Rightarrow> string \<Rightarrow> uint64 \<Rightarrow> unit action" where
  "push_share env cid user res why diff =
     bindE (get_client cid) (\<lambda>c.
     modE (\<lambda>w. w\<lparr>dataMgr := Push (Share_new (c_ip c) user res why (ucast (e_now env)) diff) (dataMgr w)\<rparr>))"

text \<open>The block with the miner's time, nonce and extranonces in it.\<close>

definition assemble :: "env \<Rightarrow> uint32 \<Rightarrow> Job \<Rightarrow> BinaryData \<Rightarrow> BinaryData \<Rightarrow> BinaryData \<Rightarrow> Block result" where
  "assemble env extranonce job timebuf noncebuf extranonce2 =
     (let block = job_block job in
      bindR (Read (ByteBuffer_of timebuf)) (\<lambda>(time, _).
      bindR (Read (ByteBuffer_of noncebuf)) (\<lambda>(nonce, _).
      let coinbasebuf = AppendBinary (coinbase2 job) (AppendBinary extranonce2 (Append extranonce
            (AppendBinary (coinbase1 job) ByteBuffer_new)))
      in bindR (read_Transaction coinbasebuf) (\<lambda>(coinbasetx, _).
         if blk_tx block = [] then Inl (Undefined ''index outside the vector'')
         else RebuildMerkleTree (e_sha env)
           (block\<lparr>blk_time := time, blk_nonce := nonce, blk_tx := (blk_tx block)[0 := coinbasetx]\<rparr>)))))"

text \<open>\<^verbatim>\<open>BigInt(text, 16)\<close> of hexadecimal text; GMP's constructor throws when there is none.\<close>

definition BigInt_hex :: "string \<Rightarrow> int result" where
  "BigInt_hex str = (if str = [] then Inl (Exception ''mpz_set_str'') else Inr (int (hex_value str)))"

text \<open>The query that records the share that solved a block.\<close>

definition block_query :: "uint32 \<Rightarrow> string \<Rightarrow> BinaryData \<Rightarrow> uint32 \<Rightarrow> uint64 \<Rightarrow> string" where
  "block_query ip user hash now diff =
     ''INSERT INTO `shares` (`rem_host`, `username`, `our_result`, `upstream_result`, `reason`, `solution`, `time`, `difficulty`) VALUES ''
     @ FS [''(INET_NTOA('', show_u ip, ''), '', apostrophe, c_str user, apostrophe, '', 1, 1, '',
           apostrophe, apostrophe, '', '', apostrophe, BinToASCII (Reverse hash), apostrophe,
           '', FROM_UNIXTIME('', show_u now, ''), '', show_u diff, '')'']"

text \<open>The share against the targets, and what follows from it.\<close>

definition judge_share :: "env \<Rightarrow> uint64 \<Rightarrow> JSON \<Rightarrow> string \<Rightarrow> Job \<Rightarrow> Block \<Rightarrow> unit action" where
  "judge_share env cid msg user job block =
     (let hash = blk_GetHash (e_sha env) block in
      bindE (liftE (BigInt_hex (BinToASCII (Reverse hash)))) (\<lambda>target.
      if target > jobTarget job
      then
        bindE (push_share env cid user False ''Share above target'' (job_diff job)) (\<lambda>_.
        bindE (LogBad cid) (\<lambda>_.
        refuse env cid msg 23 ''Share above target''))
      else if target \<le> blockTarget job
      then
        bindE (SubmitBlock env block) (\<lambda>accepted.
        if accepted
        then
          bindE (get_client cid) (\<lambda>c.
          bindE (modE (\<lambda>w. w\<lparr>database := snd (ExecuteAsync
            (c_str (block_query (c_ip c) user hash (e_now env) (job_diff job))) (database w))\<rparr>)) (\<lambda>_.
          accept env cid msg))
        else returnE ())
      else
        bindE (push_share env cid user True [] (job_diff job)) (\<lambda>_.
        accept env cid msg)))"

text \<open>
  A share of the job with number \<open>jobid\<close>, after its parameters have been decoded. The job is updated
  under its number: a number comes round again only after \<open>2 ^ 32\<close> jobs.
\<close>

definition settle_share ::
    "env \<Rightarrow> uint64 \<Rightarrow> JSON \<Rightarrow> string \<Rightarrow> uint32 \<Rightarrow> Job \<Rightarrow> BinaryData \<Rightarrow> BinaryData \<Rightarrow> BinaryData \<Rightarrow> uint64 \<Rightarrow> unit action" where
  "settle_share env cid msg user jobid job timebuf noncebuf extranonce2 share =
     (let (fresh, job) = SubmitShare share job in
      bindE (mod_client cid (\<lambda>c. c\<lparr>c_jobs := (c_jobs c)(ucast jobid \<mapsto> job)\<rparr>)) (\<lambda>_.
      if \<not> fresh
      then
        bindE (push_share env cid user False ''Duplicate share'' (job_diff job)) (\<lambda>_.
        bindE (LogBad cid) (\<lambda>_.
        refuse env cid msg 22 ''Duplicate share''))
      else
        bindE (get_client cid) (\<lambda>c.
        bindE (liftE (assemble env (c_extranonce c) job timebuf noncebuf extranonce2)) (\<lambda>block.
        judge_share env cid msg user job block))))"

text \<open>A share that the limiter let pass: decoding its parameters.\<close>

definition take_share :: "env \<Rightarrow> uint64 \<Rightarrow> JSON \<Rightarrow> JSON \<Rightarrow> string \<Rightarrow> uint32 \<Rightarrow> Job \<Rightarrow> unit action" where
  "take_share env cid msg params user jobid job =
     bindE (liftE (bindR (index_vec 2 params) GetString)) (\<lambda>str2.
     let extranonce2 = ASCIIToBin str2 in
     if length extranonce2 \<noteq> 4 then refuse env cid msg 20 ''Wrong extranonce size''
     else
     bindE (liftE (bindR (index_vec 3 params) GetString)) (\<lambda>str3.
     let timebuf = Reverse (ASCIIToBin str3) in
     if Size (ByteBuffer_of timebuf) \<noteq> 4 then refuse env cid msg 20 ''Wrong ntime size''
     else
     bindE (liftE (bindR (index_vec 4 params) GetString)) (\<lambda>str4.
     let noncebuf = Reverse (ASCIIToBin str4) in
     if Size (ByteBuffer_of noncebuf) \<noteq> 4 then refuse env cid msg 20 ''Wrong nonce size''
     else
     bindE (liftE (Read (AppendBinary extranonce2 (AppendBinary noncebuf ByteBuffer_new)))) (\<lambda>(share, _).
     settle_share env cid msg user jobid job timebuf noncebuf extranonce2 share))))"

definition OnMiningSubmit :: "env \<Rightarrow> uint64 \<Rightarrow> JSON \<Rightarrow> unit action" where
  "OnMiningSubmit env cid msg =
     bindE (liftE (get_field ''params'' msg)) (\<lambda>params.
     bindE (liftE (bindR (index_vec 0 params) GetString)) (\<lambda>user.
     bindE (get_client cid) (\<lambda>c.
     if user \<notin> c_workers c then refuse env cid msg 24 ''Unauthorized worker''
     else
     bindE (liftE (bindR (index_vec 1 params) GetString)) (\<lambda>str1.
     let jobid = read_hex_u32 (e_junk env) str1 in
     case c_jobs c (ucast jobid) of
       None \<Rightarrow>
         bindE (push_share env cid user False ''Job not found'' 1) (\<lambda>_.
         bindE (LogBad cid) (\<lambda>_.
         refuse env cid msg 21 ''Job not found''))
     | Some job \<Rightarrow>
         bindE (limiter_Submit env cid (job_diff job)) (\<lambda>pass.
         if \<not> pass then refuse env cid msg 20 ''Blocked by share limiter''
         else take_share env cid msg params user jobid job)))))"

section \<open>mining.subscribe and mining.authorize (Client.cpp)\<close>

definition OnMiningSubscribe :: "env \<Rightarrow> uint64 \<Rightarrow> JSON \<Rightarrow> unit action" where
  "OnMiningSubscribe env cid msg =
     bindE (mod_client cid (\<lambda>c. c\<lparr>c_subscribed := True\<rparr>)) (\<lambda>_.
     bindE GetExtranonce (\<lambda>n.
     bindE (mod_client cid (\<lambda>c. c\<lparr>c_extranonce := n\<rparr>)) (\<lambda>_.
     bindE (liftE (get_field ''id'' msg)) (\<lambda>mid.
     let result = j_array
           [j_array [j_string ''mining.notify'', j_string ''ae6812eb4cd7735a302a8a9dd95cf71f''],
            j_string (BinToASCII (Binary (Append n ByteBuffer_new))), j_int 4]
     in bindE (SendMessage env cid (j_object [(''id'', mid), (''result'', result), (''error'', j_null)])) (\<lambda>_.
        SendJob env cid False)))))"

text \<open>
  \<^verbatim>\<open>DatabaseWorkerPool::Query\<close> down to \<^verbatim>\<open>DatabaseConnection::_Query\<close>: no result for an error and for an
  empty set of rows.
\<close>

definition db_Query :: "env \<Rightarrow> string \<Rightarrow> string option list list option" where
  "db_Query env query =
     (case e_mysql env query of None \<Rightarrow> None | Some rows \<Rightarrow> if rows = [] then None else Some rows)"

text \<open>\<^verbatim>\<open>Field::Get<uint32>\<close> of column \<open>i\<close> of a fetched row.\<close>

definition field_u32 :: "env \<Rightarrow> string option list \<Rightarrow> nat \<Rightarrow> uint32 result" where
  "field_u32 env row i =
     (if i \<ge> length row then Inl (Undefined ''index outside the array'')
      else case row ! i of None \<Rightarrow> Inl (Undefined ''null pointer'') | Some str \<Rightarrow> e_lexical_cast env (c_str str))"

definition authorize_query :: "env \<Rightarrow> string \<Rightarrow> string \<Rightarrow> string" where
  "authorize_query env user password =
     FS [''SELECT `id`, `mindiff` FROM `pool_worker` WHERE `username` = '', apostrophe,
         c_str (e_escape env user), apostrophe, '' and `password` = '', apostrophe,
         c_str (e_escape env password), apostrophe]"

definition OnMiningAuthorize :: "env \<Rightarrow> uint64 \<Rightarrow> JSON \<Rightarrow> unit action" where
  "OnMiningAuthorize env cid msg =
     bindE (liftE (bindR (bindR (get_field ''params'' msg) (index_vec 0)) GetString)) (\<lambda>user.
     bindE (liftE (bindR (bindR (get_field ''params'' msg) (index_vec 1)) GetString)) (\<lambda>password.
     case db_Query env (authorize_query env user password) of
       Some rows \<Rightarrow>
         bindE (mod_client cid (\<lambda>c. c\<lparr>c_workers := insert user (c_workers c)\<rparr>)) (\<lambda>_.
         bindE (liftE (field_u32 env (hd rows) 1)) (\<lambda>minDiff.
         bindE (mod_client cid (\<lambda>c. c\<lparr>c_minDiff := ucast minDiff\<rparr>)) (\<lambda>_.
         bindE (get_client cid) (\<lambda>c.
         bindE (if c_diff c < c_minDiff c then SetDifficulty env cid (c_minDiff c) False else returnE ()) (\<lambda>_.
         bindE (liftE (get_field ''id'' msg)) (\<lambda>mid.
         SendMessage env cid
           (j_object [(''id'', mid), (''error'', j_null), (''result'', j_bool True)])))))))
     | None \<Rightarrow>
         bindE (liftE (get_field ''id'' msg)) (\<lambda>mid.
         SendMessage env cid
           (j_object [(''id'', mid),
                      (''error'', j_array [j_int 20, j_string ''Authentication failed'', j_null]),
                      (''result'', j_bool True)]))))"

definition OnMessage :: "env \<Rightarrow> uint64 \<Rightarrow> JSON \<Rightarrow> unit action" where
  "OnMessage env cid msg =
     bindE (liftE (bindR (index_key ''method'' msg) (\<lambda>(x, msg). bindR (GetString x) (\<lambda>m. Inr (m, msg))))) (\<lambda>(method, msg).
     bindE (liftE (ToString (e_show_double env) msg)) (\<lambda>_.
     if method = ''mining.submit'' then OnMiningSubmit env cid msg
     else if method = ''mining.subscribe'' then OnMiningSubscribe env cid msg
     else if method = ''mining.authorize'' then OnMiningAuthorize env cid msg
     else returnE ()))"

section \<open>A small instance\<close>

text \<open>A client that has just connected, and a world in which it is the only one.\<close>

definition sample_client :: Client where
  "sample_client = \<lparr>c_ip = 1, c_id = 0, c_workers = {''worker''}, c_subscribed = True, c_extranonce = 0,
     c_jobs = Map.empty, c_jobid = 0, c_diff = 2, c_minDiff = 1, c_shareLimiter = ShareLimiter_new sample_env,
     c_recvMessage = []\<rparr>"

definition sample_world :: "Block \<Rightarrow> world" where
  "sample_world block = \<lparr>objs = [0 \<mapsto> sample_client],
     server = \<lparr>s_clients = {0}, s_clientId = 1, s_bans = [], s_currentWork = Some block, s_extranonce = 1\<rparr>,
     net = \<lparr>n_binds = 1, n_blockHeight = 0, n_cons = [], n_curBlockTmpl = Some block, n_calls = 0\<rparr>,
     dataMgr = \<lparr>datastore = []\<rparr>, database = sample_pool, posted = [], wire = [], closed = {}, pending = {IoRead 0}\<rparr>"

end
