(* ===== verification/Client_Props.thy ===== *)
theory Client_Props
  imports Stratum_Client
begin

text \<open>
  What the operations of a client do: the state they leave alone, the work they send, and the
  outcome of a submitted share on every branch.
\<close>

section \<open>What stays as it is\<close>

lemma keeps_mod_client:
  "(\<And>w. P w (w\<lparr>objs := (objs w)(cid := map_option f (objs w cid))\<rparr>)) \<Longrightarrow> keeps P (mod_client cid f)"
  by (simp add: mod_client_def keeps_modE)

lemma keeps_get_client: "(\<And>w. P w w) \<Longrightarrow> keeps P (get_client cid)"
  by (auto simp: keeps_def get_client_def split: option.splits)

text \<open>
  The network manager works on its own record, posts tasks, and changes nothing else. One lemma
  covers every relation that allows this.
\<close>

locale net_relation = kept_relation P for P :: "world \<Rightarrow> world \<Rightarrow> bool" +
  assumes net_ok: "P w (w\<lparr>net := n\<rparr>)"
    and posted_ok: "P w (w\<lparr>posted := ts\<rparr>)"
begin

lemma net_mod: "keeps P (mod_net f)"
  unfolding mod_net_def by (intro keeps_modE net_ok)

lemma net_Query: "keeps P (rpc_Query env i m ps)"
  unfolding rpc_Query_def by (intro keeps_intros net_mod)

lemma net_template_loop: "keeps P (template_loop env is)"
  unfolding try_template_def
  by (induction "is")
    (auto intro!: keeps_intros net_mod net_Query simp: try_template_def net_ok split: prod.splits)

lemma net_Update: "keeps P (UpdateBlockTemplate env)"
  unfolding UpdateBlockTemplate_def by (intro keeps_intros net_template_loop)

lemma net_notify_loop: "keeps P (notify_loop b nb n)"
  by (induction n) (auto intro!: keeps_intros simp: post_def posted_ok)

lemma net_Send: "keeps P (BlockNotifySend nb)"
  unfolding BlockNotifySend_def by (intro keeps_intros net_notify_loop)

lemma net_check_loop: "keeps P (check_loop env is)"
  by (induction "is") (auto intro!: keeps_intros net_mod net_Query net_Update net_Send simp: check_daemon_def Let_def)

lemma net_BlockCheck: "keeps P (BlockCheck env)"
  unfolding BlockCheck_def by (intro keeps_intros net_check_loop)

lemma net_submit_loop: "keeps P (submit_loop env bytes is)"
  by (induction "is") (auto intro!: keeps_intros net_Query net_BlockCheck simp: submit_to_def)

lemma net_SubmitBlock: "keeps P (SubmitBlock env block)"
  unfolding SubmitBlock_def by (intro keeps_intros net_submit_loop)

end

text \<open>
  The operations that send work, change the difficulty or refuse a share work on the clients, the
  server and the wire: they keep every relation that allows this. Whether a client is subscribed and its
  extranonce stay what they are.
\<close>

definition steady :: "Client \<Rightarrow> Client \<Rightarrow> bool" where
  "steady c c' \<longleftrightarrow> c_subscribed c' = c_subscribed c \<and> c_extranonce c' = c_extranonce c"

definition steady_objs :: "(uint64 \<rightharpoonup> Client) \<Rightarrow> (uint64 \<rightharpoonup> Client) \<Rightarrow> bool" where
  "steady_objs m m' \<longleftrightarrow> dom m \<subseteq> dom m'
     \<and> (\<forall>cid c'. m' cid = Some c' \<longrightarrow> c_subscribed c' \<longrightarrow> (\<exists>c. m cid = Some c \<and> steady c c'))"

lemma steady_simps [simp]:
  "steady c c" "steady c (c\<lparr>c_jobs := j\<rparr>)" "steady c (c\<lparr>c_jobid := k, c_jobs := j\<rparr>)" "steady c (c\<lparr>c_shareLimiter := l\<rparr>)"
  "steady c (c\<lparr>c_diff := d\<rparr>)" "steady c (c\<lparr>c_minDiff := d\<rparr>)" "steady c (c\<lparr>c_workers := ws\<rparr>)" "steady c (c\<lparr>c_ip := ip\<rparr>)"
  "steady c (c\<lparr>c_recvMessage := s\<rparr>)"
  by (simp_all add: steady_def)

lemma steady_objs_mod: "(\<And>c. steady c (f c)) \<Longrightarrow> steady_objs m (m(cid := map_option f (m cid)))"
  by (auto simp: steady_objs_def steady_def)

locale client_relation = net_relation P for P :: "world \<Rightarrow> world \<Rightarrow> bool" +
  assumes objs_ok: "steady_objs (objs w) m \<Longrightarrow> P w (w\<lparr>objs := m\<rparr>)"
    and server_ok: "s_clientId v = s_clientId (server w) \<Longrightarrow> s_extranonce v = s_extranonce (server w) \<Longrightarrow> P w (w\<lparr>server := v\<rparr>)"
    and wire_ok: "P w (w\<lparr>wire := ms\<rparr>)"
    and closed_ok: "P w (w\<lparr>closed := cs\<rparr>)"
begin

lemma cl_mod_client: "(\<And>c. steady c (f c)) \<Longrightarrow> keeps P (mod_client cid f)"
  unfolding mod_client_def by (intro keeps_modE objs_ok steady_objs_mod)

lemma cl_get_client: "keeps P (get_client cid)"
  by (intro keeps_get_client kept_refl)

lemma cl_server:
  "keeps P (post t)" "keeps P (post_all g)" "keeps P (Disconnect cid)"
  "keeps P (Ban env ip secs)" "keeps P GetWork" "keeps P (BlockNotify b nb)"
  "keeps P (IsBanned env ip)"
  unfolding server_defs by ((intro keeps_intros server_ok posted_ok closed_ok; simp)+)

lemma cl_SendMessage: "keeps P (SendMessage env cid msg)"
  unfolding SendMessage_def by (intro keeps_intros wire_ok)

lemma cl_SendJob: "keeps P (SendJob env cid clean)"
  unfolding SendJob_def CleanJobs_def GetJob_def Let_def
  by (intro keeps_intros cl_mod_client cl_get_client cl_server cl_SendMessage; simp)

lemma cl_SetDifficulty: "keeps P (SetDifficulty env cid d b)"
  unfolding SetDifficulty_def Let_def
  by (intro keeps_intros cl_mod_client cl_get_client cl_SendMessage cl_SendJob; simp)

lemma cl_Disconnect: "keeps P (client_Disconnect cid)"
  unfolding client_Disconnect_def by (rule cl_server)

lemma cl_limiter: "keeps P (limiter_Submit env cid d)"
  unfolding limiter_Submit_def retarget_def mod_limiter_def client_Ban_def Let_def
  by (intro keeps_intros cl_mod_client cl_get_client cl_SetDifficulty cl_SendJob cl_server cl_Disconnect; simp)

lemma cl_answers: "keeps P (refuse env cid msg code what)" "keeps P (accept env cid msg)"
  unfolding refuse_def accept_def by (intro keeps_intros cl_SendMessage)+

lemma cl_LogBad: "keeps P (LogBad cid)"
  unfolding LogBad_def mod_limiter_def by (rule cl_mod_client) simp

lemma cl_authorize: "keeps P (OnMiningAuthorize env cid msg)"
  unfolding OnMiningAuthorize_def
  by (intro keeps_intros cl_mod_client cl_get_client cl_SetDifficulty cl_SendMessage; simp)

end

text \<open>A subscription also changes the extranonces.\<close>

locale session_relation = client_relation P for P :: "world \<Rightarrow> world \<Rightarrow> bool" +
  assumes any_objs_ok: "dom (objs w) \<subseteq> dom m \<Longrightarrow> P w (w\<lparr>objs := m\<rparr>)"
    and any_extranonce_ok: "s_clientId v = s_clientId (server w) \<Longrightarrow> P w (w\<lparr>server := v\<rparr>)"
begin

lemma cl_any_client: "keeps P (mod_client cid f)"
  unfolding mod_client_def by (intro keeps_modE any_objs_ok) auto

lemma cl_GetExtranonce: "keeps P GetExtranonce"
  unfolding server_defs by (intro keeps_intros any_extranonce_ok) simp

lemma cl_subscribe: "keeps P (OnMiningSubscribe env cid msg)"
  unfolding OnMiningSubscribe_def Let_def
  by (intro keeps_intros cl_any_client cl_GetExtranonce cl_SendMessage cl_SendJob)

end

definition same_data :: "world \<Rightarrow> world \<Rightarrow> bool" where
  "same_data w w' \<longleftrightarrow> dataMgr w' = dataMgr w"

interpretation data: client_relation same_data
  by unfold_locales (simp_all add: same_data_def)

text \<open>The network manager does not touch the clients, the server, the database queue, or what has been sent.\<close>

definition same_rest :: "world \<Rightarrow> world \<Rightarrow> bool" where
  "same_rest w w' \<longleftrightarrow> objs w' = objs w \<and> server w' = server w \<and> dataMgr w' = dataMgr w
     \<and> database w' = database w \<and> wire w' = wire w \<and> closed w' = closed w"

interpretation net_rest: net_relation same_rest
  by unfold_locales (simp_all add: same_rest_def)

text \<open>Sending work and changing the difficulty do not change who the client is.\<close>

definition identity :: "Client \<Rightarrow> uint32 \<times> uint64 \<times> string set \<times> bool \<times> uint32 \<times> uint64 \<times> string" where
  "identity c = (c_ip c, c_id c, c_workers c, c_subscribed c, c_extranonce c, c_minDiff c, c_recvMessage c)"

definition same_client :: "uint64 \<Rightarrow> world \<Rightarrow> world \<Rightarrow> bool" where
  "same_client cid w w' \<longleftrightarrow> map_option identity (objs w' cid) = map_option identity (objs w cid)"

interpretation keep_client: kept_relation "same_client cid" for cid
  by unfold_locales (simp_all add: same_client_def)

lemmas same_client_intros = keep_client.keeps_intros keeps_mod_client keeps_get_client

lemma same_client_upd:
  "(\<And>c. identity (f c) = identity c) \<Longrightarrow> same_client cid w (w\<lparr>objs := (objs w)(cid' := map_option f (objs w cid'))\<rparr>)"
  by (auto simp: same_client_def option.map_comp comp_def)

lemma same_client_SendMessage: "keeps (same_client cid) (SendMessage env cid' msg)"
  unfolding SendMessage_def by (intro same_client_intros) (simp add: same_client_def)

lemma same_client_SendJob: "keeps (same_client cid) (SendJob env cid' clean)"
  unfolding SendJob_def CleanJobs_def GetJob_def GetWork_def Let_def
  by (intro same_client_intros same_client_SendMessage same_client_upd;
      simp add: same_client_def identity_def)

lemma same_client_SetDifficulty: "keeps (same_client cid) (SetDifficulty env cid' d b)"
  unfolding SetDifficulty_def Let_def
  by (intro same_client_intros same_client_SendMessage same_client_SendJob same_client_upd;
      simp add: same_client_def identity_def)

lemma same_client_limiter: "keeps (same_client cid) (limiter_Submit env cid' d)"
  unfolding limiter_Submit_def retarget_def mod_limiter_def client_Ban_def client_Disconnect_def Let_def
    Ban_def Disconnect_def mod_server_def
  by (intro same_client_intros same_client_SetDifficulty same_client_SendJob same_client_upd;
      simp add: same_client_def identity_def)

lemma same_clientD:
  "same_client cid w w' \<Longrightarrow> objs w cid = Some c \<Longrightarrow> \<exists>c'. objs w' cid = Some c' \<and> identity c' = identity c"
  by (auto simp: same_client_def)

section \<open>Answers\<close>

lemma error_response_ok: "json_ok mid \<Longrightarrow> json_ok (error_response mid code what)"
  unfolding error_response_def by (rule object_ok) (simp add: array_ok)

lemma true_response_ok: "json_ok mid \<Longrightarrow> json_ok (true_response mid)"
  unfolding true_response_def by (rule object_ok) simp

lemma SendMessage_ok:
  assumes "json_ok msg"
  obtains t where "ToString (e_show_double env) msg = Inr t"
    "SendMessage env cid msg w = (w\<lparr>wire := wire w @ [(cid, t @ [CHR 0x0A])]\<rparr>, Inr ())"
proof -
  from write_json_total [OF assms, of "e_show_double env"]
  obtain t where "ToString (e_show_double env) msg = Inr t"
    by (auto simp: ToString_def)
  then show ?thesis by (intro that) (simp_all add: SendMessage_def eff_simps)
qed

text \<open>Sending and refusing change nothing but what is on the wire.\<close>

definition only_wire :: "world \<Rightarrow> world \<Rightarrow> bool" where
  "only_wire w w' \<longleftrightarrow> (\<exists>ms. w' = w\<lparr>wire := ms\<rparr>)"

interpretation keep_wire: kept_relation only_wire
proof
  show "only_wire s s" for s unfolding only_wire_def by (rule exI [of _ "wire s"]) simp
qed (auto simp: only_wire_def)

lemma only_wire_SendMessage: "keeps only_wire (SendMessage env cid msg)"
  unfolding SendMessage_def by (intro keep_wire.keeps_intros) (auto simp: only_wire_def)

lemma only_wire_answers:
  "keeps only_wire (refuse env cid msg code what)" "keeps only_wire (accept env cid msg)"
  unfolding refuse_def accept_def by (intro keep_wire.keeps_intros only_wire_SendMessage)+

section \<open>What a submission adds to the share store\<close>

text \<open>The shares that an operation pushes all satisfy \<open>Q\<close>, and there is at most one.\<close>

definition pushes :: "(Share \<Rightarrow> bool) \<Rightarrow> world \<Rightarrow> world \<Rightarrow> bool" where
  "pushes Q w w' \<longleftrightarrow> (\<exists>ss. datastore (dataMgr w') = datastore (dataMgr w) @ ss \<and> length ss \<le> 1 \<and> (\<forall>s \<in> set ss. Q s))"

lemma pushes_none: "dataMgr w' = dataMgr w \<Longrightarrow> pushes Q w w'"
  by (simp add: pushes_def)

lemma pushes_same: "same_data w w' \<Longrightarrow> pushes Q w w'"
  by (simp add: pushes_none same_data_def)

lemma pushes_cong: "dataMgr w1 = dataMgr w2 \<Longrightarrow> dataMgr w1' = dataMgr w2' \<Longrightarrow> pushes Q w1 w1' = pushes Q w2 w2'"
  by (simp add: pushes_def)

lemma only_wire_data: "only_wire w w' \<Longrightarrow> dataMgr w' = dataMgr w"
  by (auto simp: only_wire_def)

lemma refuse_data: "dataMgr (fst (refuse env cid msg code what w)) = dataMgr w"
  using only_wire_answers(1) [of env cid msg code what] only_wire_data by (auto simp: keeps_def)

lemma accept_data: "dataMgr (fst (accept env cid msg w)) = dataMgr w"
  using only_wire_answers(2) [of env cid msg] only_wire_data by (auto simp: keeps_def)

lemma SubmitBlock_data: "dataMgr (fst (SubmitBlock env block w)) = dataMgr w"
  using data.net_SubmitBlock [of env block] by (auto simp: keeps_def same_data_def)

lemma SubmitBlock_objs: "objs (fst (SubmitBlock env block w)) = objs w"
  using net_rest.net_SubmitBlock [of env block] by (auto simp: keeps_def same_rest_def)

lemma push_share_apply [eff_simps]:
  "objs w cid = Some c \<Longrightarrow> bindE (push_share env cid user res why diff) g w
   = g () (w\<lparr>dataMgr := Push (Share_new (c_ip c) user res why (ucast (e_now env)) diff) (dataMgr w)\<rparr>)"
  by (simp add: push_share_def bindE_def get_client_def modE_def)

lemma LogBad_apply [eff_simps]:
  "objs w cid = Some c \<Longrightarrow> bindE (LogBad cid) g w
   = g () (w\<lparr>objs := (objs w)(cid \<mapsto> c\<lparr>c_shareLimiter :=
       (c_shareLimiter c)\<lparr>totalBadShares := totalBadShares (c_shareLimiter c) + 1\<rparr>\<rparr>)\<rparr>)"
  by (simp add: LogBad_def mod_limiter_def eff_simps)

text \<open>A rejected share: pushed as bad, counted, and answered with an error.\<close>

lemma reject_pushes:
  assumes "objs w cid = Some c" and "\<And>t d. Q (Share_new (c_ip c) user False why t d)"
  shows "pushes Q w (fst (bindE (push_share env cid user False why diff)
      (\<lambda>_. bindE (LogBad cid) (\<lambda>_. refuse env cid msg code what)) w))"
  using assms by (simp add: eff_simps) (simp add: pushes_def refuse_data Push_def)

text \<open>The hash of a block as the number that is compared with a target.\<close>

definition hash_number :: "hash_fn \<Rightarrow> Block \<Rightarrow> int" where
  "hash_number sha block = int (hex_value (BinToASCII (Reverse (blk_GetHash sha block))))"

text \<open>
  What an accepted share says: the worker was authorised, the job was known, the share was new for
  this job, and the block assembled from the miner's data meets the target of the job.
\<close>

definition share_checked :: "env \<Rightarrow> Client \<Rightarrow> JSON \<Rightarrow> Share \<Rightarrow> bool" where
  "share_checked env c params s \<longleftrightarrow>
     (\<exists>user str1 str2 str3 str4 job share rest block.
        bindR (index_vec 0 params) GetString = Inr user \<and> user \<in> c_workers c
      \<and> bindR (index_vec 1 params) GetString = Inr str1
      \<and> bindR (index_vec 2 params) GetString = Inr str2
      \<and> bindR (index_vec 3 params) GetString = Inr str3
      \<and> bindR (index_vec 4 params) GetString = Inr str4
      \<and> c_jobs c (ucast (read_hex_u32 (e_junk env) str1)) = Some job
      \<and> Read (ByteBuffer_of (Reverse (ASCIIToBin str4) @ ASCIIToBin str2)) = Inr (share, rest)
      \<and> share \<notin> job_shares job \<and> length (ASCIIToBin str2) = 4
      \<and> assemble env (c_extranonce c) job (Reverse (ASCIIToBin str3)) (Reverse (ASCIIToBin str4))
          (ASCIIToBin str2) = Inr block
      \<and> hash_number (e_sha env) block \<le> jobTarget job
      \<and> s = Share_new (c_ip c) user True [] (ucast (e_now env)) (job_diff job))"

lemma judge_share_pushes:
  assumes "objs w cid = Some c"
  shows "pushes (\<lambda>s. share_result s \<longrightarrow> hash_number (e_sha env) block \<le> jobTarget job
      \<and> s = Share_new (c_ip c) user True [] (ucast (e_now env)) (job_diff job))
    w (fst (judge_share env cid msg user job block w))" (is "pushes ?Q w ?w'")
proof (cases "BigInt_hex (BinToASCII (Reverse (blk_GetHash (e_sha env) block)))")
  case (Inl e)
  then show ?thesis by (simp add: judge_share_def Let_def eff_simps pushes_none)
next
  case (Inr t)
  then have t: "t = hash_number (e_sha env) block"
    by (auto simp: BigInt_hex_def hash_number_def split: if_splits)
  consider "t > jobTarget job" | "\<not> t > jobTarget job" "t \<le> blockTarget job"
    | "\<not> t > jobTarget job" "\<not> t \<le> blockTarget job" by blast
  then show ?thesis
  proof cases
    case 1
    then have "?w' = fst (bindE (push_share env cid user False ''Share above target'' (job_diff job))
      (\<lambda>_. bindE (LogBad cid) (\<lambda>_. refuse env cid msg 23 ''Share above target'')) w)"
      by (simp add: judge_share_def Let_def eff_simps Inr)
    also have "pushes ?Q w \<dots>" by (rule reject_pushes [OF assms]) (simp add: Share_new_def)
    finally show ?thesis .
  next
    case 2
    obtain w1 r where w1: "SubmitBlock env block w = (w1, r)" by (cases "SubmitBlock env block w")
    have "dataMgr w1 = dataMgr w" "objs w1 cid = Some c"
      using SubmitBlock_data [of env block w] SubmitBlock_objs [of env block w] assms by (simp_all add: w1)
    then have "dataMgr ?w' = dataMgr w"
      using 2 by (simp add: judge_share_def Let_def bindE_lift Inr)
        (auto simp: bindE_def [of "SubmitBlock env block"] w1 eff_simps accept_data split: sum.splits)
    then show ?thesis by (rule pushes_none)
  next
    case 3
    then show ?thesis
      using assms by (simp add: judge_share_def Let_def eff_simps Inr)
        (simp add: pushes_def accept_data Push_def t)
  qed
qed

lemma Size_of [simp]: "Size (ByteBuffer_of d) = of_nat (length d)"
  by (simp add: Size_def ByteBuffer_of_def)

lemma share_buffer [simp]: "AppendBinary e (AppendBinary n ByteBuffer_new) = ByteBuffer_of (n @ e)"
  by (simp add: AppendBinary_def ByteBuffer_new_def ByteBuffer_of_def)

lemma assemble_shares [simp]:
  "assemble env x (job\<lparr>job_shares := S\<rparr>) t n e = assemble env x job t n e"
  by (simp add: assemble_def)

text \<open>Rules that follow the structure of a handler.\<close>

lemma pushes_lift:
  "(\<And>a. r = Inr a \<Longrightarrow> pushes Q w (fst (f a w))) \<Longrightarrow> pushes Q w (fst (bindE (liftE r) f w))"
  by (cases r) (simp_all add: eff_simps pushes_none)

lemma pushes_refuse: "pushes Q w (fst (refuse env cid msg code what w))"
  by (rule pushes_none) (rule refuse_data)

lemma pushes_if:
  "(b \<Longrightarrow> pushes Q w (fst (m w))) \<Longrightarrow> (\<not> b \<Longrightarrow> pushes Q w (fst (n w)))
   \<Longrightarrow> pushes Q w (fst ((if b then m else n) w))"
  by simp

lemma pushes_mod_client:
  assumes "objs w cid = Some c"
    and "\<And>w1. w1 = w\<lparr>objs := (objs w)(cid \<mapsto> f c)\<rparr> \<Longrightarrow> pushes Q w1 (fst (g () w1))"
  shows "pushes Q w (fst (bindE (mod_client cid f) g w))"
  using assms(2) [OF refl] by (simp add: eff_simps assms(1) pushes_def)

lemma pushes_get_client:
  "objs w cid = Some c \<Longrightarrow> pushes Q w (fst (f c w)) \<Longrightarrow> pushes Q w (fst (bindE (get_client cid) f w))"
  by (simp add: eff_simps)

lemma pushes_mono: "pushes Q w w' \<Longrightarrow> (\<And>s. Q s \<Longrightarrow> Q' s) \<Longrightarrow> pushes Q' w w'"
  by (auto simp: pushes_def)

lemma pushes_after:
  assumes keep: "same_data w (fst (m w))"
    and "\<And>w1 a. m w = (w1, Inr a) \<Longrightarrow> pushes Q w1 (fst (f a w1))"
  shows "pushes Q w (fst (bindE m f w))"
proof (cases "m w")
  case (Pair w1 r)
  then show ?thesis
    using keep assms(2) by (cases r) (auto simp: bindE_def pushes_def same_data_def)
qed

lemma settle_share_pushes:
  assumes c: "objs w cid = Some c"
  shows "pushes (\<lambda>s. share_result s \<longrightarrow> share \<notin> job_shares job
      \<and> (\<exists>block. assemble env (c_extranonce c) job t n e = Inr block
          \<and> hash_number (e_sha env) block \<le> jobTarget job
          \<and> s = Share_new (c_ip c) user True [] (ucast (e_now env)) (job_diff job)))
    w (fst (settle_share env cid msg user jobid job t n e share w))" (is "pushes ?Q w ?w'")
proof (cases "share \<in> job_shares job")
  case True
  then show ?thesis
    unfolding settle_share_def SubmitShare_def Let_def
    by (simp, intro pushes_mod_client [OF c] reject_pushes) (auto simp: Share_new_def)
next
  case False
  let ?job = "job\<lparr>job_shares := insert share (job_shares job)\<rparr>"
  let ?c = "c\<lparr>c_jobs := (c_jobs c)(ucast jobid \<mapsto> ?job)\<rparr>"
  have judge: "pushes ?Q w1 (fst (judge_share env cid msg user ?job block w1))"
    if "objs w1 cid = Some ?c" and "assemble env (c_extranonce c) job t n e = Inr block" for w1 block
    by (rule pushes_mono [OF judge_share_pushes [OF that(1)]]) (use that(2) False in auto)
  let ?w1 = "w\<lparr>objs := (objs w)(cid \<mapsto> ?c)\<rparr>"
  have run: "settle_share env cid msg user jobid job t n e share w
      = bindE (liftE (assemble env (c_extranonce c) job t n e)) (judge_share env cid msg user ?job) ?w1"
    using False c by (simp add: settle_share_def SubmitShare_def eff_simps)
  have "pushes ?Q ?w1 ?w'"
    unfolding run by (rule pushes_lift, rule judge) simp_all
  then show ?thesis by (simp add: pushes_def)
qed

lemma take_share_pushes:
  assumes c: "objs w cid = Some c"
    and user: "bindR (index_vec 0 params) GetString = Inr user" "user \<in> c_workers c"
    and str1: "bindR (index_vec 1 params) GetString = Inr str1"
    and job: "c_jobs c0 (ucast (read_hex_u32 (e_junk env) str1)) = Some job"
    and same: "identity c = identity c0"
  shows "pushes (\<lambda>s. share_result s \<longrightarrow> share_checked env c0 params s) w
    (fst (take_share env cid msg params user (read_hex_u32 (e_junk env) str1) job w))"
    (is "pushes ?Q w ?w'")
proof -
  have c0: "c_workers c0 = c_workers c" "c_extranonce c0 = c_extranonce c" "c_ip c0 = c_ip c"
    using same by (simp_all add: identity_def)
  have settle: "pushes ?Q w (fst (settle_share env cid msg user jobid job
      (Reverse (ASCIIToBin str3)) (Reverse (ASCIIToBin str4)) (ASCIIToBin str2) share w))"
    if "bindR (index_vec 2 params) GetString = Inr str2" "bindR (index_vec 3 params) GetString = Inr str3"
      "bindR (index_vec 4 params) GetString = Inr str4"
      "Read (ByteBuffer_of (Reverse (ASCIIToBin str4) @ ASCIIToBin str2)) = Inr (share, rest)"
      "length (ASCIIToBin str2) = 4"
    for str2 str3 str4 share rest jobid
    by (rule pushes_mono [OF settle_share_pushes [OF c]])
      (use that user str1 job in \<open>auto simp: share_checked_def c0\<close>)
  show ?thesis
    unfolding take_share_def Let_def share_buffer
    by (intro pushes_lift pushes_if pushes_refuse) (auto intro!: settle)
qed

lemma OnMiningSubmit_pushes:
  assumes c: "objs w cid = Some c" and params: "get_field ''params'' msg = Inr params"
  shows "pushes (\<lambda>s. share_result s \<longrightarrow> share_checked env c params s) w
    (fst (OnMiningSubmit env cid msg w))" (is "pushes ?Q w ?w'")
proof -
  have limited: "pushes ?Q w (fst (bindE (limiter_Submit env cid (job_diff job)) (\<lambda>pass.
         if \<not> pass then refuse env cid msg 20 ''Blocked by share limiter''
         else take_share env cid msg params user (read_hex_u32 (e_junk env) str1) job) w))"
    if "bindR (index_vec 0 params) GetString = Inr user" "user \<in> c_workers c"
      "bindR (index_vec 1 params) GetString = Inr str1"
      "c_jobs c (ucast (read_hex_u32 (e_junk env) str1)) = Some job" for user str1 job
  proof (rule pushes_after)
    show "same_data w (fst (limiter_Submit env cid (job_diff job) w))"
      using data.cl_limiter by (auto simp: keeps_def)
    fix w1 pass assume w1: "limiter_Submit env cid (job_diff job) w = (w1, Inr pass)"
    from keepsD [OF same_client_limiter this] c obtain c1
      where c1: "objs w1 cid = Some c1" "identity c1 = identity c" by (auto dest: same_clientD)
    then have "c_workers c1 = c_workers c" by (simp add: identity_def)
    with that c1 show "pushes ?Q w1 (fst ((if \<not> pass then refuse env cid msg 20 ''Blocked by share limiter''
         else take_share env cid msg params user (read_hex_u32 (e_junk env) str1) job) w1))"
      by (intro pushes_if pushes_refuse take_share_pushes [OF c1(1)]) auto
  qed
  show ?thesis
    unfolding OnMiningSubmit_def Let_def params
    by (intro pushes_lift pushes_get_client [OF c] pushes_if pushes_refuse)
      (auto split: option.splits intro!: limited reject_pushes [OF c] simp: Share_new_def)
qed

section \<open>Properties\<close>

text \<open>
  C9. Handling \<open>mining.submit\<close> records at most one share, and one recorded as good only after every
  check has passed: the worker is authorised on this connection, the job is one of the client's,
  the share is new for this job, and the block assembled from the submitted data has a hash not
  above the target of the job. The share is credited with the difficulty of the job.
\<close>

theorem recorded_share_checked:
  assumes "objs w cid = Some c" and "OnMiningSubmit env cid msg w = (w', r)"
  shows "\<exists>ss. datastore (dataMgr w') = datastore (dataMgr w) @ ss \<and> length ss \<le> 1
    \<and> (\<forall>s \<in> set ss. share_result s \<longrightarrow>
        (\<exists>params. get_field ''params'' msg = Inr params \<and> share_checked env c params s))"
proof (cases "get_field ''params'' msg")
  case (Inl e)
  then have "w' = w" using assms(2) by (simp add: OnMiningSubmit_def eff_simps)
  then show ?thesis by simp
next
  case (Inr params)
  from OnMiningSubmit_pushes [OF assms(1) Inr, of env] assms(2) Inr show ?thesis
    by (auto simp: pushes_def)
qed

text \<open>A request for a job that does not exist.\<close>

definition sample_submit :: JSON where
  "sample_submit = j_object [(''id'', j_int 1), (''params'', j_array [j_string ''worker'', j_string ''5''])]"

lemma objs_sample: "objs (sample_world block) 0 = Some sample_client"
  by (simp add: sample_world_def)

theorem recorded_share_checked_witness:
  "\<exists>ss. datastore (dataMgr (fst (OnMiningSubmit sample_env 0 sample_submit (sample_world sample_block)))) = ss
    \<and> length ss \<le> 1 \<and> (\<forall>s \<in> set ss. share_result s \<longrightarrow>
        (\<exists>params. get_field ''params'' sample_submit = Inr params \<and> share_checked sample_env sample_client params s))"
proof -
  obtain w' r where run: "OnMiningSubmit sample_env 0 sample_submit (sample_world sample_block) = (w', r)"
    by (cases "OnMiningSubmit sample_env 0 sample_submit (sample_world sample_block)")
  from recorded_share_checked [OF objs_sample this] show ?thesis
    by (simp add: run) (simp add: sample_world_def)
qed

section \<open>Every branch of a submission\<close>

lemma get_field_object:
  "distinct (map fst kvs) \<Longrightarrow> (k, x) \<in> set kvs \<Longrightarrow> get_field k (j_object kvs) = Inr x"
  by (simp add: get_field_def index_key_def object_member)

text \<open>A refusal, with everything it leaves.\<close>

lemma refuse_run:
  assumes "get_field ''id'' msg = Inr mid" and "json_ok mid"
  shows "\<exists>t. ToString (e_show_double env) (error_response mid code what) = Inr t
    \<and> refuse env cid msg code what w = (w\<lparr>wire := wire w @ [(cid, t @ [CHR 0x0A])]\<rparr>, Inr ())"
  using SendMessage_ok [OF error_response_ok [OF assms(2)], of env code what cid w]
  by (auto simp: refuse_def assms(1) eff_simps)

text \<open>The counter of bad shares goes up by one.\<close>

definition logged_bad :: "Client \<Rightarrow> Client" where
  "logged_bad c = c\<lparr>c_shareLimiter := (c_shareLimiter c)\<lparr>totalBadShares := totalBadShares (c_shareLimiter c) + 1\<rparr>\<rparr>"

lemma reject_run:
  assumes c: "objs w cid = Some c" and mid: "get_field ''id'' msg = Inr mid" "json_ok mid"
  shows "\<exists>t. ToString (e_show_double env) (error_response mid code what) = Inr t
    \<and> bindE (push_share env cid user False why diff) (\<lambda>_. bindE (LogBad cid) (\<lambda>_. refuse env cid msg code what)) w
      = (w\<lparr>objs := (objs w)(cid \<mapsto> logged_bad c),
           dataMgr := Push (Share_new (c_ip c) user False why (ucast (e_now env)) diff) (dataMgr w),
           wire := wire w @ [(cid, t @ [CHR 0x0A])]\<rparr>, Inr ())"
proof -
  let ?w = "w\<lparr>dataMgr := Push (Share_new (c_ip c) user False why (ucast (e_now env)) diff) (dataMgr w),
    objs := (objs w)(cid \<mapsto> logged_bad c)\<rparr>"
  from refuse_run [OF mid, of env code what cid ?w] obtain t where
    t: "ToString (e_show_double env) (error_response mid code what) = Inr t"
      "refuse env cid msg code what ?w = (?w\<lparr>wire := wire ?w @ [(cid, t @ [CHR 0x0A])]\<rparr>, Inr ())" by blast
  have "bindE (push_share env cid user False why diff) (\<lambda>_. bindE (LogBad cid) (\<lambda>_. refuse env cid msg code what)) w
      = refuse env cid msg code what ?w"
    using c by (simp add: eff_simps logged_bad_def)
  with t show ?thesis by auto
qed

text \<open>
  C22. A submission by a worker that is not authorised on this connection, or for a job the client
  does not have, is answered with the error of the protocol (24 or 21) under the id of the request.
  The first changes nothing else; the second is recorded as a bad share of difficulty 1 and counted
  by the share limiter. Neither ever reaches the proof of work.
\<close>

theorem submit_rejections:
  assumes c: "objs w cid = Some c" and mid: "get_field ''id'' msg = Inr mid" "json_ok mid"
    and params: "get_field ''params'' msg = Inr params"
    and user: "bindR (index_vec 0 params) GetString = Inr user"
  shows "(user \<notin> c_workers c \<longrightarrow>
      (\<exists>t. ToString (e_show_double env) (error_response mid 24 ''Unauthorized worker'') = Inr t
        \<and> OnMiningSubmit env cid msg w = (w\<lparr>wire := wire w @ [(cid, t @ [CHR 0x0A])]\<rparr>, Inr ())))
    \<and> (\<forall>str1. user \<in> c_workers c \<and> bindR (index_vec 1 params) GetString = Inr str1
        \<and> c_jobs c (ucast (read_hex_u32 (e_junk env) str1)) = None \<longrightarrow>
      (\<exists>t. ToString (e_show_double env) (error_response mid 21 ''Job not found'') = Inr t
        \<and> OnMiningSubmit env cid msg w
          = (w\<lparr>objs := (objs w)(cid \<mapsto> logged_bad c),
               dataMgr := Push (Share_new (c_ip c) user False ''Job not found'' (ucast (e_now env)) 1) (dataMgr w),
               wire := wire w @ [(cid, t @ [CHR 0x0A])]\<rparr>, Inr ())))"
  using refuse_run [OF mid, of env 24 "''Unauthorized worker''" cid w]
    reject_run [OF c mid, of env 21 "''Job not found''" user "''Job not found''" 1] c
  by (auto simp: OnMiningSubmit_def params user eff_simps)

theorem submit_rejections_witness:
  "\<exists>t. ToString (e_show_double sample_env) (error_response (j_int 1) 21 ''Job not found'') = Inr t
     \<and> datastore (dataMgr (fst (OnMiningSubmit sample_env 0 sample_submit (sample_world sample_block))))
       = [Share_new 1 ''worker'' False ''Job not found'' 1400000000 1]
     \<and> wire (fst (OnMiningSubmit sample_env 0 sample_submit (sample_world sample_block))) = [(0, t @ [CHR 0x0A])]"
proof -
  let ?params = "j_array [j_string ''worker'', j_string ''5'']"
  have params: "get_field ''id'' sample_submit = Inr (j_int 1)" "get_field ''params'' sample_submit = Inr ?params"
    unfolding sample_submit_def by (rule get_field_object; simp)+
  have user: "bindR (index_vec 0 ?params) GetString = Inr ''worker''"
    and str1: "bindR (index_vec 1 ?params) GetString = Inr ''5''"
    by (simp_all add: index_vec_def j_array_eq GetString_def j_string_def assign_string_def JSON_new_def)
  from submit_rejections [OF objs_sample params(1) _ params(2) user, of sample_env sample_block] str1
  obtain t where "ToString (e_show_double sample_env) (error_response (j_int 1) 21 ''Job not found'') = Inr t"
    "OnMiningSubmit sample_env 0 sample_submit (sample_world sample_block)
     = ((sample_world sample_block)\<lparr>objs := (objs (sample_world sample_block))(0 \<mapsto> logged_bad sample_client),
         dataMgr := Push (Share_new (c_ip sample_client) ''worker'' False ''Job not found''
           (ucast (e_now sample_env)) 1) (dataMgr (sample_world sample_block)),
         wire := wire (sample_world sample_block) @ [(0, t @ [CHR 0x0A])]\<rparr>, Inr ())"
    by (auto simp: sample_client_def)
  then show ?thesis by (simp add: sample_world_def sample_client_def Push_def sample_env_def)
qed

text \<open>The client after its job has been looked at.\<close>

abbreviation with_job :: "uint32 \<Rightarrow> Job \<Rightarrow> Client \<Rightarrow> Client" where
  "with_job jobid job c \<equiv> c\<lparr>c_jobs := (c_jobs c)(ucast jobid \<mapsto> job)\<rparr>"

lemma accept_run:
  assumes "get_field ''id'' msg = Inr mid" and "json_ok mid"
  shows "\<exists>t. ToString (e_show_double env) (true_response mid) = Inr t
    \<and> accept env cid msg w = (w\<lparr>wire := wire w @ [(cid, t @ [CHR 0x0A])]\<rparr>, Inr ())"
  using SendMessage_ok [OF true_response_ok [OF assms(2)], of env cid w]
  by (auto simp: accept_def assms(1) eff_simps)

lemma BigInt_hash:
  "blk_GetHash (e_sha env) block \<noteq> [] \<Longrightarrow>
   BigInt_hex (BinToASCII (Reverse (blk_GetHash (e_sha env) block))) = Inr (hash_number (e_sha env) block)"
  using length_BinToASCII [of "Reverse (blk_GetHash (e_sha env) block)"]
  by (auto simp: BigInt_hex_def hash_number_def Reverse_def simp del: length_BinToASCII)

lemma settle_share_run:
  assumes c: "objs w cid = Some c" and mid: "get_field ''id'' msg = Inr mid" "json_ok mid"
    and block: "assemble env (c_extranonce c) job t n e = Inr block"
    and hash: "blk_GetHash (e_sha env) block \<noteq> []" "\<not> hash_number (e_sha env) block \<le> blockTarget job"
  shows "\<exists>text. settle_share env cid msg user jobid job t n e share w =
   (let job' = job\<lparr>job_shares := insert share (job_shares job)\<rparr>;
        verdict = (if share \<in> job_shares job then Some (22, ''Duplicate share'')
                   else if hash_number (e_sha env) block > jobTarget job then Some (23, ''Share above target'')
                   else None);
        c' = with_job jobid job' c
    in (w\<lparr>objs := (objs w)(cid \<mapsto> (if verdict = None then c' else logged_bad c')),
          dataMgr := Push (Share_new (c_ip c) user (verdict = None)
            (case verdict of None \<Rightarrow> [] | Some (code, why) \<Rightarrow> why) (ucast (e_now env)) (job_diff job)) (dataMgr w),
          wire := wire w @ [(cid, text @ [CHR 0x0A])]\<rparr>, Inr ()))
    \<and> ToString (e_show_double env) (if share \<in> job_shares job then error_response mid 22 ''Duplicate share''
        else if hash_number (e_sha env) block > jobTarget job then error_response mid 23 ''Share above target''
        else true_response mid) = Inr text"
proof -
  let ?job = "job\<lparr>job_shares := insert share (job_shares job)\<rparr>"
  let ?c = "with_job jobid ?job c"
  let ?w = "w\<lparr>objs := (objs w)(cid \<mapsto> ?c)\<rparr>"
  have same: "share \<in> job_shares job \<Longrightarrow> job\<lparr>job_shares := insert share (job_shares job)\<rparr> = job"
    by (simp add: insert_absorb)
  have c1: "objs ?w cid = Some ?c" by simp
  consider "share \<in> job_shares job"
    | "share \<notin> job_shares job" "hash_number (e_sha env) block > jobTarget job"
    | "share \<notin> job_shares job" "\<not> hash_number (e_sha env) block > jobTarget job" by blast
  then show ?thesis
  proof cases
    case 1
    then have "settle_share env cid msg user jobid job t n e share w
        = bindE (push_share env cid user False ''Duplicate share'' (job_diff job))
            (\<lambda>_. bindE (LogBad cid) (\<lambda>_. refuse env cid msg 22 ''Duplicate share'')) ?w"
      using c by (simp add: settle_share_def SubmitShare_def same eff_simps)
    with reject_run [OF c1 mid, of env 22 "''Duplicate share''" user "''Duplicate share''" "job_diff job"] 1
    show ?thesis by (auto simp: Let_def)
  next
    case 2
    then have "settle_share env cid msg user jobid job t n e share w
        = bindE (push_share env cid user False ''Share above target'' (job_diff job))
            (\<lambda>_. bindE (LogBad cid) (\<lambda>_. refuse env cid msg 23 ''Share above target'')) ?w"
      using c block by (simp add: settle_share_def SubmitShare_def judge_share_def Let_def BigInt_hash [OF hash(1)] eff_simps)
    with reject_run [OF c1 mid, of env 23 "''Share above target''" user "''Share above target''" "job_diff job"] 2
    show ?thesis by (auto simp: Let_def)
  next
    case 3
    let ?w2 = "?w\<lparr>dataMgr := Push (Share_new (c_ip c) user True [] (ucast (e_now env)) (job_diff job)) (dataMgr w)\<rparr>"
    from 3 have "settle_share env cid msg user jobid job t n e share w = accept env cid msg ?w2"
      using c block hash(2)
      by (simp add: settle_share_def SubmitShare_def judge_share_def Let_def BigInt_hash [OF hash(1)] eff_simps)
    with accept_run [OF mid, of env cid ?w2] 3 show ?thesis by (auto simp: Let_def)
  qed
qed

text \<open>
  C11. The three outcomes of a share that is decoded and does not solve the block. One that the job
  has seen is refused with error 22 and one whose hash is above the target of the job with error
  23; both are recorded as bad and counted. Any other is recorded as good, with the difficulty of
  the job, and answered with \<^verbatim>\<open>true\<close>. In each case the answer carries the id of the request, and the
  job remembers the share.
\<close>

theorem share_outcomes:
  assumes c: "objs w cid = Some c" and mid: "get_field ''id'' msg = Inr mid" "json_ok mid"
    and block: "assemble env (c_extranonce c) job t n e = Inr block"
    and hash: "blk_GetHash (e_sha env) block \<noteq> []" "\<not> hash_number (e_sha env) block \<le> blockTarget job"
  shows "\<exists>text. settle_share env cid msg user jobid job t n e share w =
   (let job' = job\<lparr>job_shares := insert share (job_shares job)\<rparr>;
        verdict = (if share \<in> job_shares job then Some (22, ''Duplicate share'')
                   else if hash_number (e_sha env) block > jobTarget job then Some (23, ''Share above target'')
                   else None);
        c' = with_job jobid job' c
    in (w\<lparr>objs := (objs w)(cid \<mapsto> (if verdict = None then c' else logged_bad c')),
          dataMgr := Push (Share_new (c_ip c) user (verdict = None)
            (case verdict of None \<Rightarrow> [] | Some (code, why) \<Rightarrow> why) (ucast (e_now env)) (job_diff job)) (dataMgr w),
          wire := wire w @ [(cid, text @ [CHR 0x0A])]\<rparr>, Inr ()))
    \<and> ToString (e_show_double env) (if share \<in> job_shares job then error_response mid 22 ''Duplicate share''
        else if hash_number (e_sha env) block > jobTarget job then error_response mid 23 ''Share above target''
        else true_response mid) = Inr text"
  using assms by (rule settle_share_run)

text \<open>
  C14. A share that solves the block is submitted to the daemons. When one of them accepts it, one
  query that records the share with the block's hash is queued for the database and the miner is
  answered with \<^verbatim>\<open>true\<close>. When none does, nothing is recorded and the miner gets no answer at all,
  although its share met the target of the job.
\<close>

theorem solved_block_outcomes:
  assumes c: "objs w cid = Some c" and mid: "get_field ''id'' msg = Inr mid" "json_ok mid"
    and hash: "blk_GetHash (e_sha env) block \<noteq> []" "hash_number (e_sha env) block \<le> jobTarget job"
      "hash_number (e_sha env) block \<le> blockTarget job"
    and submit: "SubmitBlock env block w = (w1, Inr accepted)"
  shows "objs w1 = objs w \<and> dataMgr w1 = dataMgr w \<and> database w1 = database w \<and> wire w1 = wire w
    \<and> (if accepted
       then \<exists>text. ToString (e_show_double env) (true_response mid) = Inr text
         \<and> judge_share env cid msg user job block w
           = (w1\<lparr>database := snd (ExecuteAsync (c_str (block_query (c_ip c) user
                 (blk_GetHash (e_sha env) block) (e_now env) (job_diff job))) (database w)),
                 wire := wire w @ [(cid, text @ [CHR 0x0A])]\<rparr>, Inr ())
       else judge_share env cid msg user job block w = (w1, Inr ()))"
proof -
  have rest: "objs w1 = objs w" "dataMgr w1 = dataMgr w" "database w1 = database w" "wire w1 = wire w"
    using keepsD [OF net_rest.net_SubmitBlock submit] by (simp_all add: same_rest_def)
  have c1: "objs w1 cid = Some c" using c by (simp add: rest)
  let ?q = "c_str (block_query (c_ip c) user (blk_GetHash (e_sha env) block) (e_now env) (job_diff job))"
  let ?w2 = "w1\<lparr>database := snd (ExecuteAsync ?q (database w1))\<rparr>"
  have run: "judge_share env cid msg user job block w
      = (if accepted then accept env cid msg ?w2 else (w1, Inr ()))"
    using hash(2,3) by (simp add: judge_share_def Let_def bindE_lift BigInt_hash [OF hash(1)])
      (simp add: bindE_def [of "SubmitBlock env block"] submit eff_simps c1)
  show ?thesis
    using accept_run [OF mid, of env cid ?w2] by (cases accepted) (auto simp: run rest)
qed

text \<open>The two properties of the stratum server on a small instance.\<close>

theorem extranonces_distinct_witness:
  "distinct (extranonces 3 (sample_world sample_block)) \<and> length (extranonces 3 (sample_world sample_block)) = 3"
  by (rule extranonces_distinct) simp

theorem Ban_effect_witness:
  "\<exists>w'. Ban sample_env 7 600 (sample_world sample_block) = (w', Inr ())
    \<and> snd (IsBanned sample_env 7 w') = Inr True
    \<and> snd (IsBanned (sample_env\<lparr>e_now := 1400000600\<rparr>) 7 w') = Inr False
    \<and> snd (IsBanned sample_env 8 w') = Inr False"
proof -
  let ?w = "sample_world sample_block"
  have fits: "unat (e_now sample_env) + unat (600 :: uint64) < 2 ^ 64" by (simp add: sample_env_def)
  have none: "s_bans (server ?w) = []" by (simp add: sample_world_def)
  obtain w' where w': "Ban sample_env 7 600 ?w = (w', Inr ())"
    using Ban_effect [OF fits, of 7 ?w sample_env] by blast
  with Ban_effect [OF fits, of 7 ?w sample_env] Ban_effect [OF fits, of 7 ?w "sample_env\<lparr>e_now := 1400000600\<rparr>"]
  have "snd (IsBanned sample_env 7 w') = Inr True" "snd (IsBanned (sample_env\<lparr>e_now := 1400000600\<rparr>) 7 w') = Inr False"
    "snd (IsBanned sample_env 8 w') = snd (IsBanned sample_env 8 ?w)"
    by (auto simp: none sample_env_def)
  moreover have "snd (IsBanned sample_env 8 ?w) = Inr False" by (simp add: IsBanned_def none eff_simps)
  ultimately show ?thesis using w' by auto
qed

end
