(* ===== verification/Mining_Work.thy ===== *)
theory Mining_Work
  imports Client_Props
begin

unbundle bit_operations_syntax

text \<open>
  The work a miner gets and the work the pool checks are the same: what a miner computes from a
  \<open>mining.notify\<close> message and its own nonces is the header that \<open>OnMiningSubmit\<close> hashes.
\<close>

section \<open>Words of four bytes\<close>

definition word_of_bytes :: "byte \<Rightarrow> byte \<Rightarrow> byte \<Rightarrow> byte \<Rightarrow> uint32" where
  "word_of_bytes a b c d =
     ucast a OR push_bit 8 (ucast b) OR push_bit 16 (ucast c) OR push_bit 24 (ucast d)"

lemma word_bytes_of_bytes: "word_bytes (word_of_bytes a b c d) = [a, b, c, d]"
proof -
  have "(ucast (word_of_bytes a b c d) :: byte) = a"
    and "(ucast (drop_bit 8 (word_of_bytes a b c d)) :: byte) = b"
    and "(ucast (drop_bit 16 (word_of_bytes a b c d)) :: byte) = c"
    and "(ucast (drop_bit 24 (word_of_bytes a b c d)) :: byte) = d"
    by (rule bit_word_eqI, auto simp: word_of_bytes_def bit_simps dest: bit_imp_le_length)+
  then show ?thesis by (simp add: word_bytes_def upt_rec)
qed

lemma bytes_words:
  "length l = 4 * n \<Longrightarrow> \<exists>ws :: uint32 list. length ws = n \<and> l = concat (map word_bytes ws)"
proof (induction n arbitrary: l)
  case (Suc n)
  then obtain a b c d r where l: "l = a # b # c # d # r" "length r = 4 * n"
    by (auto simp: length_Suc_conv numeral_eq_Suc)
  from Suc.IH [OF l(2)] obtain ws :: "uint32 list" where "length ws = n" "r = concat (map word_bytes ws)"
    by blast
  then have "length (word_of_bytes a b c d # ws) = Suc n
      \<and> l = concat (map word_bytes (word_of_bytes a b c d # ws))"
    by (simp add: l(1) word_bytes_of_bytes)
  then show ?case by blast
qed simp

text \<open>Reversing every group of four bytes.\<close>

fun swap4 :: "BinaryData \<Rightarrow> BinaryData" where
  "swap4 (a # b # c # d # r) = d # c # b # a # swap4 r"
| "swap4 _ = []"

lemma swap4_append: "length x = 4 \<Longrightarrow> swap4 (x @ r) = rev x @ swap4 r"
  by (auto simp: length_Suc_conv numeral_eq_Suc)

lemma swap4_concat: "(\<And>x. x \<in> set xs \<Longrightarrow> length x = 4) \<Longrightarrow> swap4 (concat xs) = concat (map rev xs)"
  by (induction xs) (simp_all add: swap4_append)

lemma length_swap4: "length x = 4 * n \<Longrightarrow> length (swap4 x) = length x \<and> swap4 (swap4 x) = x"
proof (induction n arbitrary: x)
  case (Suc n)
  then obtain a b c d r where "x = a # b # c # d # r" "length r = 4 * n"
    by (auto simp: length_Suc_conv numeral_eq_Suc)
  with Suc.IH show ?case by simp
qed simp

lemma swap_prevhash_eq:
  assumes "length h = 32"
  shows "swap_prevhash h = Inr (swap4 h)"
proof -
  obtain ws :: "uint32 list" where ws: "length ws = 8" "rev h = concat (map word_bytes ws)"
    using bytes_words [of "rev h" 8] assms by auto
  have "parses (get_all Read (length ws)) (concat (map word_bytes ws)) ws"
    by (rule u32_codec.get_all_parses) (simp add: list_all_iff)
  moreover have "bb_ok (ByteBuffer_of (rev h))" using assms by simp
  moreover have "remaining (ByteBuffer_of (rev h)) = concat (map word_bytes ws) @ []" by (simp add: ws(2))
  ultimately have "get_all Read 8 (ByteBuffer_of (rev h))
      = Inr (ws, advance (length (concat (map word_bytes ws))) (ByteBuffer_of (rev h)))"
    unfolding ws(1) by (rule parsesD)
  then have "swap_prevhash h = Inr (concat (map word_bytes (rev ws)))"
    by (simp add: swap_prevhash_def Reverse_def u32_codec.put_all_enc ByteBuffer_new_def Binary_def)
  moreover have h: "h = concat (map (\<lambda>w. rev (word_bytes w)) (rev ws))"
    using arg_cong [OF ws(2), of rev] by (simp add: rev_concat rev_map comp_def)
  have "swap4 h = concat (map word_bytes (rev ws))"
    unfolding h by (subst swap4_concat) (auto simp: comp_def)
  ultimately show ?thesis by simp
qed

section \<open>Jobs\<close>

text \<open>
  A template as \<^verbatim>\<open>UpdateBlockTemplate\<close> publishes it: its first transaction is the coinbase transaction
  of the pool, and its tree has been built.
\<close>

definition template_ok :: "hash_fn \<Rightarrow> uint32 \<Rightarrow> BinaryData \<Rightarrow> int64 \<Rightarrow> Transaction list \<Rightarrow> Block \<Rightarrow> bool" where
  "template_ok sha height pubkey value txs block \<longleftrightarrow>
     blk_tx block = CreateCoinbaseTX height pubkey value # txs
     \<and> (\<exists>b0. blk_tx b0 = blk_tx block \<and> BuildMerkleTree sha b0 = Inr block)
     \<and> length pubkey < 2 ^ 62"

lemma template_tree:
  assumes "template_ok sha h pk v txs block"
  shows "blk_merkleTree block = merkle_rows sha (map (tx_GetHash sha) (CreateCoinbaseTX h pk v # txs))"
  using assms by (auto simp: template_ok_def BuildMerkleTree_eq)

text \<open>The split of the coinbase transaction is around the eight bytes of the extranonces.\<close>

lemma make_job_coinbase:
  assumes job: "make_job block diff = Inr job" and tx: "blk_tx block = CreateCoinbaseTX h pk v # txs"
  shows "coinbase1 job = coinbase_head h \<and> coinbase2 job = coinbase_tail pk v \<and> job_block job = block
    \<and> job_diff job = diff \<and> job_shares job = {} \<and> DiffToTarget (int (unat diff)) = Inr (jobTarget job)
    \<and> TargetFromBits (blk_bits block) = Inr (blockTarget job)"
proof -
  have "Binary (write_Transaction (blk_tx block ! 0) ByteBuffer_new)
      = coinbase_head h @ replicate 8 0 @ coinbase_tail pk v"
    by (simp add: tx Transaction_codec.put_enc Binary_def ByteBuffer_new_def CreateCoinbaseTX_eq enc_coinbase_with)
  with job show ?thesis
    by (auto simp: make_job_def tx cbsplit_def Let_def bindR_eq_Inr_iff split: if_splits)
qed

lemma write_coinbase_head: "AppendBinary c2 (AppendBinary e2 (Append x (AppendBinary c1 ByteBuffer_new)))
    = ByteBuffer_of (c1 @ word_bytes x @ e2 @ c2)"
  by (simp add: AppendBinary_def ByteBuffer_new_def ByteBuffer_of_def)

lemma coinbase_parses:
  assumes "length pk < 2 ^ 62" and "length extra = 8"
  shows "\<exists>b. read_Transaction (ByteBuffer_of (coinbase_head h @ extra @ coinbase_tail pk v))
    = Inr (coinbase_with h pk v extra, b)"
proof -
  have wf: "wf_Transaction (coinbase_with h pk v extra)"
    by (rule wf_coinbase_with) (use assms in simp_all)
  have enc: "enc_Transaction (coinbase_with h pk v extra) = coinbase_head h @ extra @ coinbase_tail pk v"
    using assms(2) by (rule enc_coinbase_with)
  have "length (enc_VarInt x) \<le> 9" for x by (simp add: enc_VarInt_def)
  from this [of "of_nat (Suc (length pk))"] have "length (coinbase_tail pk v) < 2 ^ 62 + 100"
    using assms(1) by (simp add: coinbase_tail_def enc_TxOut_def enc_Script_def)
  then have "bb_ok (ByteBuffer_of (coinbase_head h @ extra @ coinbase_tail pk v))"
    using assms(2) by simp
  from parsesD [OF Transaction_codec.get_parses [OF wf] this, of "[]"] show ?thesis by (simp add: enc)
qed

section \<open>What the pool hashes\<close>

lemma Read_four_bytes:
  assumes "length l = 4"
  obtains w :: uint32 and b where "Read (ByteBuffer_of l) = Inr (w, b)" "word_bytes w = l"
proof -
  obtain ws :: "uint32 list" where ws: "length ws = 1" "l = concat (map word_bytes ws)"
    using bytes_words [of l 1] assms by auto
  then obtain w :: uint32 where w: "l = word_bytes w" by (auto simp: length_Suc_conv)
  have "Read (ByteBuffer_of l) = Inr (w, advance (length (word_bytes w)) (ByteBuffer_of l))"
    by (rule Read_word_bytes [where rest = "[]"]) (use assms in \<open>simp_all add: w\<close>)
  then show ?thesis using w by (intro that) simp_all
qed

text \<open>
  The block that is assembled from a submission is the template with the miner's time and nonce
  and the coinbase transaction that holds both extranonces, with the Merkle root of all this.
\<close>

lemma assemble_eq:
  assumes tmpl: "template_ok (e_sha env) h pk v txs block" and job: "make_job block diff = Inr job"
    and time: "length timebuf = 4" and nonce: "length noncebuf = 4" and e2: "length extranonce2 = 4"
  shows "\<exists>b t n. assemble env x job timebuf noncebuf extranonce2 = Inr b
    \<and> word_bytes t = timebuf \<and> word_bytes n = noncebuf
    \<and> (let txs' = coinbase_with h pk v (word_bytes x @ extranonce2) # txs in
       b = block\<lparr>blk_time := t, blk_nonce := n, blk_tx := txs',
         blk_merkleTree := merkle_rows (e_sha env) (map (tx_GetHash (e_sha env)) txs'),
         blk_merkleRootHash := merkle_root (e_sha env) (map (tx_GetHash (e_sha env)) txs')\<rparr>)"
proof -
  have tx: "blk_tx block = CreateCoinbaseTX h pk v # txs" and pk: "length pk < 2 ^ 62"
    using tmpl by (simp_all add: template_ok_def)
  note parts = make_job_coinbase [OF job tx]
  obtain t :: uint32 and bt where t: "Read (ByteBuffer_of timebuf) = Inr (t, bt)" "word_bytes t = timebuf"
    using time by (rule Read_four_bytes)
  obtain n :: uint32 and bn where n: "Read (ByteBuffer_of noncebuf) = Inr (n, bn)" "word_bytes n = noncebuf"
    using nonce by (rule Read_four_bytes)
  let ?cb = "coinbase_with h pk v (word_bytes x @ extranonce2)"
  let ?b = "block\<lparr>blk_time := t, blk_nonce := n, blk_tx := ?cb # txs\<rparr>"
  have "length (word_bytes x @ extranonce2) = 8" using e2 by simp
  from coinbase_parses [OF pk this, of h v] obtain bc where
    cb: "read_Transaction (ByteBuffer_of (coinbase_head h @ word_bytes x @ extranonce2 @ coinbase_tail pk v))
      = Inr (?cb, bc)" by auto
  have run: "assemble env x job timebuf noncebuf extranonce2 = RebuildMerkleTree (e_sha env) ?b"
    using parts by (simp add: assemble_def Let_def write_coinbase_head t n cb tx del: vec_Append)
  have "tree_built (e_sha env) (CreateCoinbaseTX h pk v) ?b"
    using template_tree [OF tmpl] by (simp add: tree_built_def)
  from RebuildMerkleTree_eq [OF this] have "assemble env x job timebuf noncebuf extranonce2
      = Inr (?b\<lparr>blk_merkleTree := merkle_rows (e_sha env) (map (tx_GetHash (e_sha env)) (?cb # txs)),
          blk_merkleRootHash := merkle_root (e_sha env) (map (tx_GetHash (e_sha env)) (?cb # txs))\<rparr>)"
    unfolding run by (simp add: BuildMerkleTree_eq)
  with t n show ?thesis by (auto simp: Let_def)
qed

section \<open>What a miner hashes\<close>

text \<open>
  The computation of a miner, as the stratum protocol defines it, from the parameters of
  \<open>mining.notify\<close>, the extranonce it got when it subscribed, and its own choices, all as bytes in
  the order in which their hexadecimal text is sent.
\<close>

definition notify_bytes :: "JSON \<Rightarrow> uint32 \<Rightarrow> BinaryData" where
  "notify_bytes params i = (case bindR (index_vec i params) GetString of Inr s \<Rightarrow> ASCIIToBin s | Inl _ \<Rightarrow> [])"

definition notify_branch :: "JSON \<Rightarrow> BinaryData list" where
  "notify_branch params =
     (case index_vec 4 params of
        Inr j \<Rightarrow> map (\<lambda>x. case GetString x of Inr s \<Rightarrow> ASCIIToBin s | Inl _ \<Rightarrow> []) (j_vec j)
      | Inl _ \<Rightarrow> [])"

definition miner_header ::
    "hash_fn \<Rightarrow> JSON \<Rightarrow> BinaryData \<Rightarrow> BinaryData \<Rightarrow> BinaryData \<Rightarrow> BinaryData \<Rightarrow> BinaryData" where
  "miner_header sha params extranonce1 extranonce2 ntime nonce =
     (let coinbase = notify_bytes params 2 @ extranonce1 @ extranonce2 @ notify_bytes params 3;
          root = fold_branch sha (SHA256D sha coinbase) (notify_branch params)
      in rev (notify_bytes params 5) @ swap4 (notify_bytes params 1) @ root
         @ rev ntime @ rev (notify_bytes params 6) @ rev nonce)"

lemma GetString_j_string [simp]: "GetString (j_string s) = Inr s"
  by (simp add: GetString_def j_string_def assign_string_def JSON_new_def)

lemma index_vec_array:
  "unat i < length xs \<Longrightarrow> index_vec i (j_array xs) = Inr (xs ! unat i)"
  by (simp add: index_vec_def j_array_eq)

lemma hex_word_bytes: "bindR (Inr (hex_word x)) GetString = Inr (BinToASCII (rev (word_bytes x)))"
  by (simp add: hex_word_def Binary_def Reverse_def ByteBuffer_new_def)

lemma enc_header_hash: "blk_GetHash sha b = SHA256D sha (enc_header b)"
  by (simp add: blk_GetHash_def write_header_def Let_def AppendBinary_def Binary_def ByteBuffer_new_def
      enc_header_def)

text \<open>What the parameters of a job say.\<close>

lemma job_params_meaning:
  assumes params: "job_params jobid job clean = Inr params"
    and len: "length (blk_prevBlockHash (job_block job)) = 32"
    and branch: "merkle_branch 0 (length (blk_tx (job_block job))) (blk_merkleTree (job_block job)) = Inr branch"
  shows "notify_bytes params 1 = swap4 (blk_prevBlockHash (job_block job))"
    and "notify_bytes params 2 = coinbase1 job" and "notify_bytes params 3 = coinbase2 job"
    and "notify_branch params = branch"
    and "notify_bytes params 5 = rev (word_bytes (blk_version (job_block job)))"
    and "notify_bytes params 6 = rev (word_bytes (blk_bits (job_block job)))"
    and "bindR (index_vec 0 params) GetString = Inr (write_hex_u32 jobid)"
proof -
  have p: "params = j_array
        [j_string (write_hex_u32 jobid), j_string (BinToASCII (swap4 (blk_prevBlockHash (job_block job)))),
         j_string (BinToASCII (coinbase1 job)), j_string (BinToASCII (coinbase2 job)),
         j_array (map (\<lambda>h. j_string (BinToASCII h)) branch),
         hex_word (blk_version (job_block job)), hex_word (blk_bits (job_block job)),
         hex_word (blk_time (job_block job)), j_bool clean]"
    using params by (simp add: job_params_def Let_def branch swap_prevhash_eq [OF len])
  note eval = p notify_bytes_def index_vec_array hex_word_bytes [simplified] BinToASCII_round_trip
  show "notify_bytes params 1 = swap4 (blk_prevBlockHash (job_block job))" by (simp add: eval)
  show "notify_bytes params 2 = coinbase1 job" by (simp add: eval)
  show "notify_bytes params 3 = coinbase2 job" by (simp add: eval)
  show "notify_branch params = branch"
    by (simp add: eval notify_branch_def j_array_eq [of "map _ _"] comp_def)
  show "notify_bytes params 5 = rev (word_bytes (blk_version (job_block job)))"
    by (simp add: eval)
  show "notify_bytes params 6 = rev (word_bytes (blk_bits (job_block job)))"
    by (simp add: eval)
  show "bindR (index_vec 0 params) GetString = Inr (write_hex_u32 jobid)" by (simp add: eval)
qed

section \<open>Sending a job\<close>

text \<open>What makes a template usable: a previous hash of 32 bytes and an exponent that does not wrap around.\<close>

definition work_ok :: "hash_fn \<Rightarrow> Block \<Rightarrow> bool" where
  "work_ok sha block \<longleftrightarrow> (\<exists>h pk v txs. template_ok sha h pk v txs block)
     \<and> length (blk_prevBlockHash block) = 32 \<and> 3 \<le> unat (drop_bit 24 (blk_bits block))"

lemma make_job_total:
  assumes "work_ok sha block" and "0 < diff"
  shows "\<exists>job. make_job block diff = Inr job"
proof -
  from assms(1) obtain h pk v txs where tx: "blk_tx block = CreateCoinbaseTX h pk v # txs"
    and bits: "3 \<le> unat (drop_bit 24 (blk_bits block))"
    by (auto simp: work_ok_def template_ok_def)
  have "0 < uint diff" using assms(2) by (simp add: word_less_def)
  moreover have "Binary (write_Transaction (blk_tx block ! 0) ByteBuffer_new)
      = coinbase_head h @ replicate 8 0 @ coinbase_tail pk v"
    by (simp add: tx Transaction_codec.put_enc Binary_def ByteBuffer_new_def CreateCoinbaseTX_eq enc_coinbase_with)
  ultimately show ?thesis
    by (simp add: make_job_def tx DiffToTarget_pos TargetFromBits_eq [OF bits] cbsplit_def Let_def)
qed

lemma job_params_total:
  assumes "work_ok sha (job_block job)"
  shows "\<exists>params. job_params jobid job clean = Inr params \<and> json_ok params"
proof -
  from assms obtain h pk v txs where tmpl: "template_ok sha h pk v txs (job_block job)"
    and len: "length (blk_prevBlockHash (job_block job)) = 32" by (auto simp: work_ok_def)
  from tmpl have tx: "blk_tx (job_block job) = CreateCoinbaseTX h pk v # txs" by (simp add: template_ok_def)
  from merkle_branch_eq [of "[]" "tx_GetHash sha (CreateCoinbaseTX h pk v)" "map (tx_GetHash sha) txs" sha]
  obtain branch where "merkle_branch 0 (length (blk_tx (job_block job))) (blk_merkleTree (job_block job)) = Inr branch"
    by (auto simp: template_tree [OF tmpl] tx)
  then show ?thesis
    by (simp add: job_params_def Let_def swap_prevhash_eq [OF len])
      (auto intro!: array_ok simp: list_all_iff hex_word_def)
qed

definition notify_message :: "JSON \<Rightarrow> JSON" where
  "notify_message params =
     j_object [(''params'', params), (''id'', j_null), (''method'', j_string ''mining.notify'')]"

lemma SendJob_run:
  assumes c: "objs w cid = Some c" and work: "s_currentWork (server w) = Some block"
    and ok: "work_ok sha block" and diff: "0 < c_diff c"
  shows "\<exists>job params t. make_job block (c_diff c) = Inr job
    \<and> job_params (c_jobid c) job clean = Inr params
    \<and> ToString (e_show_double env) (notify_message params) = Inr t
    \<and> SendJob env cid clean w
      = (w\<lparr>objs := (objs w)(cid \<mapsto> c\<lparr>c_jobid := c_jobid c + 1,
            c_jobs := (if clean then Map.empty else c_jobs c)(ucast (c_jobid c) \<mapsto> job)\<rparr>),
           wire := wire w @ [(cid, t @ [CHR 0x0A])]\<rparr>, Inr ())"
proof -
  obtain job where job: "make_job block (c_diff c) = Inr job" using make_job_total [OF ok diff] by blast
  then have "job_block job = block"
    by (auto simp: make_job_def Let_def bindR_eq_Inr_iff split: if_splits)
  with ok job_params_total [of sha job "c_jobid c" clean] obtain params where
    params: "job_params (c_jobid c) job clean = Inr params" "json_ok params" by auto
  have msg: "json_ok (notify_message params)"
    unfolding notify_message_def by (rule object_ok) (simp add: params)
  let ?w = "w\<lparr>objs := (objs w)(cid \<mapsto> c\<lparr>c_jobid := c_jobid c + 1,
            c_jobs := (if clean then Map.empty else c_jobs c)(ucast (c_jobid c) \<mapsto> job)\<rparr>)\<rparr>"
  from msg obtain t where t: "ToString (e_show_double env) (notify_message params) = Inr t"
    and send: "SendMessage env cid (notify_message params) ?w
      = (?w\<lparr>wire := wire ?w @ [(cid, t @ [CHR 0x0A])]\<rparr>, Inr ())" by (rule SendMessage_ok)
  have "SendJob env cid clean w = SendMessage env cid (notify_message params) ?w"
    using c work params(1) by (cases clean)
      (simp_all add: SendJob_def CleanJobs_def GetJob_def GetWork_def Let_def bindE_def getE_def get_client_def
        mod_client_def modE_def liftE_def returnE_def job notify_message_def)
  with job params t send show ?thesis by auto
qed

section \<open>Properties\<close>

lemma miner_block:
  assumes tmpl: "template_ok (e_sha env) h pk v txs block"
    and prev: "length (blk_prevBlockHash block) = 32"
    and job: "make_job block diff = Inr job"
    and params: "job_params jobid job clean = Inr params"
    and sizes: "length ntime = 4" "length nonce = 4" "length extranonce2 = 4"
  shows "\<exists>b. assemble env x job (Reverse ntime) (Reverse nonce) extranonce2 = Inr b
    \<and> blk_GetHash (e_sha env) b
      = SHA256D (e_sha env) (miner_header (e_sha env) params (word_bytes x) extranonce2 ntime nonce)"
proof -
  let ?sha = "e_sha env" and ?cb = "coinbase_with h pk v (word_bytes x @ extranonce2)"
  have tx: "blk_tx block = CreateCoinbaseTX h pk v # txs" using tmpl by (simp add: template_ok_def)
  note parts = make_job_coinbase [OF job tx]
  from merkle_branch_eq [of "[]" "tx_GetHash ?sha (CreateCoinbaseTX h pk v)" "map (tx_GetHash ?sha) txs" ?sha]
  obtain branch where br: "merkle_branch 0 (length (blk_tx block)) (blk_merkleTree block) = Inr branch"
    and root: "\<And>y. fold_branch ?sha y branch = merkle_root ?sha (y # map (tx_GetHash ?sha) txs)"
    by (auto simp: template_tree [OF tmpl] tx)
  obtain b t n where b: "assemble env x job (Reverse ntime) (Reverse nonce) extranonce2 = Inr b"
    and t: "word_bytes t = Reverse ntime" and n: "word_bytes n = Reverse nonce"
    and beq: "b = block\<lparr>blk_time := t, blk_nonce := n, blk_tx := ?cb # txs,
         blk_merkleTree := merkle_rows ?sha (map (tx_GetHash ?sha) (?cb # txs)),
         blk_merkleRootHash := merkle_root ?sha (map (tx_GetHash ?sha) (?cb # txs))\<rparr>"
    using assemble_eq [OF tmpl job, of "Reverse ntime" "Reverse nonce" extranonce2 x] sizes
    by (auto simp: Let_def Reverse_def)
  have cb: "tx_GetHash ?sha ?cb
      = SHA256D ?sha (coinbase_head h @ (word_bytes x @ extranonce2) @ coinbase_tail pk v)"
    using sizes enc_coinbase_with [of "word_bytes x @ extranonce2" h pk v]
    by (simp add: tx_GetHash_def Transaction_codec.put_enc Binary_def ByteBuffer_new_def)
  have mean: "notify_bytes params 1 = swap4 (blk_prevBlockHash block)"
    "notify_bytes params 2 = coinbase_head h" "notify_bytes params 3 = coinbase_tail pk v"
    "notify_branch params = branch" "notify_bytes params 5 = rev (word_bytes (blk_version block))"
    "notify_bytes params 6 = rev (word_bytes (blk_bits block))"
    using job_params_meaning [OF params, of branch] parts prev br by auto
  have "enc_header b = miner_header ?sha params (word_bytes x) extranonce2 ntime nonce"
    using length_swap4 [of "blk_prevBlockHash block" 8] prev
    by (simp add: miner_header_def Let_def mean root enc_header_def beq t n Reverse_def cb)
  with b show ?thesis by (simp add: enc_header_hash)
qed

text \<open>
  C4. What a miner hashes is what the pool checks. For a job made from a published template and sent
  with \<open>mining.notify\<close>, and for every extranonce, nonce and time of four bytes each, the block that
  \<open>OnMiningSubmit\<close> assembles has the hash of the header the miner computes from the message.
\<close>

theorem miner_and_pool_agree:
  assumes tmpl: "template_ok (e_sha env) h pk v txs block"
    and prev: "length (blk_prevBlockHash block) = 32"
    and job: "make_job block diff = Inr job"
    and params: "job_params jobid job clean = Inr params"
    and sizes: "length ntime = 4" "length nonce = 4" "length extranonce2 = 4"
  shows "\<exists>b. assemble env x job (Reverse ntime) (Reverse nonce) extranonce2 = Inr b
    \<and> blk_GetHash (e_sha env) b
      = SHA256D (e_sha env) (miner_header (e_sha env) params (word_bytes x) extranonce2 ntime nonce)"
  using assms by (rule miner_block)

text \<open>A template with nothing but a coinbase transaction.\<close>

lemma sample_template:
  assumes "3 \<le> unat (drop_bit 24 bits)"
  shows "\<exists>block. template_ok sha 1 [] 50 [] block \<and> work_ok sha block \<and> blk_bits block = bits"
proof -
  let ?b0 = "\<lparr>blk_version = 2, blk_prevBlockHash = replicate 32 0, blk_merkleRootHash = [], blk_time = 0,
    blk_bits = bits, blk_nonce = 0, blk_signature = [], blk_tx = [CreateCoinbaseTX 1 [] 50],
    blk_merkleTree = []\<rparr>"
  obtain block where b: "BuildMerkleTree sha ?b0 = Inr block"
    using BuildMerkleTree_eq [of ?b0 sha] by simp
  then have blk: "block = ?b0\<lparr>
    blk_merkleTree := merkle_rows sha (map (tx_GetHash sha) [CreateCoinbaseTX 1 [] 50]),
    blk_merkleRootHash := merkle_root sha (map (tx_GetHash sha) [CreateCoinbaseTX 1 [] 50])\<rparr>"
    by (subst (asm) BuildMerkleTree_eq) simp_all
  have "template_ok sha 1 [] 50 [] block"
    unfolding template_ok_def using b by (intro conjI exI [of _ ?b0]) (simp_all add: blk)
  moreover from this have "work_ok sha block"
    unfolding work_ok_def by (intro conjI) (blast, simp_all add: blk assms)
  ultimately show ?thesis by (auto simp: blk)
qed

lemma sample_bits: "3 \<le> unat (drop_bit 24 (0x1d00ffff :: uint32))"
  by (simp add: drop_bit_eq_div)

lemmas sample_template_bits = sample_template [OF sample_bits]

theorem miner_and_pool_agree_witness:
  "\<exists>block job params b. template_ok (e_sha sample_env) 1 [] 50 [] block \<and> make_job block 1 = Inr job
    \<and> job_params 7 job True = Inr params
    \<and> assemble sample_env 3 job (Reverse [1, 2, 3, 4]) (Reverse [5, 6, 7, 8]) [0, 0, 0, 9] = Inr b
    \<and> blk_GetHash (e_sha sample_env) b = SHA256D (e_sha sample_env)
        (miner_header (e_sha sample_env) params (word_bytes (3 :: uint32)) [0, 0, 0, 9] [1, 2, 3, 4] [5, 6, 7, 8])"
proof -
  obtain block where tmpl: "template_ok (e_sha sample_env) 1 [] 50 [] block"
    and ok: "work_ok (e_sha sample_env) block" using sample_template_bits by blast
  obtain job where job: "make_job block 1 = Inr job" using make_job_total [OF ok, of 1] by auto
  then have "job_block job = block"
    by (auto simp: make_job_def Let_def bindR_eq_Inr_iff split: if_splits)
  with ok job_params_total [of _ job 7 True] obtain params where params: "job_params 7 job True = Inr params"
    by blast
  have prev: "length (blk_prevBlockHash block) = 32" using ok by (simp add: work_ok_def)
  from miner_and_pool_agree [OF tmpl prev job params, of "[1, 2, 3, 4]" "[5, 6, 7, 8]" "[0, 0, 0, 9]" 3]
  show ?thesis using tmpl job params by auto
qed

text \<open>
  C21. With usable work and a positive difficulty, \<open>SendJob\<close> always succeeds. It makes the job from
  the current work at the client's difficulty, stores it under the next job number (after removing
  all other jobs when it is told to clean), and sends one \<open>mining.notify\<close> message that describes it;
  nothing else changes.
\<close>

theorem SendJob_correct:
  assumes "objs w cid = Some c" and "s_currentWork (server w) = Some block"
    and "work_ok (e_sha env) block" and "0 < c_diff c"
  shows "\<exists>job params t. make_job block (c_diff c) = Inr job
    \<and> job_params (c_jobid c) job clean = Inr params
    \<and> ToString (e_show_double env) (j_object [(''params'', params), (''id'', j_null),
        (''method'', j_string ''mining.notify'')]) = Inr t
    \<and> SendJob env cid clean w
      = (w\<lparr>objs := (objs w)(cid \<mapsto> c\<lparr>c_jobid := c_jobid c + 1,
            c_jobs := (if clean then Map.empty else c_jobs c)(ucast (c_jobid c) \<mapsto> job)\<rparr>),
           wire := wire w @ [(cid, t @ [CHR 0x0A])]\<rparr>, Inr ())"
  using SendJob_run [OF assms] by (simp add: notify_message_def)

theorem SendJob_correct_witness:
  "\<exists>block job params t. make_job block 2 = Inr job \<and> job_params 0 job True = Inr params
    \<and> ToString (e_show_double sample_env) (j_object [(''params'', params), (''id'', j_null),
        (''method'', j_string ''mining.notify'')]) = Inr t
    \<and> wire (fst (SendJob sample_env 0 True (sample_world block))) = [(0, t @ [CHR 0x0A])]"
proof -
  obtain block where ok: "work_ok (e_sha sample_env) block" using sample_template_bits by blast
  have "objs (sample_world block) 0 = Some sample_client" "c_diff sample_client = 2" "c_jobid sample_client = 0"
    "s_currentWork (server (sample_world block)) = Some block" "wire (sample_world block) = []"
    by (simp_all add: sample_world_def sample_client_def)
  with SendJob_correct [of "sample_world block" 0 sample_client block sample_env True] ok show ?thesis
    by (intro exI [of _ block]) auto
qed

section \<open>Submissions at concrete inputs\<close>

text \<open>A hash function whose values are above every target, and one whose values are below.\<close>

definition sample_env_hash :: "byte \<Rightarrow> env" where
  "sample_env_hash x = sample_env\<lparr>e_sha := (\<lambda>_. replicate 32 x)\<rparr>"

lemma foldl_ones: "foldl (\<lambda>v b. 256 * v + unat b) v (replicate n (255 :: byte)) + 1 = (v + 1) * 256 ^ n"
proof (induction n arbitrary: v)
  case (Suc n)
  have u: "unat (255 :: byte) = 255" by simp
  have "(256 * v + 255 + 1) * 256 ^ n = (v + 1) * 256 ^ Suc n" by (simp add: algebra_simps)
  with Suc.IH [of "256 * v + 255"] show ?case by (simp only: replicate.simps foldl.simps u)
qed simp

lemma foldl_zeros: "foldl (\<lambda>v b. 256 * v + unat b) 0 (replicate n (0 :: byte)) = 0"
  by (induction n) simp_all

lemma hash_sample: "blk_GetHash (e_sha (sample_env_hash x)) b = replicate 32 x"
  by (simp add: blk_GetHash_def SHA256D_def SHA256_def sample_env_hash_def)

lemma hash_number_sample:
  "hash_number (e_sha (sample_env_hash 255)) b = 2 ^ 256 - 1" "hash_number (e_sha (sample_env_hash 0)) b = 0"
proof -
  have "int (foldl (\<lambda>v b. 256 * v + unat b) 0 (replicate 32 (255 :: byte))) + 1 = 256 ^ 32"
    using arg_cong [OF foldl_ones [of 0 32], of int] by simp
  then show "hash_number (e_sha (sample_env_hash 255)) b = 2 ^ 256 - 1"
    unfolding hash_number_def hex_value_BinToASCII by (simp add: hash_sample Reverse_def)
  show "hash_number (e_sha (sample_env_hash 0)) b = 0"
    unfolding hash_number_def hex_value_BinToASCII by (simp add: hash_sample Reverse_def foldl_zeros)
qed

lemma sample_job:
  obtains block job where "work_ok (e_sha env) block" "make_job block 2 = Inr job"
    "\<exists>b. assemble env x job [1, 2, 3, 4] [5, 6, 7, 8] [0, 0, 0, 9] = Inr b"
    "blockTarget job = 0xffff * 256 ^ 26" "jobTarget job = max_target div 2" "job_shares job = {}"
    "job_diff job = 2"
proof -
  obtain block where tmpl: "template_ok (e_sha env) 1 [] 50 [] block" and ok: "work_ok (e_sha env) block"
    and bits: "blk_bits block = 0x1d00ffff" using sample_template_bits by blast
  obtain job where job: "make_job block 2 = Inr job" using make_job_total [OF ok, of 2] by auto
  have tx: "blk_tx block = [CreateCoinbaseTX 1 [] 50]" using tmpl by (simp add: template_ok_def)
  note parts = make_job_coinbase [OF job tx]
  have "Inr (blockTarget job) = (Inr (0xffff * 256 ^ 26) :: int result)"
    using parts TargetFromBits_eq [of "blk_bits block"] by (simp add: bits drop_bit_eq_div)
  moreover have "Inr (jobTarget job) = (Inr (max_target div 2) :: int result)"
    using parts DiffToTarget_pos [of 2] by simp
  moreover have "\<exists>b. assemble env x job [1, 2, 3, 4] [5, 6, 7, 8] [0, 0, 0, 9] = Inr b"
    using assemble_eq [OF tmpl job, of "[1, 2, 3, 4]" "[5, 6, 7, 8]" "[0, 0, 0, 9]" x] by auto
  ultimately show ?thesis using ok job parts by (intro that [of block job]) simp_all
qed

lemma get_id_sample: "get_field ''id'' sample_submit = Inr (j_int 1)"
  unfolding sample_submit_def by (rule get_field_object) simp_all

theorem share_outcomes_witness:
  "\<exists>job text. settle_share (sample_env_hash 255) 0 sample_submit ''worker'' 7 job [1, 2, 3, 4] [5, 6, 7, 8]
      [0, 0, 0, 9] 5 (sample_world sample_block)
    = ((sample_world sample_block)\<lparr>objs := (objs (sample_world sample_block))(0 \<mapsto>
          logged_bad (with_job 7 (job\<lparr>job_shares := {5}\<rparr>) sample_client)),
        dataMgr := Push (Share_new 1 ''worker'' False ''Share above target'' 1400000000 2)
          (dataMgr (sample_world sample_block)),
        wire := wire (sample_world sample_block) @ [(0, text @ [CHR 0x0A])]\<rparr>, Inr ())"
proof -
  let ?env = "sample_env_hash 255"
  obtain job :: Job where job: "\<exists>b. assemble ?env 0 job [1, 2, 3, 4] [5, 6, 7, 8] [0, 0, 0, 9] = Inr b"
    "blockTarget job = 0xffff * 256 ^ 26" "jobTarget job = max_target div 2" "job_shares job = {}" "job_diff job = 2"
    using sample_job [of ?env 0] by metis
  then obtain b where b: "assemble ?env (c_extranonce sample_client) job [1, 2, 3, 4] [5, 6, 7, 8] [0, 0, 0, 9] = Inr b"
    by (auto simp: sample_client_def)
  have "\<not> hash_number (e_sha ?env) b \<le> blockTarget job" "hash_number (e_sha ?env) b > jobTarget job"
    by (simp_all add: hash_number_sample job max_target_def)
  moreover have "e_now ?env = 1400000000" "c_ip sample_client = 1"
    by (simp_all add: sample_env_hash_def sample_env_def sample_client_def)
  ultimately show ?thesis
    using share_outcomes [OF objs_sample [of sample_block] get_id_sample value_ok(2) b, of "''worker''" 7 5]
    by (intro exI [of _ job]) (auto simp: hash_sample job Let_def)
qed

theorem solved_block_outcomes_witness:
  "\<exists>job b. hash_number (e_sha (sample_env_hash 0)) b \<le> jobTarget job
    \<and> judge_share (sample_env_hash 0) 0 sample_submit ''worker'' job b (sample_world sample_block)
      = (sample_world sample_block, Inr ())"
proof -
  let ?env = "sample_env_hash 0"
  obtain job :: Job where job: "blockTarget job = 0xffff * 256 ^ 26" "jobTarget job = max_target div 2"
    using sample_job [of ?env 0] by metis
  have targets: "hash_number (e_sha ?env) b \<le> jobTarget job" "hash_number (e_sha ?env) b \<le> blockTarget job" for b
    by (simp_all add: hash_number_sample job max_target_def)
  have hash: "blk_GetHash (e_sha ?env) sample_block \<noteq> []" by (simp add: hash_sample)
  have "SubmitBlock ?env sample_block (sample_world sample_block) = (sample_world sample_block, Inr False)"
    by (simp add: SubmitBlock_def sample_world_def eff_simps)
  from solved_block_outcomes [OF objs_sample get_id_sample value_ok(2) hash targets this, of "''worker''"] targets
  show ?thesis by auto
qed

end
