(* ===== verification/Pool_System.thy ===== *)
theory Pool_System
  imports Mining_Work
begin

text \<open>
  The pool as a running system: what its I/O service calls (new connections, received data, finished
  writes, timers, posted tasks) and the threads of the database, in any order. \<open>Stratum/Client.cpp\<close>
  (\<^verbatim>\<open>Start\<close>, \<^verbatim>\<open>_OnReceive\<close>, \<^verbatim>\<open>_OnSend\<close>), \<open>Stratum/Server.h\<close> (\<^verbatim>\<open>_StartAccept\<close>, \<^verbatim>\<open>_OnAccept\<close>), \<open>DataMgr.h\<close>
  (\<^verbatim>\<open>UploadTimerExpired\<close>).
\<close>

section \<open>Connections\<close>

text \<open>The constructor of a client; its address and its extranonce are not initialised.\<close>

definition Client_new :: "env \<Rightarrow> uint64 \<Rightarrow> Client" where
  "Client_new env cid =
     \<lparr>c_ip = e_junk env, c_id = cid, c_workers = {}, c_subscribed = False, c_extranonce = e_junk env,
      c_jobs = Map.empty, c_jobid = 0, c_diff = ucast (RetargetStartingDiff (e_cfg env)),
      c_minDiff = ucast (RetargetMinDiff (e_cfg env)), c_shareLimiter = ShareLimiter_new env,
      c_recvMessage = []\<rparr>"

definition StartAccept :: "env \<Rightarrow> unit action" where
  "StartAccept env =
     bindE (getE (\<lambda>w. s_clientId (server w))) (\<lambda>cid.
     bindE (mod_server (\<lambda>s. s\<lparr>s_clientId := s_clientId s + 1\<rparr>)) (\<lambda>_.
     bindE (modE (\<lambda>w. w\<lparr>objs := (objs w)(cid \<mapsto> Client_new env cid)\<rparr>)) (\<lambda>_.
     start_io (IoAccept cid))))"

definition StartRead :: "uint64 \<Rightarrow> unit action" where
  "StartRead cid = start_io (IoRead cid)"

text \<open>\<^verbatim>\<open>Start\<close>; \<open>remote\<close> is the address of the peer, or the exception that asking for it throws.\<close>

definition client_Start :: "env \<Rightarrow> uint64 \<Rightarrow> uint32 result \<Rightarrow> bool action" where
  "client_Start env cid remote =
     tryE
       (bindE (liftE remote) (\<lambda>ip.
        bindE (mod_client cid (\<lambda>c. c\<lparr>c_ip := ip\<rparr>)) (\<lambda>_.
        bindE (IsBanned env ip) (\<lambda>banned.
        if banned then bindE (client_Disconnect cid) (\<lambda>_. returnE False)
        else bindE (StartRead cid) (\<lambda>_. returnE True)))))
       (\<lambda>_. returnE False)"

definition OnAccept :: "env \<Rightarrow> uint64 \<Rightarrow> bool \<Rightarrow> uint32 result \<Rightarrow> unit action" where
  "OnAccept env cid error remote =
     bindE
       (if \<not> error
        then bindE (client_Start env cid remote) (\<lambda>started.
             if started then mod_server (\<lambda>s. s\<lparr>s_clients := insert cid (s_clients s)\<rparr>) else returnE ())
        else returnE ())
       (\<lambda>_. StartAccept env)"

section \<open>Received data\<close>

datatype error_code = success | eof | connection_reset | other_error

abbreviation CRLF :: string where "CRLF \<equiv> [CHR 0x0D, CHR 0x0A]"

definition redirect_text :: "Config \<Rightarrow> string" where
  "redirect_text cfg =
     FS [''HTTP/1.1 200 OK'', CRLF, ''X-Stratum: stratum+tcp://'', c_str (StratumRedirectHost cfg), '':'',
         show_u (StratumPort cfg), CRLF, ''Connection: Close'', CRLF, ''Content-Length: 41'', CRLF, CRLF,
         ''{'', dquote, ''error'', dquote, '': null, '', dquote, ''result'', dquote, '': false, '', dquote, ''id'',
         dquote, '': 0}'', [CHR 0x0A]]"

definition RedirectGetwork :: "env \<Rightarrow> uint64 \<Rightarrow> unit action" where
  "RedirectGetwork env cid = modE (\<lambda>w. w\<lparr>wire := wire w @ [(cid, redirect_text (e_cfg env))]\<rparr>)"

text \<open>The end of a line: the message collected so far is handled and forgotten.\<close>

definition on_line :: "env \<Rightarrow> uint64 \<Rightarrow> unit action" where
  "on_line env cid =
     bindE (get_client cid) (\<lambda>c.
     bindE (if \<not> c_subscribed c \<and> c_recvMessage c = ''POST / HTTP/1.1'' @ [CHR 0x0D]
            then RedirectGetwork env cid else returnE ()) (\<lambda>_.
     bindE (tryE (bindE (liftE (FromString (e_qi env) (c_recvMessage c))) (OnMessage env cid))
              (\<lambda>_. returnE ())) (\<lambda>_.
     mod_client cid (\<lambda>c. c\<lparr>c_recvMessage := []\<rparr>))))"

fun receive_loop :: "env \<Rightarrow> uint64 \<Rightarrow> string \<Rightarrow> unit action" where
  "receive_loop env cid [] = returnE ()"
| "receive_loop env cid (ch # s) =
     bindE (if ch = CHR 0x0A then on_line env cid
            else mod_client cid (\<lambda>c. c\<lparr>c_recvMessage := c_recvMessage c @ [ch]\<rparr>)) (\<lambda>_.
     receive_loop env cid s)"

definition MAX_PACKET :: nat where
  "MAX_PACKET = 4096"

definition OnReceive :: "env \<Rightarrow> uint64 \<Rightarrow> error_code \<Rightarrow> string \<Rightarrow> unit action" where
  "OnReceive env cid error bytes =
     (if error = success
      then
        bindE (receive_loop env cid bytes) (\<lambda>_.
        bindE (get_client cid) (\<lambda>c.
        bindE (if length (c_recvMessage c) > MAX_PACKET then client_Disconnect cid else returnE ()) (\<lambda>_.
        StartRead cid)))
      else if error = eof \<or> error = connection_reset then client_Disconnect cid
      else returnE ())"

definition OnSend :: "uint64 \<Rightarrow> error_code \<Rightarrow> unit action" where
  "OnSend cid error =
     (if error \<noteq> success \<and> (error = eof \<or> error = connection_reset) then client_Disconnect cid
      else returnE ())"

section \<open>Tasks and timers\<close>

definition run_task :: "env \<Rightarrow> task \<Rightarrow> unit action" where
  "run_task env t =
     (case t of
        TaskSendJob cid clean \<Rightarrow> SendJob env cid clean
      | TaskBlockNotify block newBlock \<Rightarrow> BlockNotify block newBlock
      | TaskSendMessage cid msg \<Rightarrow> SendMessage env cid msg)"

definition UploadTimerStart :: "unit action" where
  "UploadTimerStart = start_io UploadTimer"

text \<open>The constructor of the share store.\<close>

definition DataMgr_Initialize :: "unit action" where
  "DataMgr_Initialize = bindE (modE (\<lambda>w. w\<lparr>dataMgr := \<lparr>datastore = []\<rparr>\<rparr>)) (\<lambda>_. UploadTimerStart)"

lemma DataMgr_Initialize_apply:
  "DataMgr_Initialize w = (w\<lparr>dataMgr := \<lparr>datastore = []\<rparr>, pending := insert UploadTimer (pending w)\<rparr>, Inr ())"
  by (simp add: DataMgr_Initialize_def UploadTimerStart_def start_io_def bindE_def modE_def)

text \<open>The upload; \<open>None\<close> when it never returns.\<close>

definition UploadTimerExpired :: "env \<Rightarrow> world \<Rightarrow> (world \<times> unit result) option" where
  "UploadTimerExpired env w =
     (case Upload (ShareUploadMinCount (e_cfg env)) (ShareUploadBulkCount (e_cfg env)) (dataMgr w) (database w) of
        None \<Rightarrow> None
      | Some (Inl e) \<Rightarrow> Some (w, Inl e)
      | Some (Inr (m, db)) \<Rightarrow> Some (UploadTimerStart (w\<lparr>dataMgr := m, database := db\<rparr>)))"

section \<open>The system\<close>

text \<open>
  \<^verbatim>\<open>WorkerThread\<close>: a handler that throws an exception is abandoned, with the state it has reached, and
  the thread takes the next one. Undefined behaviour ends everything.
\<close>

fun survives :: "'a result \<Rightarrow> bool" where
  "survives (Inl (Undefined _)) = False"
| "survives _ = True"

text \<open>
  One step is one handler, or one step of the database threads. The environment may be a different
  one at every step, within \<open>ok\<close>: the clock advances and the daemons change their answers. The I/O
  service runs posted tasks in any order, and calls the handler of an asynchronous operation only when
  the operation was started; it has then to be started again. A handler holds a reference to its client.
\<close>

inductive sys_step :: "(env \<Rightarrow> bool) \<Rightarrow> world \<Rightarrow> world \<Rightarrow> bool" for ok :: "env \<Rightarrow> bool" where
  sys_accept: "ok env \<Longrightarrow> IoAccept cid \<in> pending w \<Longrightarrow> objs w cid \<noteq> None \<Longrightarrow>
    OnAccept env cid err remote (finish_io (IoAccept cid) w) = (w', r) \<Longrightarrow> survives r \<Longrightarrow> sys_step ok w w'"
| sys_receive: "ok env \<Longrightarrow> IoRead cid \<in> pending w \<Longrightarrow> objs w cid \<noteq> None \<Longrightarrow>
    OnReceive env cid ec bytes (finish_io (IoRead cid) w) = (w', r) \<Longrightarrow> survives r \<Longrightarrow> sys_step ok w w'"
| sys_sent: "(cid, data) \<in> set (wire w) \<Longrightarrow> objs w cid \<noteq> None \<Longrightarrow> OnSend cid ec w = (w', r) \<Longrightarrow> survives r \<Longrightarrow> sys_step ok w w'"
| sys_task: "ok env \<Longrightarrow> posted w = ts @ t # ts' \<Longrightarrow> run_task env t (w\<lparr>posted := ts @ ts'\<rparr>) = (w', r) \<Longrightarrow> survives r \<Longrightarrow> sys_step ok w w'"
| sys_notify_timer: "ok env \<Longrightarrow> BlockNotifyTimer \<in> pending w \<Longrightarrow>
    BlockNotifyTimerExpired env (finish_io BlockNotifyTimer w) = (w', r) \<Longrightarrow> survives r \<Longrightarrow> sys_step ok w w'"
| sys_check_timer: "ok env \<Longrightarrow> BlockCheckTimer \<in> pending w \<Longrightarrow>
    BlockCheckTimerExpired env (finish_io BlockCheckTimer w) = (w', r) \<Longrightarrow> survives r \<Longrightarrow> sys_step ok w w'"
| sys_upload: "ok env \<Longrightarrow> UploadTimer \<in> pending w \<Longrightarrow>
    UploadTimerExpired env (finish_io UploadTimer w) = Some (w', r) \<Longrightarrow> survives r \<Longrightarrow> sys_step ok w w'"
| sys_database: "pool_step (database w) db \<Longrightarrow> sys_step ok w (w\<lparr>database := db\<rparr>)"

inductive_cases sys_stepE: "sys_step ok w w'"

text \<open>A step in which no line is received.\<close>

inductive silent_step :: "(env \<Rightarrow> bool) \<Rightarrow> world \<Rightarrow> world \<Rightarrow> bool" for ok :: "env \<Rightarrow> bool" where
  silent_accept: "ok env \<Longrightarrow> IoAccept cid \<in> pending w \<Longrightarrow> objs w cid \<noteq> None \<Longrightarrow>
    OnAccept env cid err remote (finish_io (IoAccept cid) w) = (w', r) \<Longrightarrow> survives r \<Longrightarrow> silent_step ok w w'"
| silent_sent: "(cid, data) \<in> set (wire w) \<Longrightarrow> objs w cid \<noteq> None \<Longrightarrow> OnSend cid ec w = (w', r) \<Longrightarrow> survives r \<Longrightarrow>
    silent_step ok w w'"
| silent_task: "ok env \<Longrightarrow> posted w = ts @ t # ts' \<Longrightarrow> run_task env t (w\<lparr>posted := ts @ ts'\<rparr>) = (w', r) \<Longrightarrow> survives r \<Longrightarrow>
    silent_step ok w w'"
| silent_notify_timer: "ok env \<Longrightarrow> BlockNotifyTimer \<in> pending w \<Longrightarrow>
    BlockNotifyTimerExpired env (finish_io BlockNotifyTimer w) = (w', r) \<Longrightarrow> survives r \<Longrightarrow> silent_step ok w w'"
| silent_check_timer: "ok env \<Longrightarrow> BlockCheckTimer \<in> pending w \<Longrightarrow>
    BlockCheckTimerExpired env (finish_io BlockCheckTimer w) = (w', r) \<Longrightarrow> survives r \<Longrightarrow> silent_step ok w w'"
| silent_upload: "ok env \<Longrightarrow> UploadTimer \<in> pending w \<Longrightarrow>
    UploadTimerExpired env (finish_io UploadTimer w) = Some (w', r) \<Longrightarrow> survives r \<Longrightarrow> silent_step ok w w'"
| silent_database: "pool_step (database w) db \<Longrightarrow> silent_step ok w (w\<lparr>database := db\<rparr>)"

lemma silent_sys_step: "silent_step ok w w' \<Longrightarrow> sys_step ok w w'"
  by (induction rule: silent_step.induct) (rule sys_step.intros; assumption)+

lemma silent_sys_steps: "(silent_step ok)\<^sup>*\<^sup>* w w' \<Longrightarrow> (sys_step ok)\<^sup>*\<^sup>* w w'"
  by (induction rule: rtranclp_induct) (auto intro: rtranclp.rtrancl_into_rtrancl silent_sys_step)

text \<open>
  \<^verbatim>\<open>Server::Run\<close> up to the start of the threads: the share store and the network manager are empty, the
  daemons are connected one after the other, the stratum server subscribes to the network manager
  and waits for its first client.
\<close>

definition world_new :: "string pool \<Rightarrow> world" where
  "world_new db = \<lparr>objs = Map.empty,
     server = \<lparr>s_clients = {}, s_clientId = 0, s_bans = [], s_currentWork = None, s_extranonce = 0\<rparr>,
     net = \<lparr>n_binds = 0, n_blockHeight = 0, n_cons = [], n_curBlockTmpl = None, n_calls = 0\<rparr>,
     dataMgr = \<lparr>datastore = []\<rparr>, database = db, posted = [], wire = [], closed = {}, pending = {}\<rparr>"

fun connect_loop :: "env \<Rightarrow> string list \<Rightarrow> unit action" where
  "connect_loop env [] = returnE ()"
| "connect_loop env (rpc # btcrpc) =
     (let params = e_explode env rpc '';'' in
      if length params \<noteq> 4 then liftE (Inl (Exception ''Invalid Bitcoin RPC parameters''))
      else
        bindE (Connect env \<lparr>Host = params ! 0, Port = params ! 1, User = params ! 2, Pass = params ! 3,
                 B64Auth = []\<rparr>) (\<lambda>_.
        connect_loop env btcrpc))"

definition Server_Start :: "env \<Rightarrow> unit action" where
  "Server_Start env = bindE (liftE (e_listen env (StratumPort (e_cfg env)))) (\<lambda>_. StartAccept env)"

definition Server_Run :: "env \<Rightarrow> unit action" where
  "Server_Run env =
     bindE DataMgr_Initialize (\<lambda>_.
     bindE NetworkMgr_Initialize (\<lambda>_.
     bindE (connect_loop env (BitcoinRPC (e_cfg env))) (\<lambda>_.
     bindE BlockNotifyBind (\<lambda>_.
     Server_Start env))))"

text \<open>A start that succeeds: the share store, then the daemons, then the first asynchronous accept.\<close>

lemma Server_Run_parts:
  assumes "Server_Run env (world_new db) = (w, Inr ())"
  shows "\<exists>w1. bindE NetworkMgr_Initialize (\<lambda>_. bindE (connect_loop env (BitcoinRPC (e_cfg env))) (\<lambda>_. BlockNotifyBind))
      ((world_new db)\<lparr>pending := {UploadTimer}\<rparr>) = (w1, Inr ()) \<and> StartAccept env w1 = (w, Inr ())"
proof -
  let ?m = "bindE NetworkMgr_Initialize (\<lambda>_. bindE (connect_loop env (BitcoinRPC (e_cfg env))) (\<lambda>_. BlockNotifyBind))"
  have "Server_Run env (world_new db) = bindE ?m (\<lambda>_. Server_Start env) ((world_new db)\<lparr>pending := {UploadTimer}\<rparr>)"
    unfolding Server_Run_def by (simp add: bindE_def [of DataMgr_Initialize] DataMgr_Initialize_apply world_new_def bindE_assoc)
  with assms show ?thesis
    by (auto simp: bindE_def [of ?m] Server_Start_def bindE_lift split: prod.splits sum.splits)
qed

definition sys_init :: "(env \<Rightarrow> bool) \<Rightarrow> world \<Rightarrow> bool" where
  "sys_init ok w \<longleftrightarrow>
     (\<exists>env db. ok env \<and> pool_init db \<and> Server_Run env (world_new db) = (w, Inr ()))"

section \<open>Invariant\<close>

text \<open>
  A published template starts with the pool's coinbase transaction and has its Merkle tree; a job is
  what \<open>make_job\<close> made of such a template and a difficulty, apart from the shares seen; a client has
  a positive difficulty and only such jobs; the tasks that are posted and the server's set refer to
  existing clients.
\<close>

definition block_ok :: "hash_fn \<Rightarrow> BinaryData \<Rightarrow> Block \<Rightarrow> bool" where
  "block_ok sha pk block \<longleftrightarrow> (\<exists>h v txs. template_ok sha h pk v txs block)"

definition job_ok :: "hash_fn \<Rightarrow> BinaryData \<Rightarrow> Job \<Rightarrow> bool" where
  "job_ok sha pk job \<longleftrightarrow>
     block_ok sha pk (job_block job) \<and> make_job (job_block job) (job_diff job) = Inr (job\<lparr>job_shares := {}\<rparr>)"

definition client_ok :: "hash_fn \<Rightarrow> BinaryData \<Rightarrow> Client \<Rightarrow> bool" where
  "client_ok sha pk c \<longleftrightarrow> 0 < c_diff c \<and> (\<forall>k job. c_jobs c k = Some job \<longrightarrow> job_ok sha pk job)"

fun task_ok :: "hash_fn \<Rightarrow> BinaryData \<Rightarrow> (uint64 \<Rightarrow> bool) \<Rightarrow> task \<Rightarrow> bool" where
  "task_ok sha pk exists (TaskSendJob cid _) = exists cid"
| "task_ok sha pk exists (TaskSendMessage cid _) = exists cid"
| "task_ok sha pk exists (TaskBlockNotify block _) = pred_option (block_ok sha pk) block"

definition world_ok :: "hash_fn \<Rightarrow> BinaryData \<Rightarrow> world \<Rightarrow> bool" where
  "world_ok sha pk w \<longleftrightarrow>
     (\<forall>cid c. objs w cid = Some c \<longrightarrow> client_ok sha pk c)
     \<and> pred_option (block_ok sha pk) (s_currentWork (server w))
     \<and> pred_option (block_ok sha pk) (n_curBlockTmpl (net w))
     \<and> (\<forall>t \<in> set (posted w). task_ok sha pk (\<lambda>cid. objs w cid \<noteq> None) t)
     \<and> (\<forall>cid \<in> s_clients (server w). objs w cid \<noteq> None)"

text \<open>
  What is asked of the environment: the hash function and the address that is paid do not change,
  and the options for the difficulty are positive.
\<close>

definition env_ok :: "hash_fn \<Rightarrow> BinaryData \<Rightarrow> env \<Rightarrow> bool" where
  "env_ok sha pk env \<longleftrightarrow>
     e_sha env = sha \<and> ASCIIToBin (MiningAddress (e_cfg env)) = pk \<and> length pk < 2 ^ 62
     \<and> 0 < RetargetStartingDiff (e_cfg env) \<and> 0 < RetargetMinDiff (e_cfg env) \<and> 0 < RetargetMaxDiff (e_cfg env)"

lemma pres_mod_client:
  assumes "\<And>c. client_ok sha pk c \<Longrightarrow> client_ok sha pk (f c)"
  shows "pres (world_ok sha pk) (mod_client cid f)"
  unfolding mod_client_def
proof (rule pres_modE)
  fix w assume w: "world_ok sha pk w"
  let ?w = "w\<lparr>objs := (objs w)(cid := map_option f (objs w cid))\<rparr>"
  have "objs ?w c \<noteq> None \<longleftrightarrow> objs w c \<noteq> None" for c by simp
  with w assms show "world_ok sha pk ?w" by (auto simp: world_ok_def)
qed

lemma pres_get_client:
  assumes "\<And>c. client_ok sha pk c \<Longrightarrow> pres (world_ok sha pk) (f c)"
  shows "pres (world_ok sha pk) (bindE (get_client cid) f)"
proof (rule pres_bindE)
  show "pres (world_ok sha pk) (get_client cid)"
    by (auto simp: pres_def get_client_def split: option.splits)
  fix w w' c assume "world_ok sha pk w" "get_client cid w = (w', Inr c)"
  then show "pres (world_ok sha pk) (f c)"
    by (intro assms) (auto simp: get_client_def world_ok_def split: option.splits)
qed

lemma pres_mod_server:
  assumes "\<And>s. s_currentWork (f s) = s_currentWork s" and "\<And>s. s_clients (f s) \<subseteq> s_clients s"
  shows "pres (world_ok sha pk) (mod_server f)"
  unfolding mod_server_def using assms(1) by (intro pres_modE) (auto simp: world_ok_def dest: subsetD [OF assms(2)])

lemma pres_other:
  assumes "\<And>w. objs (f w) = objs w \<and> server (f w) = server w \<and> net (f w) = net w \<and> posted (f w) = posted w"
  shows "pres (world_ok sha pk) (modE f)"
  using assms by (intro pres_modE) (auto simp: world_ok_def)

lemma pres_start_io: "pres (world_ok sha pk) (start_io op)" "pres (world_ok sha pk) (StartRead cid)"
  unfolding StartRead_def start_io_def by (intro pres_other; simp)+

lemma finish_io_ok [simp]: "world_ok sha pk (finish_io op w) \<longleftrightarrow> world_ok sha pk w"
  by (simp add: world_ok_def)

lemma presD_finish:
  assumes "pres (world_ok sha pk) m" and "m (finish_io op w) = (w', r)" and "world_ok sha pk w"
  shows "world_ok sha pk w'"
  using presD [OF assms(1) _ assms(2)] assms(3) by simp

lemma pres_seq: "pres I m \<Longrightarrow> (\<And>a. pres I (f a)) \<Longrightarrow> pres I (bindE m f)"
  by (rule pres_bindE)

lemma pres_SendMessage: "pres (world_ok sha pk) (SendMessage env cid msg)"
  unfolding SendMessage_def by (intro pres_intros pres_other) simp

lemma make_job_parts: "make_job block diff = Inr job \<Longrightarrow> job_block job = block \<and> job_diff job = diff \<and> job_shares job = {}"
  by (auto simp: make_job_def Let_def bindR_eq_Inr_iff split: if_splits)

lemma GetJob_ok:
  assumes "world_ok sha pk w" and "GetJob cid w = (w', Inr job)"
  shows "job_ok sha pk job"
proof -
  from assms(2) obtain block and c :: Client where work: "s_currentWork (server w) = Some block"
    and "make_job block (c_diff c) = Inr job"
    by (auto simp: GetJob_def GetWork_def eff_simps bindE_def get_client_def split: option.splits)
  moreover from this make_job_parts have "job\<lparr>job_shares := {}\<rparr> = job" by fastforce
  ultimately show ?thesis using assms(1) make_job_parts by (fastforce simp: job_ok_def world_ok_def)
qed

lemma pres_SendJob: "pres (world_ok sha pk) (SendJob env cid clean)"
proof -
  have "pres (world_ok sha pk) (GetJob cid)"
    unfolding GetJob_def GetWork_def by (intro pres_intros pres_get_client)
  moreover have "client_ok sha pk (c\<lparr>c_jobid := n, c_jobs := (c_jobs c)(k \<mapsto> job)\<rparr>)"
    if "client_ok sha pk c" "job_ok sha pk job" for c n k job
    using that by (auto simp: client_ok_def)
  moreover have "client_ok sha pk (c\<lparr>c_jobs := Map.empty\<rparr>)" if "client_ok sha pk c" for c
    using that by (simp add: client_ok_def)
  ultimately show ?thesis
    unfolding SendJob_def CleanJobs_def Let_def
    by (intro pres_seq [of _ "if clean then _ else _"] pres_bindE [of _ "GetJob cid"] pres_get_client
        pres_seq [of _ "mod_client _ _"] pres_mod_client pres_intros pres_SendMessage)
      (auto dest: GetJob_ok)
qed

lemma pres_SetDifficulty:
  assumes "0 < diff"
  shows "pres (world_ok sha pk) (SetDifficulty env cid diff resend)"
proof -
  have "client_ok sha pk (c\<lparr>c_diff := d\<rparr>)" if "client_ok sha pk c" "0 < d" for c d
    using that by (simp add: client_ok_def)
  moreover have "0 < (if diff < m then m else diff)" for m
    using assms by (auto intro: less_trans)
  ultimately show ?thesis
    unfolding SetDifficulty_def Let_def
    by (intro pres_get_client pres_if pres_seq [of _ "mod_client _ _"] pres_mod_client pres_returnE
        pres_seq [of _ "SendMessage _ _ _"] pres_SendMessage pres_SendJob) auto
qed

lemma clamp_pos: "0 < RetargetMinDiff cfg \<Longrightarrow> 0 < RetargetMaxDiff cfg \<Longrightarrow> 0 < clamp_diff cfg d"
proof -
  have "0 < (ucast x :: uint64)" if "0 < x" for x :: uint32
  proof -
    have "unat (ucast x :: uint64) = unat x"
      using unsigned_less [of x, where ?'a = nat] by (intro unat_ucast_fits) simp
    then show ?thesis using that by (simp add: word_less_nat_alt)
  qed
  then show "0 < RetargetMinDiff cfg \<Longrightarrow> 0 < RetargetMaxDiff cfg \<Longrightarrow> 0 < clamp_diff cfg d"
    by (auto simp: clamp_diff_def Let_def not_less intro: less_le_trans)
qed

lemma pres_mod_limiter: "pres (world_ok sha pk) (mod_limiter cid f)"
  unfolding mod_limiter_def by (intro pres_mod_client) (simp add: client_ok_def)

lemma pres_Disconnect: "pres (world_ok sha pk) (client_Disconnect cid)"
  unfolding client_Disconnect_def Disconnect_def by (intro pres_seq pres_mod_server pres_other) auto

lemma pres_Ban: "pres (world_ok sha pk) (client_Ban env cid secs)"
  unfolding client_Ban_def Ban_def by (intro pres_get_client pres_seq pres_mod_server pres_Disconnect) auto

lemma pres_limiter:
  assumes "env_ok sha pk env"
  shows "pres (world_ok sha pk) (limiter_Submit env cid d)"
proof -
  have "0 < d'" if "new_diff (e_cfg env) t sl = Inr d'" for t sl d'
    using that clamp_pos assms by (auto simp: new_diff_def env_ok_def Let_def bindR_eq_Inr_iff)
  then have "pres (world_ok sha pk) (retarget env cid t)" for t
    unfolding retarget_def
    by (intro pres_seq [of _ "mod_limiter _ _"] pres_mod_limiter pres_get_client pres_bind_lift pres_if
        pres_seq [of _ "SetDifficulty _ _ _ _"] pres_seq [of _ "SendJob _ _ _"] pres_SetDifficulty
        pres_SendJob pres_returnE)
  then show ?thesis
    unfolding limiter_Submit_def Let_def
    by (intro pres_seq [of _ "mod_limiter _ _"] pres_mod_limiter pres_get_client pres_if
        pres_seq [of _ "client_Ban _ _ _"] pres_Ban pres_returnE)
qed

lemma pres_answers:
  "pres (world_ok sha pk) (refuse env cid msg code what)" "pres (world_ok sha pk) (accept env cid msg)"
  unfolding refuse_def accept_def by (intro pres_bind_lift pres_SendMessage)+

lemma pres_push_share: "pres (world_ok sha pk) (push_share env cid user good why diff)"
  unfolding push_share_def by (intro pres_get_client pres_other) simp

lemma pres_reject:
  "pres (world_ok sha pk) (bindE (push_share env cid user good why diff)
     (\<lambda>_. bindE (LogBad cid) (\<lambda>_. refuse env cid msg code what)))"
  unfolding LogBad_def by (intro pres_seq pres_push_share pres_mod_limiter pres_answers)

text \<open>The network manager publishes only templates that it has built itself.\<close>

lemma template_block_ok:
  assumes "env_ok sha pk env" and "template_block env height response = Inr block"
  shows "block_ok sha pk block"
proof -
  from assms obtain v txs b0 where
    b0: "BuildMerkleTree sha b0 = Inr block" "blk_tx b0 = CreateCoinbaseTX height pk v # txs"
    by (auto simp: template_block_def bindR_eq_Inr_iff env_ok_def split: prod.splits)
  moreover from this have "blk_tx block = blk_tx b0" by (auto simp: BuildMerkleTree_eq)
  ultimately show ?thesis using assms(1) by (auto simp: block_ok_def template_ok_def env_ok_def)
qed

lemma pres_mod_net: "(\<And>n. n_curBlockTmpl (f n) = n_curBlockTmpl n) \<Longrightarrow> pres (world_ok sha pk) (mod_net f)"
  unfolding mod_net_def by (intro pres_modE) (simp add: world_ok_def)

lemma pres_Query: "pres (world_ok sha pk) (rpc_Query env i m ps)"
  unfolding rpc_Query_def by (intro pres_intros pres_seq pres_mod_net) simp

lemma pres_template_loop:
  assumes "env_ok sha pk env"
  shows "pres (world_ok sha pk) (template_loop env is)"
proof -
  have set: "pres (world_ok sha pk) (mod_net (\<lambda>n. n\<lparr>n_curBlockTmpl := Some block\<rparr>))"
    if "block_ok sha pk block" for block
    unfolding mod_net_def using that by (intro pres_modE) (simp add: world_ok_def)
  have "pres (world_ok sha pk) (try_template env i)" for i
    unfolding try_template_def
    by (intro pres_seq [of _ "rpc_Query _ _ _ _"] pres_Query pres_bind_get pres_bind_lift pres_if pres_returnE
        pres_seq [of _ "mod_net _"] set template_block_ok [OF assms])
  then show ?thesis
    by (induction "is") (auto intro!: pres_seq [of _ "tryE _ _"] pres_tryE pres_returnE)
qed

lemma pres_post:
  assumes "pred_option (block_ok sha pk) block"
  shows "pres (world_ok sha pk) (notify_loop block nb n)"
  by (induction n)
    (auto intro!: pres_seq pres_returnE pres_modE simp: post_def world_ok_def assms)

lemma pres_NotifySend: "pres (world_ok sha pk) (BlockNotifySend nb)"
  unfolding BlockNotifySend_def by (intro pres_bind_get) (auto intro!: pres_post simp: world_ok_def)

lemma pres_Update: "env_ok sha pk env \<Longrightarrow> pres (world_ok sha pk) (UpdateBlockTemplate env)"
  unfolding UpdateBlockTemplate_def by (intro pres_bind_get pres_template_loop)

lemma pres_BlockCheck:
  assumes "env_ok sha pk env"
  shows "pres (world_ok sha pk) (BlockCheck env)"
proof -
  have "pres (world_ok sha pk) (check_daemon env i)" for i
    unfolding check_daemon_def Let_def
    by (intro pres_seq [of _ "rpc_Query _ _ _ _"] pres_Query pres_bind_get pres_bind_lift pres_if pres_returnE
        pres_seq [of _ "mod_net _"] pres_mod_net pres_seq [of _ "UpdateBlockTemplate _"] pres_Update
        pres_NotifySend assms) simp
  then have "pres (world_ok sha pk) (check_loop env is)" for "is"
    by (induction "is") (auto intro!: pres_seq [of _ "tryE _ _"] pres_tryE pres_returnE)
  then show ?thesis unfolding BlockCheck_def by (intro pres_bind_get)
qed

lemma pres_SubmitBlock:
  assumes "env_ok sha pk env"
  shows "pres (world_ok sha pk) (SubmitBlock env block)"
proof -
  have "pres (world_ok sha pk) (submit_to env bytes i)" for bytes i
    unfolding submit_to_def
    by (intro pres_seq [of _ "rpc_Query _ _ _ _"] pres_Query pres_bind_lift pres_if pres_returnE
        pres_seq [of _ "BlockCheck _"] pres_BlockCheck assms)
  then have "pres (world_ok sha pk) (submit_loop env bytes is)" for bytes "is"
    by (induction "is") (auto intro!: pres_seq [of _ "tryE _ _"] pres_tryE pres_returnE)
  then show ?thesis unfolding SubmitBlock_def by (intro pres_bind_get)
qed

lemma pres_judge:
  assumes "env_ok sha pk env"
  shows "pres (world_ok sha pk) (judge_share env cid msg user job block)"
  unfolding judge_share_def Let_def
  by (intro pres_bind_lift pres_if pres_reject pres_seq [of _ "SubmitBlock _ _"] pres_SubmitBlock assms
      pres_get_client pres_seq [of _ "modE _"] pres_other pres_answers pres_returnE
      pres_seq [of _ "push_share _ _ _ _ _ _"] pres_push_share) simp_all

lemma pres_settle:
  assumes "env_ok sha pk env" and job: "job_ok sha pk job"
  shows "pres (world_ok sha pk) (settle_share env cid msg user jobid job t n e share)"
proof -
  have "job_ok sha pk (snd (SubmitShare share job))" using job by (auto simp: SubmitShare_def job_ok_def)
  then have "client_ok sha pk (c\<lparr>c_jobs := (c_jobs c)(k \<mapsto> snd (SubmitShare share job))\<rparr>)"
    if "client_ok sha pk c" for c k using that by (auto simp: client_ok_def)
  then show ?thesis
    unfolding settle_share_def Let_def split_def
    by (intro pres_seq [of _ "mod_client _ _"] pres_mod_client pres_if pres_reject pres_get_client
        pres_bind_lift pres_judge assms(1)) auto
qed

lemma pres_OnMiningSubmit:
  assumes "env_ok sha pk env"
  shows "pres (world_ok sha pk) (OnMiningSubmit env cid msg)"
proof -
  have "pres (world_ok sha pk) (take_share env cid msg params user jobid job)"
    if "job_ok sha pk job" for params user jobid job
    unfolding take_share_def Let_def
    by (intro pres_bind_lift pres_if pres_answers pres_prod pres_settle assms that)
  then show ?thesis
    unfolding OnMiningSubmit_def Let_def
    by (intro pres_bind_lift pres_get_client pres_if pres_answers pres_option pres_reject
        pres_seq [of _ "limiter_Submit _ _ _"] pres_limiter assms) (auto simp: client_ok_def)
qed

lemma pres_OnMiningSubscribe: "pres (world_ok sha pk) (OnMiningSubscribe env cid msg)"
  unfolding OnMiningSubscribe_def GetExtranonce_def Let_def
  by (intro pres_seq [of _ "mod_client _ _"] pres_mod_client pres_seq [of _ "bindE _ _"] pres_bind_get
      pres_seq [of _ "mod_server _"] pres_mod_server pres_returnE pres_bind_lift
      pres_seq [of _ "SendMessage _ _ _"] pres_SendMessage pres_SendJob) (auto simp: client_ok_def)

lemma pres_OnMiningAuthorize: "pres (world_ok sha pk) (OnMiningAuthorize env cid msg)"
  unfolding OnMiningAuthorize_def
  by (intro pres_bind_lift pres_option pres_seq [of _ "mod_client _ _"] pres_mod_client pres_get_client
      pres_seq [of _ "if _ then _ else _"] pres_if pres_SetDifficulty pres_returnE pres_SendMessage)
    (auto simp: client_ok_def)

lemma pres_OnMessage: "env_ok sha pk env \<Longrightarrow> pres (world_ok sha pk) (OnMessage env cid msg)"
  unfolding OnMessage_def
  by (intro pres_bind_lift pres_prod pres_if pres_OnMiningSubmit pres_OnMiningSubscribe
      pres_OnMiningAuthorize pres_returnE)

section \<open>The handlers keep the invariant\<close>

lemma client_new_ok: "env_ok sha pk env \<Longrightarrow> client_ok sha pk (Client_new env cid)"
proof -
  assume "env_ok sha pk env"
  then have "0 < unat (RetargetStartingDiff (e_cfg env))" by (simp add: env_ok_def word_less_nat_alt)
  moreover have "unat (ucast (RetargetStartingDiff (e_cfg env)) :: uint64) = unat (RetargetStartingDiff (e_cfg env))"
    using unsigned_less [of "RetargetStartingDiff (e_cfg env)", where ?'a = nat] by (intro unat_ucast_fits) simp
  ultimately show ?thesis by (simp add: client_ok_def Client_new_def word_less_nat_alt)
qed

lemma task_ok_mono: "(\<And>cid. p cid \<Longrightarrow> p' cid) \<Longrightarrow> task_ok sha pk p t \<Longrightarrow> task_ok sha pk p' t"
  by (cases t) auto

lemma pres_StartAccept:
  assumes "env_ok sha pk env"
  shows "pres (world_ok sha pk) (StartAccept env)"
proof -
  have "world_ok sha pk (w\<lparr>objs := (objs w)(cid \<mapsto> Client_new env cid)\<rparr>)" if "world_ok sha pk w" for w cid
    using that client_new_ok [OF assms, of cid]
    by (auto simp: world_ok_def intro: task_ok_mono [rotated])
  then show ?thesis
    unfolding StartAccept_def by (intro pres_bind_get pres_seq pres_mod_server pres_start_io pres_modE) auto
qed

lemma pres_OnAccept:
  assumes "env_ok sha pk env" and w: "world_ok sha pk w" "objs w cid \<noteq> None"
  shows "world_ok sha pk (fst (OnAccept env cid err remote w))"
proof -
  have start: "pres (world_ok sha pk) (client_Start env cid remote)"
    unfolding client_Start_def IsBanned_def StartRead_def
    by (intro pres_seq [of _ "start_io _"] pres_start_io pres_tryE pres_bind_lift pres_seq [of _ "mod_client _ _"] pres_mod_client pres_bind_get pres_if
        pres_seq [of _ "client_Disconnect _"] pres_Disconnect pres_returnE) (simp add: client_ok_def)
  have there: "objs w1 cid \<noteq> None" if "client_Start env cid remote w = (w1, r)" for w1 r
    using that w(2)
    by (auto simp: client_Start_def IsBanned_def client_Disconnect_def Disconnect_def mod_server_def
        StartRead_def start_io_def tryE_def bindE_def liftE_def mod_client_def modE_def getE_def returnE_def
        split: sum.splits fault.splits if_splits)
  obtain w1 r where w1: "client_Start env cid remote w = (w1, r)" by (cases "client_Start env cid remote w")
  have ok1: "world_ok sha pk w1" by (rule presD [OF start w(1) w1])
  with there [OF w1] have "world_ok sha pk (w1\<lparr>server := (server w1)\<lparr>s_clients := insert cid (s_clients (server w1))\<rparr>\<rparr>)"
    by (auto simp: world_ok_def)
  with ok1 w(1) pres_StartAccept [OF assms(1)] show ?thesis
    by (cases r) (auto simp: OnAccept_def bindE_def w1 mod_server_def modE_def returnE_def pres_def)
qed

lemma pres_OnReceive:
  assumes "env_ok sha pk env"
  shows "pres (world_ok sha pk) (OnReceive env cid ec bytes)"
proof -
  have line: "pres (world_ok sha pk) (on_line env cid)"
    unfolding on_line_def RedirectGetwork_def
    by (intro pres_get_client pres_seq [of _ "if _ then _ else _"] pres_if pres_other pres_returnE
        pres_seq [of _ "tryE _ _"] pres_tryE pres_bind_lift pres_OnMessage assms pres_mod_client)
      (simp_all add: client_ok_def)
  have "pres (world_ok sha pk) (receive_loop env cid s)" for s
    by (induction s) (auto intro!: pres_returnE pres_seq line pres_mod_client simp: client_ok_def)
  then show ?thesis
    unfolding OnReceive_def StartRead_def
    by (intro pres_seq [of _ "if _ then _ else _"] pres_start_io pres_if pres_seq [of _ "receive_loop _ _ _"] pres_get_client pres_Disconnect pres_returnE)
qed

lemma pres_OnSend: "pres (world_ok sha pk) (OnSend cid ec)"
  unfolding OnSend_def by (intro pres_if pres_Disconnect pres_returnE)

lemma pres_BlockNotify:
  assumes "pred_option (block_ok sha pk) block"
  shows "pres (world_ok sha pk) (BlockNotify block nb)"
proof -
  have "objs w cid \<noteq> None" if "world_ok sha pk w" "cid \<in> set (sorted_list_of_set (s_clients (server w)))" for w cid
    using that by (cases "finite (s_clients (server w))") (auto simp: world_ok_def)
  then show ?thesis
    using assms unfolding pres_def BlockNotify_apply by (fastforce simp: world_ok_def)
qed

lemma pres_run_task:
  assumes "task_ok sha pk p t"
  shows "pres (world_ok sha pk) (run_task env t)"
  using assms by (cases t) (simp_all add: run_task_def pres_SendJob pres_SendMessage pres_BlockNotify)

lemma pres_Connect: "env_ok sha pk env \<Longrightarrow> pres (world_ok sha pk) (Connect env info)"
  unfolding Connect_def
  by (intro pres_bind_get pres_seq [of _ "rpc_Query _ _ _ _"] pres_Query pres_bind_lift pres_if pres_liftE
      pres_seq [of _ "mod_net _"] pres_mod_net pres_BlockCheck pres_returnE) simp_all

lemma UploadTimerExpired_ok: "UploadTimerExpired env w = Some (w', r) \<Longrightarrow> world_ok sha pk w \<Longrightarrow> world_ok sha pk w'"
  by (auto simp: UploadTimerExpired_def UploadTimerStart_def start_io_apply world_ok_def split: option.splits sum.splits)

lemma Server_Run_ok:
  assumes "env_ok sha pk env" and "Server_Run env (world_new db) = (w, r)"
  shows "world_ok sha pk w"
proof -
  have "pres (world_ok sha pk) (connect_loop env rpcs)" for rpcs
    by (induction rpcs) (auto simp: Let_def intro!: pres_returnE pres_liftE pres_seq pres_Connect assms)
  moreover have "pres (world_ok sha pk) BlockNotifyBind"
    unfolding BlockNotifyBind_def
    by (intro pres_seq [of _ "mod_net _"] pres_mod_net pres_bind_get pres_BlockNotify) (auto simp: world_ok_def)
  moreover have fresh: "pres (world_ok sha pk) (mod_net (\<lambda>_. \<lparr>n_binds = a, n_blockHeight = b, n_cons = cs, n_curBlockTmpl = None,
      n_calls = d\<rparr>))" for a b cs d
    unfolding mod_net_def by (intro pres_modE) (simp add: world_ok_def)
  ultimately have "pres (world_ok sha pk) (Server_Run env)"
    unfolding Server_Run_def Server_Start_def DataMgr_Initialize_def UploadTimerStart_def NetworkMgr_Initialize_def
      BlockCheckTimerStart_def BlockNotifyTimerStart_def
    by (intro pres_seq pres_StartAccept pres_start_io pres_liftE pres_other fresh assms) simp_all
  moreover have "world_ok sha pk (world_new db)" by (simp add: world_ok_def world_new_def)
  ultimately show ?thesis using assms(2) by (rule presD)
qed

interpretation pool: invariant_system "sys_init (env_ok sha pk)" "sys_step (env_ok sha pk)" "world_ok sha pk" for sha pk
proof
  show "sys_init (env_ok sha pk) w \<Longrightarrow> world_ok sha pk w" for w
    by (auto simp: sys_init_def intro: Server_Run_ok)
  show "world_ok sha pk w'" if w: "world_ok sha pk w" and step: "sys_step (env_ok sha pk) w w'" for w w'
    using step
  proof (cases rule: sys_step.cases)
    case (sys_accept env cid err remote r)
    with pres_OnAccept [of sha pk env "finish_io (IoAccept cid) w" cid err remote] w show ?thesis by simp
  next
    case (sys_task env ts t ts' r)
    from w sys_task(2) have "world_ok sha pk (w\<lparr>posted := ts @ ts'\<rparr>)" and t: "task_ok sha pk (\<lambda>cid. objs w cid \<noteq> None) t"
      by (auto simp: world_ok_def)
    then show ?thesis using presD [OF pres_run_task [OF t] _ sys_task(3)] by blast
  next
    case (sys_receive env cid ec bytes r)
    then show ?thesis using presD_finish [OF pres_OnReceive _ w] by blast
  next
    case (sys_sent cid ec r)
    then show ?thesis using presD [OF pres_OnSend w] by blast
  next
    case (sys_notify_timer env r)
    have "pres (world_ok sha pk) (BlockNotifyTimerExpired env)"
      unfolding BlockNotifyTimerExpired_def BlockNotifyTimerStart_def
      by (intro pres_seq pres_Update pres_NotifySend pres_start_io sys_notify_timer(1))
    then show ?thesis using sys_notify_timer(3) w by (rule presD_finish)
  next
    case (sys_check_timer env r)
    have "pres (world_ok sha pk) (BlockCheckTimerExpired env)"
      unfolding BlockCheckTimerExpired_def BlockCheckTimerStart_def
      by (intro pres_seq pres_BlockCheck pres_start_io sys_check_timer(1))
    then show ?thesis using sys_check_timer(3) w by (rule presD_finish)
  next
    case (sys_upload env r)
    then show ?thesis using UploadTimerExpired_ok w by simp
  next
    case sys_database
    then show ?thesis using w by (simp add: world_ok_def)
  qed
qed

section \<open>What a credited share proves\<close>

lemma assembled_block:
  assumes job: "job_ok sha pk job" and env: "e_sha env = sha" and e2: "length e2 = 4"
    and block: "assemble env x job tb nb e2 = Inr block"
  obtains h v txs where
    "blk_tx block = coinbase_with h pk v (word_bytes x @ e2) # txs"
    "blk_merkleRootHash block = merkle_root sha (map (tx_GetHash sha) (blk_tx block))"
    "blk_tx (job_block job) = CreateCoinbaseTX h pk v # txs"
    "blk_prevBlockHash block = blk_prevBlockHash (job_block job)"
proof -
  from job obtain h v txs where tmpl: "template_ok sha h pk v txs (job_block job)"
    and made: "make_job (job_block job) (job_diff job) = Inr (job\<lparr>job_shares := {}\<rparr>)"
    by (auto simp: job_ok_def block_ok_def)
  from tmpl have tx: "blk_tx (job_block job) = CreateCoinbaseTX h pk v # txs" and pk: "length pk < 2 ^ 62"
    by (simp_all add: template_ok_def)
  have parts: "coinbase1 job = coinbase_head h" "coinbase2 job = coinbase_tail pk v"
    using make_job_coinbase [OF made tx] by simp_all
  let ?cb = "coinbase_with h pk v (word_bytes x @ e2)"
  have "length (word_bytes x @ e2) = 8" using e2 by simp
  from coinbase_parses [OF pk this, of h v] obtain bc where
    cb: "read_Transaction (ByteBuffer_of (coinbase_head h @ word_bytes x @ e2 @ coinbase_tail pk v)) = Inr (?cb, bc)"
    by auto
  from block obtain t n where run: "RebuildMerkleTree sha ((job_block job)\<lparr>blk_time := t, blk_nonce := n, blk_tx := ?cb # txs\<rparr>)
      = Inr block"
    by (auto simp: assemble_def Let_def bindR_eq_Inr_iff write_coinbase_head parts cb tx env split: prod.splits
        simp del: vec_Append)
  let ?b = "(job_block job)\<lparr>blk_time := t, blk_nonce := n, blk_tx := ?cb # txs\<rparr>"
  have "tree_built sha (CreateCoinbaseTX h pk v) ?b"
    using template_tree [OF tmpl] by (simp add: tree_built_def)
  from RebuildMerkleTree_eq [OF this] run have "block = ?b\<lparr>blk_merkleTree := merkle_rows sha (map (tx_GetHash sha) (?cb # txs)),
      blk_merkleRootHash := merkle_root sha (map (tx_GetHash sha) (?cb # txs))\<rparr>"
    by (simp add: BuildMerkleTree_eq)
  then show thesis by (intro that [OF _ _ tx]) simp_all
qed

text \<open>A share that passed the checks of its submission proves work.\<close>

lemma checked_share_is_work:
  assumes env: "env_ok sha pk env" and ok: "client_ok sha pk c" and that: "share_checked env c params s"
  shows "username s \<in> c_workers c \<and> 0 < share_diff s
      \<and> (\<exists>block h v e2 txs. int (unat (share_diff s)) * hash_number sha block \<le> max_target
          \<and> blk_tx block = coinbase_with h pk v (word_bytes (c_extranonce c) @ e2) # txs \<and> length e2 = 4
          \<and> blk_merkleRootHash block = merkle_root sha (map (tx_GetHash sha) (blk_tx block)))"
proof -
  from that obtain user k job tb nb e2 block where s: "user \<in> c_workers c" "c_jobs c k = Some job" "length e2 = 4"
    "assemble env (c_extranonce c) job tb nb e2 = Inr block" "hash_number (e_sha env) block \<le> jobTarget job"
    "s = Share_new (c_ip c) user True [] (ucast (e_now env)) (job_diff job)"
    unfolding share_checked_def by blast
  have sha: "e_sha env = sha" using env by (simp add: env_ok_def)
  have job: "job_ok sha pk job" using ok s(2) by (auto simp: client_ok_def)
  then obtain h v txs where "blk_tx (job_block job) = CreateCoinbaseTX h pk v # txs"
    and "make_job (job_block job) (job_diff job) = Inr (job\<lparr>job_shares := {}\<rparr>)"
    by (auto simp: job_ok_def block_ok_def template_ok_def)
  from make_job_coinbase [OF this(2,1)]
  have target: "DiffToTarget (int (unat (job_diff job))) = Inr (jobTarget job)" by simp
  then have "int (unat (job_diff job)) \<noteq> 0" by (auto simp: DiffToTarget_def TargetToDiff_def split: if_splits)
  then have pos: "0 < int (unat (job_diff job))" by linarith
  have "int (unat (job_diff job)) * hash_number sha block \<le> max_target"
    using s(5) le_DiffToTarget_iff [OF pos target] by (simp add: sha)
  moreover from assembled_block [OF job sha s(3,4)] obtain h v txs where
    "blk_tx block = coinbase_with h pk v (word_bytes (c_extranonce c) @ e2) # txs"
    "blk_merkleRootHash block = merkle_root sha (map (tx_GetHash sha) (blk_tx block))" by metis
  moreover have "0 < job_diff job" using pos by (simp add: word_less_def)
  moreover have fields: "username s = user" "share_diff s = job_diff job" by (simp_all add: s(6) Share_new_def)
  ultimately show ?thesis using s(1,3) unfolding fields by blast
qed

section \<open>Messages out of a stream\<close>

lemma receive_loop_append:
  "receive_loop env cid (s @ t) = bindE (receive_loop env cid s) (\<lambda>_. receive_loop env cid t)"
proof (induction s)
  case Nil
  show ?case by (rule ext) (simp add: bindE_def returnE_def)
qed (simp add: bindE_assoc)

lemma receive_text:
  assumes "objs w cid = Some c" and "CHR 0x0A \<notin> set l"
  shows "receive_loop env cid l w = (w\<lparr>objs := (objs w)(cid \<mapsto> c\<lparr>c_recvMessage := c_recvMessage c @ l\<rparr>)\<rparr>, Inr ())"
  using assms
proof (induction l arbitrary: w c)
  case Nil
  then have "w\<lparr>objs := (objs w)(cid \<mapsto> c)\<rparr> = w" by (simp add: fun_upd_idem)
  then show ?case by (simp add: returnE_def del: fun_upd_apply)
next
  case (Cons ch l)
  let ?c = "c\<lparr>c_recvMessage := c_recvMessage c @ [ch]\<rparr>"
  have "receive_loop env cid l (w\<lparr>objs := (objs w)(cid \<mapsto> ?c)\<rparr>)
      = (w\<lparr>objs := (objs w)(cid \<mapsto> c\<lparr>c_recvMessage := c_recvMessage c @ ch # l\<rparr>)\<rparr>, Inr ())"
    using Cons.IH [of "w\<lparr>objs := (objs w)(cid \<mapsto> ?c)\<rparr>" ?c] Cons.prems(2)
    by (simp add: fun_upd_same del: fun_upd_apply)
  moreover have "ch \<noteq> CHR 0x0A" using Cons.prems(2) by auto
  ultimately show ?case using Cons.prems(1) by (simp add: bindE_mod_client del: fun_upd_apply)
qed

lemma receive_line:
  assumes "objs w cid = Some c" and "CHR 0x0A \<notin> set l"
  shows "receive_loop env cid (l @ CHR 0x0A # rest) w
    = bindE (on_line env cid) (\<lambda>_. receive_loop env cid rest)
        (w\<lparr>objs := (objs w)(cid \<mapsto> c\<lparr>c_recvMessage := c_recvMessage c @ l\<rparr>)\<rparr>)"
  by (simp add: receive_loop_append bindE_def [of "receive_loop env cid l"] receive_text [OF assms])

section \<open>Properties\<close>

text \<open>
  C6. In every state the pool can reach, whatever miners, daemons and database send and in whatever
  order the handlers run: every client has a positive difficulty, and each of its jobs has the
  targets and the coinbase halves that belong to its template and difficulty; every template that
  is published, posted or in work pays the pool's address and carries its Merkle tree; posted tasks
  and the server's set of clients refer to clients that exist.
\<close>

theorem pool_reachable_ok:
  assumes "reach (sys_init (env_ok sha pk)) (sys_step (env_ok sha pk)) w"
  shows "world_ok sha pk w"
  using assms by (rule pool.reach_inv)

text \<open>
  C1. Every share the running pool credits is a proof of work of the credited difficulty that pays
  the pool: when a submission in a reachable state records a good share, its difficulty times the
  hash of the assembled block is at most the target of difficulty one, the block's coinbase
  transaction is the pool's own with the client's extranonce in it, and the Merkle root in the hashed
  header is the root of the block's transactions.
\<close>

theorem credited_share_is_work:
  assumes reached: "reach (sys_init (env_ok sha pk)) (sys_step (env_ok sha pk)) w" and env: "env_ok sha pk env"
    and c: "objs w cid = Some c" and run: "OnMiningSubmit env cid msg w = (w', r)"
  shows "\<exists>ss. datastore (dataMgr w') = datastore (dataMgr w) @ ss \<and> length ss \<le> 1
    \<and> (\<forall>s \<in> set ss. share_result s \<longrightarrow> username s \<in> c_workers c \<and> 0 < share_diff s
        \<and> (\<exists>block h v e2 txs. int (unat (share_diff s)) * hash_number sha block \<le> max_target
            \<and> blk_tx block = coinbase_with h pk v (word_bytes (c_extranonce c) @ e2) # txs \<and> length e2 = 4
            \<and> blk_merkleRootHash block = merkle_root sha (map (tx_GetHash sha) (blk_tx block))))"
proof (cases "get_field ''params'' msg")
  case (Inl e)
  then have "w' = w" using run by (simp add: OnMiningSubmit_def eff_simps)
  then show ?thesis by simp
next
  case (Inr params)
  have ok: "client_ok sha pk c" using pool.reach_inv [OF reached] c by (auto simp: world_ok_def)
  from OnMiningSubmit_pushes [OF c Inr, of env] checked_share_is_work [OF env ok] show ?thesis
    by (fastforce simp: pushes_def run)
qed



section \<open>A small instance\<close>

text \<open>The pool after it has started, without a daemon, waiting for its first client.\<close>

definition sample_start :: world where
  "sample_start = fst (Server_Run sample_env (world_new sample_pool))"

lemma sample_no_daemons [simp]: "BitcoinRPC (e_cfg sample_env) = []"
  by (simp add: sample_env_def sample_config_def)

lemmas run_defs = Server_Start_def DataMgr_Initialize_def UploadTimerStart_def NetworkMgr_Initialize_def
  BlockCheckTimerStart_def BlockNotifyTimerStart_def

lemma sample_listens [simp]: "e_listen sample_env p = Inr ()"
  by (simp add: sample_env_def)

lemma sample_start_eq:
  "Server_Run sample_env (world_new sample_pool) = (sample_start, Inr ())"
  "objs sample_start 0 = Some (Client_new sample_env 0)"
  by (simp_all add: sample_start_def Server_Run_def BlockNotifyBind_def mod_net_def BlockNotify_apply
      run_defs StartAccept_def mod_server_def start_io_def bindE_def liftE_def modE_def getE_def returnE_def world_new_def)

lemma sample_start_server:
  "server sample_start = \<lparr>s_clients = {}, s_clientId = 1, s_bans = [], s_currentWork = None, s_extranonce = 0\<rparr>"
  by (simp add: sample_start_def Server_Run_def BlockNotifyBind_def mod_net_def BlockNotify_apply
      run_defs StartAccept_def mod_server_def start_io_def bindE_def liftE_def modE_def getE_def returnE_def world_new_def)

lemma sample_env_ok: "env_ok (e_sha sample_env) (ASCIIToBin ''00'') sample_env"
  by (simp add: env_ok_def sample_env_def sample_config_def)

lemma sample_start_reach:
  "reach (sys_init (env_ok (e_sha sample_env) (ASCIIToBin ''00'')))
     (sys_step (env_ok (e_sha sample_env) (ASCIIToBin ''00''))) sample_start"
proof (rule reach_init)
  have "pool_init sample_pool" by (simp add: pool_init_def sample_pool_def)
  then show "sys_init (env_ok (e_sha sample_env) (ASCIIToBin ''00'')) sample_start"
    unfolding sys_init_def using sample_env_ok sample_start_eq(1) by blast
qed

theorem pool_reachable_ok_witness: "world_ok (e_sha sample_env) (ASCIIToBin ''00'') sample_start"
  by (rule pool_reachable_ok) (rule sample_start_reach)

end
