(* ===== verification/System_Props.thy ===== *)
theory System_Props
  imports Pool_System Client_Props
begin

text \<open>
  What the handlers of the I/O service do to the rest of the pool, proved once for every relation between the
  state before and after that allows the steps they are made of; and which operations wait for completion:
  the pool listens for ever (\<open>Stratum/Server.h\<close>, \<open>NetworkMgr.cpp\<close>, \<open>DataMgr.h\<close>), but a client may be forgotten
  (\<open>Stratum/Client.cpp\<close>).
\<close>

section \<open>Relations kept by the handlers\<close>

context client_relation
begin

lemma cl_OnSend: "keeps P (OnSend cid ec)"
  unfolding OnSend_def by (intro keeps_intros cl_Disconnect)

lemma cl_run_task: "keeps P (run_task env t)"
  unfolding run_task_def by (cases t) (simp_all add: cl_SendJob cl_SendMessage cl_server)

end

locale io_relation = client_relation P for P :: "world \<Rightarrow> world \<Rightarrow> bool" +
  assumes io_ok: "(\<And>cid. op \<noteq> IoAccept cid) \<Longrightarrow> P w (w\<lparr>pending := insert op (pending w)\<rparr>)"
begin

lemma cl_start_io: "keeps P (StartRead cid)" "keeps P BlockCheckTimerStart" "keeps P BlockNotifyTimerStart"
  unfolding StartRead_def BlockCheckTimerStart_def BlockNotifyTimerStart_def start_io_def
  by (intro keeps_modE io_ok; simp)+

lemma cl_Start: "keeps P (client_Start env cid remote)"
  unfolding client_Start_def by (intro keeps_intros cl_server cl_mod_client cl_Disconnect cl_start_io; simp)

lemma cl_timers: "keeps P (BlockNotifyTimerExpired env)" "keeps P (BlockCheckTimerExpired env)"
  unfolding BlockNotifyTimerExpired_def BlockCheckTimerExpired_def
  by (intro keeps_intros net_Update net_Send net_BlockCheck cl_start_io)+

text \<open>A start, after the share store and before the listening socket.\<close>

lemma cl_connect: "keeps P NetworkMgr_Initialize" "keeps P (bindE (connect_loop env rpcs) (\<lambda>_. BlockNotifyBind))"
proof -
  have "keeps P (Connect env info)" for info
    unfolding Connect_def by (intro keeps_intros net_Query net_mod net_BlockCheck)
  then have "keeps P (connect_loop env rpcs)"
    by (induction rpcs) (auto simp: Let_def intro!: keeps_intros)
  then show "keeps P NetworkMgr_Initialize" "keeps P (bindE (connect_loop env rpcs) (\<lambda>_. BlockNotifyBind))"
    unfolding NetworkMgr_Initialize_def BlockNotifyBind_def by (intro keeps_intros net_mod cl_server cl_start_io)+
qed

end

text \<open>Accepting a connection moves on to the next client.\<close>

locale system_relation = io_relation P for P :: "world \<Rightarrow> world \<Rightarrow> bool" +
  assumes any_number_ok: "s_extranonce v = s_extranonce (server w) \<Longrightarrow> P w (w\<lparr>server := v\<rparr>)"
    and any_io_ok: "P w (w\<lparr>pending := ops\<rparr>)"
begin

lemma cl_mod_server: "(\<And>s. s_extranonce (f s) = s_extranonce s) \<Longrightarrow> keeps P (mod_server f)"
  unfolding mod_server_def by (intro keeps_modE any_number_ok)

lemma cl_StartAccept: "keeps P (StartAccept env)"
  unfolding StartAccept_def start_io_def
  by (intro keeps_intros cl_mod_server any_io_ok objs_ok) (auto simp: steady_objs_def Client_new_def)

lemma cl_OnAccept: "keeps P (OnAccept env cid err remote)"
  unfolding OnAccept_def by (intro keeps_intros cl_mod_server cl_Start cl_StartAccept; simp)

end

text \<open>A submission also changes the share store and asks the database.\<close>

locale share_relation = client_relation P for P :: "world \<Rightarrow> world \<Rightarrow> bool" +
  assumes share_ok: "P w (w\<lparr>dataMgr := m\<rparr>)"
    and ask_ok: "P w (w\<lparr>database := snd (ExecuteAsync q (database w))\<rparr>)"
begin

lemma cl_push_share: "keeps P (push_share env cid user res why d)"
  unfolding push_share_def by (intro keeps_intros cl_get_client share_ok)

lemma cl_judge: "keeps P (judge_share env cid msg user job block)"
  unfolding judge_share_def Let_def
  by (intro keeps_intros cl_push_share cl_LogBad cl_answers net_SubmitBlock cl_get_client ask_ok)

lemma cl_settle: "keeps P (settle_share env cid msg user jobid job t n e share)"
  unfolding settle_share_def Let_def split_def
  by (intro keeps_intros cl_mod_client cl_get_client cl_push_share cl_LogBad cl_answers cl_judge; simp)

lemma cl_Submit: "keeps P (OnMiningSubmit env cid msg)"
proof -
  have "keeps P (take_share env cid msg params user jobid job)" for params user jobid job
    unfolding take_share_def Let_def by (intro keeps_intros cl_answers cl_settle)
  then show ?thesis
    unfolding OnMiningSubmit_def Let_def
    by (intro keeps_intros cl_get_client cl_answers cl_limiter cl_push_share cl_LogBad)
qed

lemma cl_Redirect: "keeps P (RedirectGetwork env cid)"
  unfolding RedirectGetwork_def by (intro keeps_modE wire_ok)

end

locale line_relation = share_relation P + session_relation P for P :: "world \<Rightarrow> world \<Rightarrow> bool"
begin

lemma cl_receive: "keeps P (receive_loop env cid s)"
proof -
  have "keeps P (OnMessage env cid msg)" for msg
    unfolding OnMessage_def by (intro keeps_intros cl_Submit cl_subscribe cl_authorize)
  then have line: "keeps P (on_line env cid)"
    unfolding on_line_def by (intro keeps_intros cl_get_client cl_Redirect cl_any_client)
  show ?thesis by (induction s) (auto intro!: keeps_intros line cl_any_client)
qed

end

locale receive_relation = io_relation P + line_relation P for P :: "world \<Rightarrow> world \<Rightarrow> bool"
begin

lemma cl_OnReceive: "keeps P (OnReceive env cid ec bytes)"
  unfolding OnReceive_def by (intro keeps_intros cl_get_client cl_Disconnect cl_start_io cl_receive)

end

section \<open>No exception escapes\<close>

text \<open>
  The handlers of the timers, of a new connection and of received data catch every exception themselves, so
  they get to the point where they start their operation again.
\<close>

lemma nothrow_client: "nothrow (get_client cid)" "nothrow (mod_client cid f)" "nothrow (mod_server g)"
    "nothrow (client_Disconnect cid)" "nothrow (start_io op)"
  by (auto simp: nothrow_def get_client_def mod_client_def server_defs client_Disconnect_def start_io_def modE_def
      bindE_def split: option.splits)

lemma nothrow_Update: "nothrow (UpdateBlockTemplate env)"
proof -
  have "nothrow (template_loop env rpcs)" for rpcs
    by (induction rpcs) (auto intro!: nothrow_intros)
  then show ?thesis unfolding UpdateBlockTemplate_def by (intro nothrow_intros)
qed

lemma nothrow_Send: "nothrow (BlockNotifySend nb)"
proof -
  have "nothrow (notify_loop b nb n)" for b n
    by (induction n) (auto simp: post_def intro!: nothrow_intros)
  then show ?thesis unfolding BlockNotifySend_def by (intro nothrow_intros)
qed

lemma nothrow_BlockCheck: "nothrow (BlockCheck env)"
proof -
  have "nothrow (check_loop env rpcs)" for rpcs
    by (induction rpcs) (auto intro!: nothrow_intros)
  then show ?thesis unfolding BlockCheck_def by (intro nothrow_intros)
qed

lemma nothrow_Start: "nothrow (client_Start env cid remote)"
  unfolding client_Start_def by (intro nothrow_intros)

lemma nothrow_receive: "nothrow (receive_loop env cid s)"
proof -
  have "nothrow (on_line env cid)"
    unfolding on_line_def RedirectGetwork_def by (intro nothrow_intros nothrow_client)
  then show ?thesis by (induction s) (auto intro!: nothrow_intros nothrow_client)
qed

lemma Upload_no_exception: "Upload minCount bulkCount m db = Some r \<Longrightarrow> r \<noteq> Inl (Exception what)"
proof -
  have pop: "bulk_loop n i q m \<noteq> Inl (Exception what)" for n i q m
    by (induction n i q m rule: bulk_loop.induct)
      (subst bulk_loop.simps, auto simp: Pop_def bindR_def Let_def split: list.splits sum.splits)
  have "r \<noteq> Inl (Exception what)" if "upload_loop minCount bulkCount m db = Some r" for r
    by (rule upload_loop.raw_induct [OF _ that]) (auto simp: pop split: if_splits sum.splits prod.splits)
  then show "Upload minCount bulkCount m db = Some r \<Longrightarrow> r \<noteq> Inl (Exception what)"
    by (simp add: Upload_def)
qed

text \<open>So an operation that is started at the end of a handler is started whenever the handler returns.\<close>

lemma returns:
  assumes "nothrow m" and "keeps P m" and "bindE m f w = (w', r)" and "survives r"
  obtains a w1 where "P w w1" and "f a w1 = (w', r)"
proof -
  obtain w1 r1 where m: "m w = (w1, r1)" by (cases "m w")
  have "r1 \<noteq> Inl (Exception what)" for what using assms(1) m by (metis nothrow_def snd_conv)
  moreover have "r1 \<noteq> Inl (Undefined what)" for what using assms(3,4) by (auto simp: bindE_def m)
  ultimately obtain a where "r1 = Inr a" by (cases r1) (metis fault.exhaust, blast)
  with assms(3) have "f a w1 = (w', r)" by (simp add: bindE_def m)
  moreover have "P w w1" using assms(2) m by (rule keepsD)
  ultimately show ?thesis by (rule that [rotated])
qed

lemma rearms:
  assumes "bindE m (\<lambda>_. start_io op) w = (w', r)" and "nothrow m" and "survives r" and "keeps P m"
  obtains w1 where "P w w1" and "w' = w1\<lparr>pending := insert op (pending w1)\<rparr>"
  using assms(2,4,1,3) by (rule returns) (auto simp: start_io_apply)

section \<open>What waits for completion\<close>

text \<open>
  Between the completion of one accept and the start of the next, a handler may start other operations, never
  another accept, and no client object disappears.
\<close>

definition listens :: "world \<Rightarrow> world \<Rightarrow> bool" where
  "listens w w' \<longleftrightarrow> s_clientId (server w') = s_clientId (server w) \<and> pending w \<subseteq> pending w'
     \<and> (\<forall>cid. IoAccept cid \<in> pending w' \<longrightarrow> IoAccept cid \<in> pending w) \<and> (\<forall>cid. objs w cid \<noteq> None \<longrightarrow> objs w' cid \<noteq> None)"

interpretation listening: receive_relation listens
  by unfold_locales (auto simp: listens_def steady_objs_def)

definition timers :: "io_op set" where
  "timers = {UploadTimer, BlockCheckTimer, BlockNotifyTimer}"

text \<open>All timers run, and exactly one connection is awaited, by an object of its own.\<close>

definition listening_ok :: "world \<Rightarrow> bool" where
  "listening_ok w \<longleftrightarrow> timers \<subseteq> pending w
     \<and> (\<forall>cid. IoAccept cid \<in> pending w \<longleftrightarrow> cid = s_clientId (server w) - 1)
     \<and> objs w (s_clientId (server w) - 1) \<noteq> None"

lemma listening_kept: "listens w w' \<Longrightarrow> listening_ok w \<Longrightarrow> listening_ok w'"
  unfolding listens_def listening_ok_def by (metis subset_iff)

text \<open>A handler that was called for an operation, and has started it again.\<close>

lemma listening_rearmed:
  assumes "listens (finish_io op w) w1" and "w' = w1\<lparr>pending := insert op (pending w1)\<rparr>" and "listening_ok w"
    and "op \<notin> range IoAccept"
  shows "listening_ok w'"
proof (rule listening_kept [OF _ assms(3)])
  show "listens w w'" using assms(1,2,4) by (auto simp: listens_def)
qed

lemma StartAccept_apply:
  "StartAccept env w = (w\<lparr>server := (server w)\<lparr>s_clientId := s_clientId (server w) + 1\<rparr>,
     objs := (objs w)(s_clientId (server w) \<mapsto> Client_new env (s_clientId (server w))),
     pending := insert (IoAccept (s_clientId (server w))) (pending w)\<rparr>, Inr ())"
  by (simp add: StartAccept_def mod_server_def eff_simps del: fun_upd_apply)

lemma listening_accept:
  assumes "listens w0 w1" and "timers \<subseteq> pending w0" and "\<And>cid. IoAccept cid \<notin> pending w0"
    and "StartAccept env w1 = (w', r)"
  shows "listening_ok w'"
  using assms by (auto simp: StartAccept_apply listening_ok_def listens_def)


section \<open>The pool keeps listening\<close>

lemma start_listening:
  assumes "Server_Run env (world_new db) = (w, Inr ())"
  shows "listening_ok w"
proof -
  from Server_Run_parts [OF assms] obtain w1 where
    w1: "bindE NetworkMgr_Initialize (\<lambda>_. bindE (connect_loop env (BitcoinRPC (e_cfg env))) (\<lambda>_. BlockNotifyBind))
      ((world_new db)\<lparr>pending := {UploadTimer}\<rparr>) = (w1, Inr ())" and w: "StartAccept env w1 = (w, Inr ())" by blast
  let ?w0 = "(world_new db)\<lparr>pending := timers\<rparr>"
  let ?m = "bindE (connect_loop env (BitcoinRPC (e_cfg env))) (\<lambda>_. BlockNotifyBind)"
  have "NetworkMgr_Initialize ((world_new db)\<lparr>pending := {UploadTimer}\<rparr>) = (?w0, Inr ())"
    by (auto simp: NetworkMgr_Initialize_def BlockCheckTimerStart_def BlockNotifyTimerStart_def mod_net_def world_new_def
        timers_def bindE_def modE_def start_io_def)
  with w1 have "?m ?w0 = (w1, Inr ())" by (simp add: bindE_def [of NetworkMgr_Initialize])
  then have "listens ?w0 w1" by (rule keepsD [OF listening.cl_connect(2)])
  from listening_accept [OF this _ _ w] show ?thesis by (auto simp: timers_def world_new_def)
qed

lemma step_listening:
  assumes ok: "listening_ok w" and step: "sys_step ok_env w w'"
  shows "listening_ok w'"
  using step
proof (cases rule: sys_step.cases)
  case (sys_accept env cid err remote r)
  let ?w0 = "finish_io (IoAccept cid) w"
  have cid: "cid = s_clientId (server w) - 1" using sys_accept(2) ok by (simp add: listening_ok_def)
  let ?m = "if \<not> err then bindE (client_Start env cid remote) (\<lambda>started.
      if started then mod_server (\<lambda>s. s\<lparr>s_clients := insert cid (s_clients s)\<rparr>) else returnE ()) else returnE ()"
  have "nothrow ?m" by (intro nothrow_intros nothrow_Start nothrow_client)
  moreover have "keeps listens ?m"
    by (intro listening.keeps_intros listening.cl_Start) (auto simp: keeps_def mod_server_def modE_def listens_def)
  moreover have "bindE ?m (\<lambda>_. StartAccept env) ?w0 = (w', r)" using sys_accept(4) by (simp add: OnAccept_def)
  ultimately obtain w1 r1 where "listens ?w0 w1" "StartAccept env w1 = (w', r1)"
    using sys_accept(5) by (rule returns)
  from listening_accept [OF this(1) _ _ this(2)] show ?thesis
    using ok cid by (auto simp: listening_ok_def timers_def)
next
  case (sys_receive env cid ec bytes r)
  have "listens (finish_io (IoRead cid) w) w'" by (rule keepsD [OF listening.cl_OnReceive sys_receive(4)])
  moreover have "listening_ok (finish_io (IoRead cid) w)" using ok by (auto simp: listening_ok_def timers_def)
  ultimately show ?thesis by (rule listening_kept)
next
  case (sys_sent cid data ec r)
  show ?thesis by (rule listening_kept [OF keepsD [OF listening.cl_OnSend sys_sent(3)] ok])
next
  case (sys_task env ts t ts' r)
  have "listens (w\<lparr>posted := ts @ ts'\<rparr>) w'" by (rule keepsD [OF listening.cl_run_task sys_task(3)])
  then show ?thesis using listening_kept [of w w'] ok by (simp add: listens_def)
next
  case (sys_notify_timer env r)
  have "bindE (bindE (UpdateBlockTemplate env) (\<lambda>_. BlockNotifySend False)) (\<lambda>_. start_io BlockNotifyTimer)
      (finish_io BlockNotifyTimer w) = (w', r)"
    using sys_notify_timer(3) by (simp add: BlockNotifyTimerExpired_def BlockNotifyTimerStart_def bindE_assoc)
  then obtain w1 where "listens (finish_io BlockNotifyTimer w) w1" "w' = w1\<lparr>pending := insert BlockNotifyTimer (pending w1)\<rparr>"
    by (rule rearms [OF _ nothrow_bindE sys_notify_timer(4) listening.keeps_bindE])
      (rule nothrow_Update nothrow_Send listening.net_Update listening.net_Send)+
  then show ?thesis using ok by (rule listening_rearmed) auto
next
  case (sys_check_timer env r)
  have "bindE (BlockCheck env) (\<lambda>_. start_io BlockCheckTimer) (finish_io BlockCheckTimer w) = (w', r)"
    using sys_check_timer(3) by (simp add: BlockCheckTimerExpired_def BlockCheckTimerStart_def)
  then obtain w1 where "listens (finish_io BlockCheckTimer w) w1" "w' = w1\<lparr>pending := insert BlockCheckTimer (pending w1)\<rparr>"
    by (rule rearms [OF _ nothrow_BlockCheck sys_check_timer(4) listening.net_BlockCheck])
  then show ?thesis using ok by (rule listening_rearmed) auto
next
  case (sys_upload env r)
  then obtain m db where
    "w' = (finish_io UploadTimer w)\<lparr>dataMgr := m, database := db, pending := insert UploadTimer (pending w - {UploadTimer})\<rparr>"
    using Upload_no_exception
    by (auto simp: UploadTimerExpired_def UploadTimerStart_def start_io_apply split: option.splits sum.splits)
      (metis fault.exhaust survives.simps(1))
  then show ?thesis using ok by (auto simp: listening_ok_def)
next
  case (sys_database db)
  then show ?thesis using ok by (simp add: listening_ok_def)
qed

interpretation keeps_listening: invariant_system "sys_init ok" "sys_step ok" listening_ok for ok
  by unfold_locales (auto simp: sys_init_def intro: start_listening step_listening)


section \<open>A client that is not read any more\<close>

text \<open>A handler for one client starts no read of another.\<close>

definition reads_only :: "uint64 \<Rightarrow> world \<Rightarrow> world \<Rightarrow> bool" where
  "reads_only cid w w' \<longleftrightarrow> s_clientId (server w') = s_clientId (server w)
     \<and> (\<forall>c. c \<noteq> cid \<longrightarrow> IoRead c \<in> pending w' \<longrightarrow> IoRead c \<in> pending w)"

interpretation reading: line_relation "reads_only cid" for cid
  by unfold_locales (auto simp: reads_only_def)

lemma reads_start_io: "(\<And>c. op = IoRead c \<Longrightarrow> c = cid) \<Longrightarrow> keeps (reads_only cid) (start_io op)"
  unfolding start_io_def by (intro keeps_modE) (auto simp: reads_only_def)

lemma reads_handlers:
  "keeps (reads_only cid) (OnReceive env cid ec bytes)" "keeps (reads_only cid) (client_Start env cid remote)"
  "keeps (reads_only c) (BlockNotifyTimerExpired env)" "keeps (reads_only c) (BlockCheckTimerExpired env)"
  unfolding OnReceive_def client_Start_def BlockNotifyTimerExpired_def BlockCheckTimerExpired_def
    BlockNotifyTimerStart_def BlockCheckTimerStart_def StartRead_def
  by (intro reading.keeps_intros reading.cl_receive reading.cl_get_client reading.cl_Disconnect reading.cl_mod_client
      reading.cl_server reading.net_Update reading.net_Send reading.net_BlockCheck reads_start_io; simp)+

lemma reads_step:
  assumes ok: "listening_ok w" and step: "sys_step ok_env w w'"
    and c: "IoRead c \<notin> pending w" "c \<noteq> s_clientId (server w) - 1"
  shows "IoRead c \<notin> pending w' \<and> s_clientId (server w') \<in> {s_clientId (server w), s_clientId (server w) + 1}"
proof -
  have other: ?thesis if "reads_only cid w0 w'" "c \<noteq> cid" "server w0 = server w" "pending w0 \<subseteq> pending w" for cid w0
    using that c(1) by (auto simp: reads_only_def)
  note any = other [OF _ c(2)]
  show ?thesis using step
  proof (cases rule: sys_step.cases)
    case (sys_accept env cid err remote r)
    let ?m = "if \<not> err then bindE (client_Start env cid remote) (\<lambda>started.
        if started then mod_server (\<lambda>s. s\<lparr>s_clients := insert cid (s_clients s)\<rparr>) else returnE ()) else returnE ()"
    have "nothrow ?m" by (intro nothrow_intros nothrow_Start nothrow_client)
    moreover have "keeps (reads_only cid) ?m"
      by (intro reading.keeps_intros reads_handlers) (auto simp: keeps_def mod_server_def modE_def reads_only_def)
    moreover have "bindE ?m (\<lambda>_. StartAccept env) (finish_io (IoAccept cid) w) = (w', r)"
      using sys_accept(4) by (simp add: OnAccept_def)
    ultimately obtain w1 r1 where "reads_only cid (finish_io (IoAccept cid) w) w1" "StartAccept env w1 = (w', r1)"
      using sys_accept(5) by (rule returns)
    moreover have "c \<noteq> cid" using c(2) ok sys_accept(2) by (simp add: listening_ok_def)
    ultimately show ?thesis using c(1) by (auto simp: reads_only_def StartAccept_apply)
  next
    case (sys_receive env cid ec bytes r)
    then have "c \<noteq> cid" using c(1) by blast
    from other [OF keepsD [OF reads_handlers(1) sys_receive(4)] this] show ?thesis by simp
  next
    case (sys_sent cid data ec r)
    from any [OF keepsD [OF reading.cl_OnSend sys_sent(3)]] show ?thesis by simp
  next
    case (sys_task env ts t ts' r)
    from any [OF keepsD [OF reading.cl_run_task sys_task(3)]] show ?thesis by simp
  next
    case (sys_notify_timer env r)
    from any [OF keepsD [OF reads_handlers(3) sys_notify_timer(3)]] show ?thesis by simp
  next
    case (sys_check_timer env r)
    from any [OF keepsD [OF reads_handlers(4) sys_check_timer(3)]] show ?thesis by simp
  next
    case (sys_upload env r)
    then have "reads_only (s_clientId (server w) - 1) (finish_io UploadTimer w) w'"
      by (auto simp: reads_only_def UploadTimerExpired_def UploadTimerStart_def start_io_apply split: option.splits sum.splits)
    from any [OF this] show ?thesis by simp
  next
    case (sys_database db)
    then show ?thesis using c(1) by simp
  qed
qed

text \<open>Numbers are given to clients in order, so the number of an old client does not come back soon.\<close>

lemma never_read_again:
  "(sys_step ok_env ^^ n) w w' \<Longrightarrow> listening_ok w \<Longrightarrow> IoRead c \<notin> pending w \<Longrightarrow> unat c + 1 < unat (s_clientId (server w)) \<Longrightarrow>
   unat (s_clientId (server w)) + n < 2 ^ 64 \<Longrightarrow> IoRead c \<notin> pending w'"
proof (induction n arbitrary: w)
  case (Suc n)
  then obtain w1 where w1: "sys_step ok_env w w1" "(sys_step ok_env ^^ n) w1 w'" by (meson relpowp_Suc_E2)
  let ?s = "s_clientId (server w)"
  have fits: "unat (?s + 1) = unat ?s + 1" using Suc.prems(5) by (subst unat_plus_fits) simp_all
  have "c \<noteq> ?s - 1"
  proof
    assume "c = ?s - 1"
    then have s: "?s = c + 1" by simp
    have "unat (c + 1) \<le> unat c + 1" by (simp add: unat_word_ariths)
    then show False using Suc.prems(4) unfolding s by simp
  qed
  from reads_step [OF Suc.prems(2) w1(1) Suc.prems(3) this] show ?case
    using fits Suc.prems(4,5) by (intro Suc.IH [OF w1(2) step_listening [OF Suc.prems(2) w1(1)]]) auto
qed simp


section \<open>Properties\<close>


lemma accept_state:
  assumes "objs w cid = Some c" and "cid \<noteq> s_clientId (server w)" and "\<not> banned_in (e_now env) ip (s_bans (server w))"
  shows "OnAccept env cid False (Inr ip) (finish_io (IoAccept cid) w)
    = (w\<lparr>server := (server w)\<lparr>s_clients := insert cid (s_clients (server w)), s_clientId := s_clientId (server w) + 1\<rparr>,
        objs := (objs w)(cid \<mapsto> c\<lparr>c_ip := ip\<rparr>, s_clientId (server w) \<mapsto> Client_new env (s_clientId (server w))),
        pending := insert (IoAccept (s_clientId (server w))) (insert (IoRead cid) (pending w - {IoAccept cid}))\<rparr>, Inr ())"
proof -
  let ?w0 = "finish_io (IoAccept cid) w"
  have "client_Start env cid (Inr ip) ?w0
      = (?w0\<lparr>objs := (objs w)(cid \<mapsto> c\<lparr>c_ip := ip\<rparr>), pending := insert (IoRead cid) (pending ?w0)\<rparr>, Inr True)"
    using assms(1,3)
    by (simp add: client_Start_def tryE_def IsBanned_def StartRead_def bindE_lift bindE_mod_client bindE_get
        bindE_def [of "start_io _"] start_io_apply returnE_apply del: fun_upd_apply)
  with assms(2) show ?thesis
    by (simp add: OnAccept_def bindE_assoc bindE_def [of "client_Start env cid (Inr ip)"] mod_server_def bindE_mod
        StartAccept_apply finish_io_def del: fun_upd_apply)
qed

lemma accept_step:
  assumes "objs w cid = Some c" and "cid = s_clientId (server w) - 1" and "\<not> banned_in (e_now env) ip (s_bans (server w))"
  shows "\<exists>w'. OnAccept env cid False (Inr ip) (finish_io (IoAccept cid) w) = (w', Inr ())
    \<and> cid \<in> s_clients (server w') \<and> IoRead cid \<in> pending w' \<and> objs w' cid = Some (c\<lparr>c_ip := ip\<rparr>)
    \<and> s_clientId (server w') = s_clientId (server w) + 1 \<and> s_clients (server w') = insert cid (s_clients (server w))
    \<and> net w' = net w \<and> posted w' = posted w \<and> s_currentWork (server w') = s_currentWork (server w)
    \<and> dataMgr w' = dataMgr w \<and> database w' = database w"
proof -
  have "cid \<noteq> s_clientId (server w)" using assms(2) by simp
  with accept_state [OF assms(1) this assms(3)] show ?thesis by - (rule exI, rule conjI, assumption, simp)
qed

text \<open>
  C16. A miner can always connect: in every state the pool can reach, the next connection from an address
  that is not banned is accepted in one step. Afterwards its client is in the server's set, carries the
  address, is read from, and the next connection is awaited.
\<close>

theorem miner_can_connect:
  assumes "reach (sys_init ok) (sys_step ok) w" and "ok env" and "\<not> banned_in (e_now env) ip (s_bans (server w))"
  shows "\<exists>w' cid c. sys_step ok w w' \<and> cid \<in> s_clients (server w') \<and> IoRead cid \<in> pending w'
    \<and> objs w' cid = Some c \<and> c_ip c = ip \<and> IoAccept (cid + 1) \<in> pending w'"
proof -
  have ok: "listening_ok w" by (rule keeps_listening.reach_inv [OF assms(1)])
  let ?cid = "s_clientId (server w) - 1"
  obtain c where c: "objs w ?cid = Some c" and io: "IoAccept ?cid \<in> pending w" using ok by (auto simp: listening_ok_def)
  obtain w' where w': "OnAccept env ?cid False (Inr ip) (finish_io (IoAccept ?cid) w) = (w', Inr ())"
    "?cid \<in> s_clients (server w')" "IoRead ?cid \<in> pending w'" "objs w' ?cid = Some (c\<lparr>c_ip := ip\<rparr>)"
    "s_clientId (server w') = s_clientId (server w) + 1"
    using accept_step [OF c refl assms(3)] by blast
  have step: "sys_step ok w w'" using assms(2) io _ w'(1) by (rule sys_accept) (simp_all add: c)
  have "IoAccept (?cid + 1) \<in> pending w'" using step_listening [OF ok step] w'(5) by (simp add: listening_ok_def)
  then show ?thesis using step w'(2-4) by (intro exI [of _ w'] exI [of _ ?cid] exI [of _ "c\<lparr>c_ip := ip\<rparr>"]) simp
qed


section \<open>A small instance\<close>

text \<open>The first miner connects.\<close>

lemma sample_connects:
  "\<exists>w. reach (sys_init (env_ok (e_sha sample_env) (ASCIIToBin ''00''))) (sys_step (env_ok (e_sha sample_env) (ASCIIToBin ''00''))) w
    \<and> 0 \<in> s_clients (server w) \<and> IoRead 0 \<in> pending w \<and> s_clientId (server w) = 2"
proof -
  have start: "s_clientId (server sample_start) = 1" "IoAccept 0 \<in> pending sample_start" "s_bans (server sample_start) = []"
    using keeps_listening.reach_inv [OF sample_start_reach] sample_start_server by (simp_all add: listening_ok_def)
  obtain w' where w': "OnAccept sample_env 0 False (Inr 7) (finish_io (IoAccept 0) sample_start) = (w', Inr ())"
    "0 \<in> s_clients (server w')" "IoRead 0 \<in> pending w'" "objs w' 0 = Some ((Client_new sample_env 0)\<lparr>c_ip := 7\<rparr>)"
    "s_clientId (server w') = 2"
    using accept_step [OF sample_start_eq(2), of sample_env 7] start by auto
  have "sys_step (env_ok (e_sha sample_env) (ASCIIToBin ''00'')) sample_start w'"
    using sample_env_ok start(2) _ w'(1) by (rule sys_accept) (simp_all add: sample_start_eq)
  with sample_start_reach have "reach (sys_init (env_ok (e_sha sample_env) (ASCIIToBin ''00'')))
      (sys_step (env_ok (e_sha sample_env) (ASCIIToBin ''00''))) w'" by (rule reach_step)
  with w'(2-5) show ?thesis by blast
qed


theorem miner_can_connect_witness:
  "\<exists>w' cid c. sys_step (env_ok (e_sha sample_env) (ASCIIToBin ''00'')) sample_start w' \<and> cid \<in> s_clients (server w')
    \<and> IoRead cid \<in> pending w' \<and> objs w' cid = Some c \<and> c_ip c = 7 \<and> IoAccept (cid + 1) \<in> pending w'"
  by (rule miner_can_connect [OF sample_start_reach sample_env_ok]) (simp add: sample_start_server)


end
