(* ===== verification/Ledger.thy ===== *)
theory Ledger
  imports System_Props
begin

text \<open>
  What the whole pool promises about shares, as an abstract machine: a ledger to which shares are only
  added, in which every good share is backed by a proof of work, and of which a growing part has been
  handed to the database. The running pool refines it.
\<close>

section \<open>The abstract machine\<close>

text \<open>
  A share is backed when some block that pays the pool has a hash so small that the difficulty of the
  share was worth it.
\<close>

definition backed :: "hash_fn \<Rightarrow> BinaryData \<Rightarrow> Share \<Rightarrow> bool" where
  "backed sha pk s \<longleftrightarrow> 0 < share_diff s
     \<and> (\<exists>block h v x txs. int (unat (share_diff s)) * hash_number sha block \<le> max_target
         \<and> blk_tx block = coinbase_with h pk v x # txs \<and> length x = 8
         \<and> blk_merkleRootHash block = merkle_root sha (map (tx_GetHash sha) (blk_tx block)))"

record ledger =
  recorded :: "Share list"
  uploaded :: nat

inductive ledger_step :: "hash_fn \<Rightarrow> BinaryData \<Rightarrow> ledger \<Rightarrow> ledger \<Rightarrow> bool" for sha pk where
  ledger_record: "(share_result s \<Longrightarrow> backed sha pk s) \<Longrightarrow> ledger_step sha pk l (l\<lparr>recorded := recorded l @ [s]\<rparr>)"
| ledger_upload: "uploaded l \<le> n \<Longrightarrow> n \<le> length (recorded l) \<Longrightarrow> ledger_step sha pk l (l\<lparr>uploaded := n\<rparr>)"

definition ledger_init :: "ledger \<Rightarrow> bool" where
  "ledger_init l \<longleftrightarrow> recorded l = [] \<and> uploaded l = 0"

lemma ledger_records:
  "(\<And>s. s \<in> set ss \<Longrightarrow> share_result s \<Longrightarrow> backed sha pk s) \<Longrightarrow> (ledger_step sha pk)\<^sup>*\<^sup>* l (l\<lparr>recorded := recorded l @ ss\<rparr>)"
proof (induction ss rule: rev_induct)
  case (snoc s ss)
  have "(ledger_step sha pk)\<^sup>*\<^sup>* l (l\<lparr>recorded := recorded l @ ss\<rparr>)" using snoc by simp
  moreover have "ledger_step sha pk (l\<lparr>recorded := recorded l @ ss\<rparr>) (l\<lparr>recorded := recorded l @ ss @ [s]\<rparr>)"
    using ledger_record [of s sha pk "l\<lparr>recorded := recorded l @ ss\<rparr>"] snoc.prems [of s] by simp
  ultimately show ?case by (rule rtranclp.rtrancl_into_rtrancl)
qed simp

section \<open>What a handler does to the books\<close>

definition same_books :: "world \<Rightarrow> world \<Rightarrow> bool" where
  "same_books w w' \<longleftrightarrow> dataMgr w' = dataMgr w \<and> database w' = database w"

interpretation books: system_relation same_books
  by unfold_locales (simp_all add: same_books_def)

interpretation books_sessions: session_relation same_books
  by unfold_locales (simp_all add: same_books_def)

lemma Server_Run_books:
  assumes "Server_Run env (world_new db) = (w, Inr ())"
  shows "datastore (dataMgr w) = [] \<and> database w = db"
proof -
  from Server_Run_parts [OF assms] obtain w1 where
    w1: "bindE NetworkMgr_Initialize (\<lambda>_. bindE (connect_loop env (BitcoinRPC (e_cfg env))) (\<lambda>_. BlockNotifyBind))
      ((world_new db)\<lparr>pending := {UploadTimer}\<rparr>) = (w1, Inr ())" and w: "StartAccept env w1 = (w, Inr ())" by blast
  have "same_books ((world_new db)\<lparr>pending := {UploadTimer}\<rparr>) w"
    using keepsD [OF books.keeps_bindE [OF books.cl_connect] w1] keepsD [OF books.cl_StartAccept w] by (rule books.kept_trans)
  then show ?thesis by (simp add: same_books_def world_new_def)
qed

text \<open>Every handler only adds to what has been queued for the database.\<close>

definition queue_grows :: "world \<Rightarrow> world \<Rightarrow> bool" where
  "queue_grows w w' \<longleftrightarrow> (\<exists>qs. queued (database w') = queued (database w) @ qs)"

interpretation growing: share_relation queue_grows
  by unfold_locales (auto simp: queue_grows_def ExecuteAsync_def)

text \<open>The books grow: shares are added at the end, the good ones among them backed.\<close>

definition grows :: "hash_fn \<Rightarrow> BinaryData \<Rightarrow> world \<Rightarrow> world \<Rightarrow> bool" where
  "grows sha pk w w' \<longleftrightarrow>
     (\<exists>ss. datastore (dataMgr w') = datastore (dataMgr w) @ ss \<and> (\<forall>s \<in> set ss. share_result s \<longrightarrow> backed sha pk s))
     \<and> queue_grows w w'"

lemma grows_refl: "grows sha pk w w"
  by (simp add: grows_def queue_grows_def)

lemma grows_trans:
  assumes "grows sha pk w w1" and "grows sha pk w1 w2"
  shows "grows sha pk w w2"
proof -
  from assms obtain ss ss' where
    "datastore (dataMgr w1) = datastore (dataMgr w) @ ss" "datastore (dataMgr w2) = datastore (dataMgr w1) @ ss'"
    "\<forall>s \<in> set (ss @ ss'). share_result s \<longrightarrow> backed sha pk s" unfolding grows_def by fastforce
  then have "datastore (dataMgr w2) = datastore (dataMgr w) @ (ss @ ss')" by simp
  moreover have "queue_grows w w2" using assms growing.kept_trans by (auto simp: grows_def)
  ultimately show ?thesis
    using \<open>\<forall>s \<in> set (ss @ ss'). share_result s \<longrightarrow> backed sha pk s\<close> unfolding grows_def by blast
qed

lemma grows_same: "same_books w w' \<Longrightarrow> grows sha pk w w'"
  by (auto simp: same_books_def grows_def queue_grows_def)

lemma Submit_grows:
  assumes env: "env_ok sha pk env" and w: "world_ok sha pk w"
  shows "grows sha pk w (fst (OnMiningSubmit env cid msg w))"
proof (cases "objs w cid")
  case None
  have "fst (OnMiningSubmit env cid msg w) = w"
    by (simp add: OnMiningSubmit_def bindE_lift bindE_def [of "get_client cid"] get_client_def None split: sum.split)
  then show ?thesis by (simp add: grows_refl)
next
  case (Some c)
  have queue: "queue_grows w (fst (OnMiningSubmit env cid msg w))"
    using growing.cl_Submit by (simp add: keeps_def)
  show ?thesis
  proof (cases "get_field ''params'' msg")
    case (Inl e)
    then have "fst (OnMiningSubmit env cid msg w) = w" by (simp add: OnMiningSubmit_def eff_simps)
    then show ?thesis by (simp add: grows_refl)
  next
    case (Inr params)
    have c: "client_ok sha pk c" using w Some by (auto simp: world_ok_def)
    have "backed sha pk s" if "share_checked env c params s" for s
    proof -
      from checked_share_is_work [OF env c that] obtain block h v e2 txs where
        "0 < share_diff s" "int (unat (share_diff s)) * hash_number sha block \<le> max_target"
        "blk_tx block = coinbase_with h pk v (word_bytes (c_extranonce c) @ e2) # txs" "length e2 = 4"
        "blk_merkleRootHash block = merkle_root sha (map (tx_GetHash sha) (blk_tx block))" by blast
      moreover from this(4) have "length (word_bytes (c_extranonce c) @ e2) = 8" by simp
      ultimately show ?thesis unfolding backed_def by blast
    qed
    with OnMiningSubmit_pushes [OF Some Inr, of env] queue show ?thesis
      unfolding grows_def pushes_def by blast
  qed
qed

section \<open>Received data\<close>

text \<open>The invariant of the pool, together with the growth of the books since the state \<open>w0\<close>.\<close>

definition growing_ok :: "hash_fn \<Rightarrow> BinaryData \<Rightarrow> world \<Rightarrow> world \<Rightarrow> bool" where
  "growing_ok sha pk w0 w \<longleftrightarrow> world_ok sha pk w \<and> grows sha pk w0 w"

lemma pres_growing:
  assumes "pres (world_ok sha pk) m" and "\<And>w. world_ok sha pk w \<Longrightarrow> grows sha pk w (fst (m w))"
  shows "pres (growing_ok sha pk w0) m"
  using assms grows_trans unfolding pres_def growing_ok_def by blast

lemma pres_books:
  assumes "pres (world_ok sha pk) m" and "keeps same_books m"
  shows "pres (growing_ok sha pk w0) m"
  using assms by (intro pres_growing) (auto simp: keeps_def intro: grows_same)

lemma pres_growing_client:
  assumes "\<And>c. client_ok sha pk c \<Longrightarrow> client_ok sha pk (f c)"
  shows "pres (growing_ok sha pk w0) (mod_client cid f)"
  using assms by (intro pres_books pres_mod_client books_sessions.cl_any_client)

lemma pres_growing_get: "pres (growing_ok sha pk w0) (get_client cid)"
  by (intro pres_books books.cl_get_client) (auto simp: pres_def get_client_def split: option.splits)

lemma OnReceive_grows:
  assumes env: "env_ok sha pk env"
  shows "pres (growing_ok sha pk w0) (OnReceive env cid ec bytes)"
proof -
  have message: "pres (growing_ok sha pk w0) (OnMessage env cid msg)" for msg
    unfolding OnMessage_def
    by (intro pres_bind_lift pres_prod pres_if pres_returnE
        pres_growing [OF pres_OnMiningSubmit] Submit_grows env
        pres_books [OF pres_OnMiningSubscribe books_sessions.cl_subscribe]
        pres_books [OF pres_OnMiningAuthorize books.cl_authorize])
  have redirect: "pres (growing_ok sha pk w0) (RedirectGetwork env cid)"
    unfolding RedirectGetwork_def
    by (intro pres_books keeps_modE books.wire_ok pres_other) simp
  have line: "pres (growing_ok sha pk w0) (on_line env cid)"
    unfolding on_line_def
    by (intro pres_seq pres_growing_get pres_if redirect pres_returnE pres_tryE pres_bind_lift message
        pres_growing_client) (simp add: client_ok_def)
  have loop: "pres (growing_ok sha pk w0) (receive_loop env cid s)" for s
    by (induction s) (auto intro!: pres_returnE pres_seq line pres_growing_client simp: client_ok_def)
  have "pres (growing_ok sha pk w0) (client_Disconnect cid)"
    by (rule pres_books [OF pres_Disconnect books.cl_Disconnect])
  then show ?thesis
    unfolding OnReceive_def
    by (intro pres_if pres_seq loop pres_growing_get pres_returnE pres_books [OF pres_start_io(2) books.cl_start_io(1)])
qed

section \<open>The refinement\<close>

text \<open>What is queued for the database: bulk queries with shares, and everything else.\<close>

datatype entry = Bulk "Share list" | Other string

primrec entry_text :: "entry \<Rightarrow> string" where
  "entry_text (Bulk c) = c_str (bulk_query c)"
| "entry_text (Other q) = q"

primrec entry_shares :: "entry \<Rightarrow> Share list" where
  "entry_shares (Bulk c) = c"
| "entry_shares (Other q) = []"

text \<open>
  The pool and the ledger: the shares that have been handed over are, in order, those in the queries
  that were queued, and the others are in the store.
\<close>

definition queue_holds :: "string list \<Rightarrow> Share list \<Rightarrow> bool" where
  "queue_holds qs ss \<longleftrightarrow> (\<exists>es. qs = map entry_text es \<and> concat (map entry_shares es) = ss)"

lemma queue_holds_Other: "queue_holds qs ss \<Longrightarrow> queue_holds (qs @ qs') ss"
  and queue_holds_Bulk: "queue_holds qs ss \<Longrightarrow> queue_holds (qs @ map (\<lambda>c. c_str (bulk_query c)) cs) (ss @ concat cs)"
proof -
  have "concat (map entry_shares (map Other qs')) = []" "map entry_text (map Other qs') = qs'"
    by (induction qs') simp_all
  then show "queue_holds qs ss \<Longrightarrow> queue_holds (qs @ qs') ss"
    unfolding queue_holds_def by (metis append.right_neutral concat_append map_append)
  have "concat (map entry_shares (map Bulk cs)) = concat cs"
      "map entry_text (map Bulk cs) = map (\<lambda>c. c_str (bulk_query c)) cs"
    by (induction cs) simp_all
  then show "queue_holds qs ss \<Longrightarrow> queue_holds (qs @ map (\<lambda>c. c_str (bulk_query c)) cs) (ss @ concat cs)"
    unfolding queue_holds_def by (metis concat_append map_append)
qed

definition books_of :: "hash_fn \<Rightarrow> BinaryData \<Rightarrow> world \<Rightarrow> ledger \<Rightarrow> bool" where
  "books_of sha pk w l \<longleftrightarrow> world_ok sha pk w \<and> uploaded l \<le> length (recorded l)
     \<and> datastore (dataMgr w) = drop (uploaded l) (recorded l)
     \<and> queue_holds (queued (database w)) (take (uploaded l) (recorded l))"

lemma books_grow:
  assumes "books_of sha pk w l" and "grows sha pk w w'" and "world_ok sha pk w'"
  shows "\<exists>l'. (ledger_step sha pk)\<^sup>*\<^sup>* l l' \<and> books_of sha pk w' l'"
proof -
  from assms(2) obtain ss qs where ss: "datastore (dataMgr w') = datastore (dataMgr w) @ ss"
      "\<And>s. s \<in> set ss \<Longrightarrow> share_result s \<Longrightarrow> backed sha pk s"
    and qs: "queued (database w') = queued (database w) @ qs" unfolding grows_def queue_grows_def by blast
  let ?l = "l\<lparr>recorded := recorded l @ ss\<rparr>"
  have "books_of sha pk w' ?l"
    using assms(1,3) ss(1) qs queue_holds_Other unfolding books_of_def by auto
  with ledger_records [OF ss(2)] show ?thesis by blast
qed

lemma books_upload:
  assumes "books_of sha pk w l" and "UploadTimerExpired env w = Some (w', r)" and "world_ok sha pk w'"
  shows "\<exists>l'. (ledger_step sha pk)\<^sup>*\<^sup>* l l' \<and> books_of sha pk w' l'"
proof (cases "w' = w")
  case True
  then show ?thesis using assms(1) by blast
next
  case False
  then obtain m db where run: "Upload (ShareUploadMinCount (e_cfg env)) (ShareUploadBulkCount (e_cfg env)) (dataMgr w) (database w)
      = Some (Inr (m, db))" and w': "w' = w\<lparr>dataMgr := m, database := db, pending := insert UploadTimer (pending w)\<rparr>"
    using assms(2) by (auto simp: UploadTimerExpired_def UploadTimerStart_def start_io_apply split: option.splits sum.splits)
  from Upload_moves [OF run] obtain cs where cs: "datastore (dataMgr w) = concat cs @ datastore m"
      "queued db = queued (database w) @ map (\<lambda>c. c_str (bulk_query c)) cs" by blast
  from assms(1) have holds: "queue_holds (queued (database w)) (take (uploaded l) (recorded l))"
    and up: "uploaded l \<le> length (recorded l)" and store: "datastore (dataMgr w) = drop (uploaded l) (recorded l)"
    by (auto simp: books_of_def)
  let ?n = "uploaded l + length (concat cs)"
  let ?l = "l\<lparr>uploaded := ?n\<rparr>"
  have rec: "recorded l = (take (uploaded l) (recorded l) @ concat cs) @ datastore m"
    using store cs(1) append_take_drop_id [of "uploaded l" "recorded l"] by simp
  have len: "length (take (uploaded l) (recorded l) @ concat cs) = ?n" using up by simp
  with rec have parts: "take ?n (recorded l) = take (uploaded l) (recorded l) @ concat cs" "drop ?n (recorded l) = datastore m"
    by (metis append_eq_conv_conj)+
  have n: "?n \<le> length (recorded l)" using len rec by (metis le_add1 length_append)
  have "books_of sha pk w' ?l"
    using assms(3) n queue_holds_Bulk [OF holds, of cs] unfolding books_of_def w' by (simp add: parts cs(2))
  moreover have "ledger_step sha pk l ?l" using n by (intro ledger_upload) simp_all
  ultimately show ?thesis by blast
qed

lemma database_grows: "pool_step db db' \<Longrightarrow> grows sha pk w (w\<lparr>database := db'\<rparr>)" if "database w = db"
  using that
  by (auto elim!: pool_stepE simp: grows_def queue_grows_def ExecuteAsync_def pool_Stop_def worker_Dequeue_def
      worker_Execute_def split: if_splits option.splits worker.splits)

lemma books_finish [simp]:
  "same_books (finish_io op w) w' \<longleftrightarrow> same_books w w'" "grows sha pk (finish_io op w) w' \<longleftrightarrow> grows sha pk w w'"
  "books_of sha pk (finish_io op w) l \<longleftrightarrow> books_of sha pk w l"
  by (simp_all add: same_books_def grows_def queue_grows_def books_of_def)

lemma step_books:
  assumes step: "sys_step (env_ok sha pk) w w'" and w: "world_ok sha pk w"
  shows "grows sha pk w w' \<or> (\<exists>env op r. UploadTimerExpired env (finish_io op w) = Some (w', r))"
  using step
proof (cases rule: sys_step.cases)
  case (sys_receive env cid ec bytes r)
  have "growing_ok sha pk w (finish_io (IoRead cid) w)"
    using w grows_refl [of sha pk "finish_io (IoRead cid) w"] grows_same [of w] by (simp add: growing_ok_def same_books_def)
  from presD [OF OnReceive_grows [OF sys_receive(1)] this sys_receive(4)] show ?thesis by (simp add: growing_ok_def)
next
  case (sys_task env ts t ts' r)
  from keepsD [OF books.cl_run_task sys_task(3)] show ?thesis by (auto simp: same_books_def intro!: grows_same)
next
  case (sys_database db)
  then show ?thesis using database_grows by blast
next
  case (sys_accept env cid err remote r)
  from keepsD [OF books.cl_OnAccept sys_accept(4)] show ?thesis by (intro disjI1 grows_same) simp
next
  case (sys_sent cid ec r)
  from keepsD [OF books.cl_OnSend sys_sent(3)] show ?thesis by (intro disjI1 grows_same)
next
  case (sys_notify_timer env r)
  from keepsD [OF books.cl_timers(1) sys_notify_timer(3)] show ?thesis by (intro disjI1 grows_same) simp
next
  case (sys_check_timer env r)
  from keepsD [OF books.cl_timers(2) sys_check_timer(3)] show ?thesis by (intro disjI1 grows_same) simp
next
  case (sys_upload env r)
  then show ?thesis by blast
qed

interpretation ledger: simulation "sys_init (env_ok sha pk)" "sys_step (env_ok sha pk)" ledger_init "ledger_step sha pk"
  "books_of sha pk" for sha pk
proof
  fix w assume "sys_init (env_ok sha pk) w"
  then obtain env db where run: "env_ok sha pk env" "pool_init db" "Server_Run env (world_new db) = (w, Inr ())"
    by (auto simp: sys_init_def)
  from Server_Run_books [OF run(3)] have "datastore (dataMgr w) = []" "queued (database w) = []"
    using run(2) by (simp_all add: pool_init_def)
  then have "books_of sha pk w \<lparr>recorded = [], uploaded = 0\<rparr>"
    using Server_Run_ok [OF run(1,3)] by (simp add: books_of_def queue_holds_def)
  then show "\<exists>l. ledger_init l \<and> books_of sha pk w l"
    by (intro exI [of _ "\<lparr>recorded = [], uploaded = 0\<rparr>"]) (simp add: ledger_init_def)
next
  fix w l w' assume l: "books_of sha pk w l" and step: "sys_step (env_ok sha pk) w w'"
  from l have w: "world_ok sha pk w" by (simp add: books_of_def)
  from pool.step_inv [OF w step] have w': "world_ok sha pk w'" .
  have "books_of sha pk (finish_io op w) l" for op using l by simp
  with step_books [OF step w] show "\<exists>l'. (ledger_step sha pk)\<^sup>*\<^sup>* l l' \<and> books_of sha pk w' l'"
    using books_grow [OF l _ w'] books_upload [OF _ _ w'] by metis
qed

section \<open>What holds of the ledger\<close>

text \<open>Good shares in the ledger are backed, and nothing is ever taken out of it.\<close>

definition ledger_ok :: "hash_fn \<Rightarrow> BinaryData \<Rightarrow> ledger \<Rightarrow> bool" where
  "ledger_ok sha pk l \<longleftrightarrow> uploaded l \<le> length (recorded l) \<and> (\<forall>s \<in> set (recorded l). share_result s \<longrightarrow> backed sha pk s)"

inductive_cases ledger_stepE: "ledger_step sha pk l l'"

interpretation ledger_inv: invariant_system ledger_init "ledger_step sha pk" "ledger_ok sha pk" for sha pk
  by unfold_locales (auto simp: ledger_init_def ledger_ok_def elim!: ledger_stepE)

lemma ledger_append_only:
  "(ledger_step sha pk)\<^sup>*\<^sup>* l l' \<Longrightarrow> \<exists>ss. recorded l' = recorded l @ ss \<and> uploaded l \<le> uploaded l'"
proof (induction rule: rtranclp_induct)
  case (step l1 l2)
  then obtain ss where "recorded l1 = recorded l @ ss" "uploaded l \<le> uploaded l1" by blast
  with step.hyps(2) show ?case by (elim ledger_stepE) auto
qed simp

end
