(* ===== verification/Program.thy ===== *)
theory Program
  imports Configuration Ledger
begin

text \<open>
  The whole program: \<^verbatim>\<open>main\<close> (\<open>poolserver/Main.cpp\<close>), \<^verbatim>\<open>Server::Run\<close> and \<^verbatim>\<open>~Server\<close> (\<open>Server/Server.cpp\<close>),
  \<^verbatim>\<open>~Stratum::Server\<close> (\<open>Stratum/Server.h\<close>). It puts the configuration, the log, the database and the
  pool together: what \<^verbatim>\<open>main\<close> leaves running is an initial state of the system of \<open>Pool_System\<close>.
\<close>

section \<open>Starting and stopping\<close>

text \<open>
  What the program finds outside: Boost's options, its comparison of texts, MySQL, the text of the date, the values of
  uninitialised variables, and the environment of the pool apart from its options.
\<close>

record machine =
  m_po :: program_options
  m_iequals :: "string \<Rightarrow> string \<Rightarrow> bool"
  m_sync_libs :: "nat \<Rightarrow> mysql_lib"
  m_async_libs :: "nat \<Rightarrow> mysql_lib"
  m_date :: string
  m_timestamp :: string
  m_junk :: uint32
  m_junk16 :: uint16
  m_junkd :: double
  m_env :: env

definition program_env :: "machine \<Rightarrow> variables_map \<Rightarrow> env" where
  "program_env m vm = (m_env m)\<lparr>e_cfg := Config_of (m_junk m) (m_junk16 m) (m_junkd m) vm\<rparr>"

text \<open>Every asynchronous connection has started its thread, which waits at the queue of the pool.\<close>

definition database_threads :: "DatabaseWorkerPool \<Rightarrow> string pool" where
  "database_threads p = \<lparr>asyncQueue = SynchronisedQueue_new, workers = replicate (length (wp_async p)) Waiting,
     queued = [], taken = [], executed = []\<rparr>"

text \<open>
  The destructor of the stratum server walks through the set from which \<^verbatim>\<open>Disconnect\<close> removes the element the
  iterator points to.
\<close>

definition delete_stratum_server :: "unit action" where
  "delete_stratum_server =
     bindE (getE (\<lambda>w. sorted_list_of_set (s_clients (server w)))) (\<lambda>ids.
     case ids of
       [] \<Rightarrow> returnE ()
     | cid # _ \<Rightarrow> bindE (client_Disconnect cid) (\<lambda>_. liftE (Inl (Undefined ''iterator of an erased element''))))"

text \<open>How the program ends, or that its worker threads serve the pool.\<close>

datatype outcome =
    Died fault
  | Stopped nat
  | Serving nat DatabaseWorkerPool world

text \<open>
  \<^verbatim>\<open>Run\<close>: without worker threads the joining ends at once, and the database is closed. Then \<^verbatim>\<open>main\<close> deletes the
  server and returns, and the static pool of connections is destroyed.
\<close>

definition run_server :: "machine \<Rightarrow> variables_map \<Rightarrow> outcome" where
  "run_server m vm =
     (case InitDatabase (m_iequals m) (m_sync_libs m) (m_async_libs m) (m_junk m) (DatabaseConfig_of (m_junk16 m) vm)
         \<lparr>wp_sync = [], wp_async = [], wp_connectionInfo = \<lparr>ci_Host = [], ci_Port = m_junk16 m, ci_User = [], ci_Pass = [], ci_DB = []\<rparr>\<rparr> of
        (p, Inl e) \<Rightarrow> Died e
      | (p, Inr _) \<Rightarrow>
          (case Server_Run (program_env m vm) (world_new (database_threads p)) of
             (w, Inl e) \<Rightarrow> Died e
           | (w, Inr _) \<Rightarrow>
               let threads = unat (Get_uint32 (m_junk m) vm ''ServerThreads'') in
               if threads \<noteq> 0 then Serving threads p w
               else
                 let w = w\<lparr>database := pool_Stop (database w)\<rparr> in
                 (case wp_Close p of
                    Inl e \<Rightarrow> Died e
                  | Inr p \<Rightarrow>
                      (case delete_stratum_server w of
                         (_, Inl e) \<Rightarrow> Died e
                       | (_, Inr _) \<Rightarrow> (case wp_delete p of Inl e \<Rightarrow> Died e | Inr _ \<Rightarrow> Stopped 0)))))"

definition program_main :: "machine \<Rightarrow> string list \<Rightarrow> Log \<times> outcome" where
  "program_main m argv =
     (let logs = \<lparr>logfile = None, file_lines = [], console = []\<rparr> in
      case InitConfig (m_po m) argv Map.empty of
        (vm, Inl e) \<Rightarrow> (logs, Died e)
      | (vm, Inr False) \<Rightarrow> (logs, Stopped 0)
      | (vm, Inr True) \<Rightarrow>
          let logs = OpenLogFile (m_date m) (Get_text vm ''LogFilePath'') logs;
              logs = Info (LogConfig_of (m_junk m) vm) (m_timestamp m) LOG_GENERAL
                [''LogFile Started: '', c_str (the (logfile logs))] logs
          in (logs, run_server m vm))"

lemma logging_starts: "logfile (Info cfg t ty parts (OpenLogFile date path logs)) \<noteq> None"
proof -
  have "logfile (Write cfg t level ty msg x) = logfile x" for level msg x using Write_filter by blast
  then show ?thesis by (simp add: Info_def log_message_def OpenLogFile_def)
qed

text \<open>
  A program that has connected to its database never comes to an orderly end: its connections are deleted by
  \<^verbatim>\<open>Run\<close>, and again by the destructor of the pool.
\<close>

lemma no_orderly_end:
  assumes "run_server m vm = Stopped n"
    and "InitDatabase (m_iequals m) (m_sync_libs m) (m_async_libs m) (m_junk m) (DatabaseConfig_of (m_junk16 m) vm)
      \<lparr>wp_sync = [], wp_async = [], wp_connectionInfo = \<lparr>ci_Host = [], ci_Port = m_junk16 m, ci_User = [], ci_Pass = [], ci_DB = []\<rparr>\<rparr>
      = (p, Inr opened)"
  shows "wp_sync p = [] \<and> wp_async p = []"
proof -
  from assms obtain p' where "wp_Close p = Inr p'" "wp_delete p' = Inr ()"
    by (auto simp: run_server_def Let_def split: prod.splits sum.splits if_splits)
  then show ?thesis using Close_twice [of p p'] by (auto simp: wp_delete_def)
qed

section \<open>A program that serves the pool\<close>

lemma serving_start:
  assumes "run_server m vm = Serving n p w"
  shows "Server_Run (program_env m vm) (world_new (database_threads p)) = (w, Inr ())" "0 < n"
  using assms by (auto simp: run_server_def Let_def split: prod.splits sum.splits if_splits)

lemma database_threads_init: "pool_init (database_threads p)"
  by (auto simp: database_threads_def pool_init_def)

text \<open>The options of the difficulty are positive unless someone sets them to zero.\<close>

lemma difficulty_options:
  assumes "map_option fst (vm key) = first_of [given, default_of cmdlineOptions key]"
    and "default_of cmdlineOptions key = Some (A_uint32 d)" and "0 < d"
    and "\<forall>x. given = Some x \<longrightarrow> (\<exists>n. x = A_uint32 n \<and> 0 < n)"
  shows "0 < Get_uint32 tmp vm key"
  using assms by (cases given) (auto simp: Get_values(1) [OF refl])


lemma first_of_two: "first_of [a, b, c] = first_of [first_of [a, b], c]"
  by (cases a; cases b) simp_all

section \<open>Properties\<close>


section \<open>A small instance\<close>

text \<open>A program that is started with an address and no daemon.\<close>

definition sample_machine :: machine where
  "sample_machine = \<lparr>m_po = \<lparr>po_store = sample_store, po_command_line = (\<lambda>desc argv. Inr [(''MiningAddress'', A_string ''00'')]),
       po_open = (\<lambda>path. None), po_config_file = (\<lambda>desc txt. Inr [])\<rparr>,
     m_iequals = (=), m_sync_libs = (\<lambda>j. sample_lib False), m_async_libs = (\<lambda>j. sample_lib False), m_date = ''today'',
     m_timestamp = ''now'', m_junk = 0, m_junk16 = 0, m_junkd = 0, m_env = sample_env\<rparr>"

lemma sample_machine_laws: "store_laws (m_po sample_machine)"
  using sample_store_laws by (simp add: store_laws_def sample_machine_def sample_options_def)

lemma sample_database:
  "\<exists>p. InitDatabase (=) (\<lambda>j. sample_lib False) (\<lambda>j. sample_lib False) 0
     \<lparr>DatabaseDriver = ''mysql'', MySQLInfo = info, MySQLSyncThreads = 2, MySQLAsyncThreads = 2\<rparr>
     \<lparr>wp_sync = [], wp_async = [], wp_connectionInfo = info'\<rparr> = (p, Inr True) \<and> length (wp_async p) = 2"
proof -
  have two: "open_loop libs 0 i q 2 res cs = open_loop libs 0 i q (Suc (Suc 0)) res cs" for libs i q res cs
    by (simp only: numeral_2_eq_2)
  show ?thesis
    by (simp add: two InitDatabase_def wp_Open_def LoadSTMT_def wp_PrepareStatement_def PrepareStatement_def sample_lib_def
        Open_def tick_def DatabaseConnection_new_def bindE_def returnE_def Let_def STMT_QUERY_SHARES_def)
qed

lemma no_daemon_start:
  assumes "BitcoinRPC (e_cfg env) = []" and "e_listen env (StratumPort (e_cfg env)) = Inr ()"
  shows "\<exists>w. Server_Run env (world_new db) = (w, Inr ())"
  by (simp add: assms Server_Run_def run_defs BlockNotifyBind_def mod_net_def BlockNotify_apply StartAccept_apply
      start_io_def bindE_def liftE_def modE_def getE_def returnE_def)

lemma sample_main:
  "\<exists>logs p w. program_main sample_machine [] = (logs, Serving 2 p w) \<and> length (wp_async p) = 2"
proof -
  let ?cmd = "[(''MiningAddress'', A_string ''00'')]"
  obtain vm where init: "InitConfig (m_po sample_machine) [] Map.empty = (vm, Inr True)"
    and vm: "\<And>key. map_option fst (vm key) = first_of [map_of ?cmd key, map_of [] key, default_of cmdlineOptions key]"
    using InitConfig_options [OF sample_machine_laws, of "[]" ?cmd "[]"] by (auto simp: sample_machine_def)
  note vals = Get_values [OF vm] default_of_def option_tables
  obtain p where p: "InitDatabase (=) (\<lambda>j. sample_lib False) (\<lambda>j. sample_lib False) 0 (DatabaseConfig_of 0 vm)
      \<lparr>wp_sync = [], wp_async = [], wp_connectionInfo = \<lparr>ci_Host = [], ci_Port = 0, ci_User = [], ci_Pass = [], ci_DB = []\<rparr>\<rparr>
      = (p, Inr True)" "length (wp_async p) = 2"
    using sample_database by (auto simp: DatabaseConfig_of_def vals)
  obtain w where w: "Server_Run (program_env sample_machine vm) (world_new (database_threads p)) = (w, Inr ())"
    using no_daemon_start [of "program_env sample_machine vm"]
    by (auto simp: program_env_def sample_machine_def sample_env_def Config_of_def vals)
  have "run_server sample_machine vm = Serving 2 p w"
    using p(1) w by (simp add: run_server_def sample_machine_def vals)
  with init p(2) show ?thesis by (simp add: program_main_def Let_def)
qed


end
