(* ===== verification/Login.thy ===== *)
theory Login
  imports Stratum_Client Mysql_Connection
begin

text \<open>
  The login of a worker down to the database: the queries of \<^verbatim>\<open>OnMiningAuthorize\<close> (\<open>Stratum/Client.cpp\<close>) on the
  pool of connections (\<open>shared/MySQL\<close>), and that they give what \<open>Stratum_Client\<close> takes from its environment.
\<close>

section \<open>The query of a login\<close>

text \<open>
  Both texts are escaped, the query is sent, and of the first row the second column is read as a
  number; each of the three calls looks for a free connection. The result is \<open>None\<close> without rows.
\<close>

definition first_number :: "(string \<Rightarrow> uint32 result) \<Rightarrow> ResultSet \<Rightarrow> uint32 result" where
  "first_number lexical rs =
     bindR (FetchRow rs) (\<lambda>(row, rs).
     case row of
       None \<Rightarrow> Inl (Undefined ''null pointer'')
     | Some columns \<Rightarrow> if 1 < length columns then Get lexical (columns ! 1) else Inl (Undefined ''index outside the array''))"

definition login_text :: "string \<Rightarrow> string \<Rightarrow> string" where
  "login_text user password =
     FS [''SELECT `id`, `mindiff` FROM `pool_worker` WHERE `username` = '', apostrophe, c_str user, apostrophe,
         '' and `password` = '', apostrophe, c_str password, apostrophe]"

definition login_query ::
    "(nat \<Rightarrow> nat \<Rightarrow> nat \<Rightarrow> bool) \<Rightarrow> bool \<Rightarrow> (string \<Rightarrow> uint32 result) \<Rightarrow> (nat \<Rightarrow> mysql_lib) \<Rightarrow> string \<Rightarrow> string
      \<Rightarrow> DatabaseWorkerPool \<Rightarrow> (DatabaseWorkerPool \<times> uint32 option result) option" where
  "login_query ready fjunk lexical libs name password p =
     (case wp_Escape (ready 0) libs name p of
        None \<Rightarrow> None
      | Some (p, Inl e) \<Rightarrow> Some (p, Inl e)
      | Some (p, Inr user) \<Rightarrow>
          (case wp_Escape (ready 1) libs password p of
             None \<Rightarrow> None
           | Some (p, Inl e) \<Rightarrow> Some (p, Inl e)
           | Some (p, Inr pass) \<Rightarrow>
               (case wp_Query (ready 2) fjunk libs (Some (c_str (login_text user pass))) p of
                  None \<Rightarrow> None
                | Some (p, Inl e) \<Rightarrow> Some (p, Inl e)
                | Some (p, Inr None) \<Rightarrow> Some (p, Inr None)
                | Some (p, Inr (Some rs)) \<Rightarrow> Some (p, bindR (first_number lexical rs) (\<lambda>d. Inr (Some d))))))"

section \<open>A database that answers\<close>

text \<open>
  The server gives one answer to a query, an error that is not a lost connection or rows of the shape
  described; before it, the connection may be lost and made again any number of times.
\<close>

definition answers :: "uint32 + query_data \<Rightarrow> string option list list option \<Rightarrow> bool" where
  "answers r a \<longleftrightarrow>
     (case a of
        None \<Rightarrow> (\<exists>e. r = Inl e \<and> e \<notin> ClientError)
      | Some rows \<Rightarrow> (\<exists>d. r = Inr d \<and> qd_stored d \<and> qd_rows d = rows \<and> qd_affected d = of_nat (length rows)
          \<and> length rows < 2 ^ 64 \<and> length (qd_types d) = unat (qd_fields d)
          \<and> (\<forall>row \<in> set rows. length row = unat (qd_fields d))))"

definition serves :: "env \<Rightarrow> mysql_lib \<Rightarrow> DatabaseConnection \<Rightarrow> bool" where
  "serves env lib c \<longleftrightarrow> dc_mysql c = Open_ptr \<and> lib_escape lib = e_escape env
     \<and> (\<forall>q. \<exists>n. lost_rounds lib q (dc_connectionInfo c) (dc_calls c) n
          \<and> answers (lib_query lib (dc_calls c + 3 * n) q) (e_mysql env q))"

lemma Get_text: "Get lexical (field_SetValue v ty (Field_new junk))
    = (case v of None \<Rightarrow> Inl (Undefined ''null pointer'') | Some s \<Rightarrow> lexical (c_str s))"
  by (cases v) (simp_all add: Get_def field_SetValue_def Field_new_def)

lemma rows_counted: "length rows < 2 ^ 64 \<Longrightarrow> rows \<noteq> [] \<Longrightarrow> (of_nat (length rows) :: uint64) \<noteq> 0"
  by (simp add: word_unat_eq_iff)

lemma first_number_row:
  assumes "length rows < 2 ^ 64" and "rows \<noteq> []" and "length types = n" and "length (hd rows) = n"
  shows "first_number (e_lexical_cast env) \<lparr>rs_rowCount = of_nat (length rows), rs_currentRow = 0, rs_fieldCount = fc,
      rs_rows = map (\<lambda>row. map2 (\<lambda>c ty. field_SetValue c ty (Field_new junk)) row types) rows\<rparr>
    = field_u32 env (hd rows) 1"
proof -
  have "(of_nat (length rows) :: uint64) \<noteq> 0" using assms(1,2) by (rule rows_counted)
  then show ?thesis
    using assms(2-4) by (cases rows) (auto simp: first_number_def FetchRow_def field_u32_def Get_text)
qed

lemma Query_serves:
  assumes "serves env lib c"
  shows "\<exists>c' r. Query junk lib (Some q) c = Some (c', Inr r)
    \<and> (case db_Query env q of
         None \<Rightarrow> r = None
       | Some rows \<Rightarrow> \<exists>rs. r = Some rs \<and> first_number (e_lexical_cast env) rs = field_u32 env (hd rows) 1)"
proof -
  from assms obtain n where n: "lost_rounds lib q (dc_connectionInfo c) (dc_calls c) n"
      "answers (lib_query lib (dc_calls c + 3 * n) q) (e_mysql env q)" and opened: "dc_mysql c = Open_ptr"
    unfolding serves_def by blast
  let ?c = "c\<lparr>dc_calls := dc_calls c + 3 * n\<rparr>"
  have rounds: "Query_rows lib q c = Query_rows lib q ?c" by (rule Query_rounds [OF opened n(1)])
  show ?thesis
  proof (cases "e_mysql env q")
    case None
    then obtain e where e: "lib_query lib (dc_calls c + 3 * n) q = Inl e" "e \<notin> ClientError" using n(2) by (auto simp: answers_def)
    then have "Query_rows lib q c = Some (tick ?c, Inr None)"
      using opened unfolding rounds by (subst Query_rows.simps) (simp add: HandleMySQLErrno_other)
    then show ?thesis by (simp add: Query_def db_Query_def None)
  next
    case (Some rows)
    then obtain d where d: "lib_query lib (dc_calls c + 3 * n) q = Inr d" "qd_stored d" "qd_rows d = rows"
      "qd_affected d = of_nat (length rows)" "length rows < 2 ^ 64" "length (qd_types d) = unat (qd_fields d)"
      "\<And>row. row \<in> set rows \<Longrightarrow> length row = unat (qd_fields d)" using n(2) by (auto simp: answers_def)
    show ?thesis
    proof (cases rows)
      case Nil
      then have "Query_rows lib q c = Some (tick ?c, Inr None)"
        using opened d unfolding rounds by (subst Query_rows.simps) simp
      then show ?thesis by (simp add: Query_def db_Query_def Some Nil)
    next
      case (Cons row rest)
      then have "qd_affected d \<noteq> 0" using rows_counted [OF d(5)] d(4) by simp
      then have "Query_rows lib q c = Some (tick ?c, Inr (Some d))"
        using opened d unfolding rounds by (subst Query_rows.simps) simp
      moreover have "ResultSet_query junk rows (qd_types d) (qd_affected d) (qd_fields d)
          = Inr \<lparr>rs_rowCount = of_nat (length rows), rs_currentRow = 0, rs_fieldCount = qd_fields d,
              rs_rows = map (\<lambda>row. map2 (\<lambda>c ty. field_SetValue c ty (Field_new junk)) row (qd_types d)) rows\<rparr>"
        using query_rows_eq [OF d(7,6)] by (simp add: ResultSet_query_def d(4))
      moreover note first_number_row [OF d(5) _ d(6), of env "qd_fields d" junk]
      ultimately show ?thesis using Cons d(7) by (simp add: Query_def db_Query_def Some d(3))
    qed
  qed
qed


section \<open>The login through the pool\<close>

text \<open>Every connection of the pool serves, and some connection is free whenever one is looked for.\<close>

definition pool_serves :: "env \<Rightarrow> (nat \<Rightarrow> nat \<Rightarrow> nat \<Rightarrow> bool) \<Rightarrow> (nat \<Rightarrow> mysql_lib) \<Rightarrow> DatabaseWorkerPool \<Rightarrow> bool" where
  "pool_serves env ready libs p \<longleftrightarrow> wp_sync p \<noteq> [] \<and> length (wp_sync p) \<le> 255
     \<and> (\<forall>j < length (wp_sync p). serves env (libs j) (wp_sync p ! j))
     \<and> (\<forall>call. \<exists>j < length (wp_sync p). \<forall>k < length (wp_sync p). ready call k j)"

lemma some_connection:
  assumes "pool_serves env ready libs p"
  obtains j where "GetSyncConnection (ready call) p = Some (Inr j)" and "j < length (wp_sync p)"
    and "serves env (libs j) (wp_sync p ! j)"
proof -
  from assms have le: "length (wp_sync p) \<le> 255" and conns: "\<And>j. j < length (wp_sync p) \<Longrightarrow> serves env (libs j) (wp_sync p ! j)"
    by (simp_all add: pool_serves_def)
  from assms obtain i where i: "i < length (wp_sync p)" "\<And>k. k < length (wp_sync p) \<Longrightarrow> ready call k i"
    unfolding pool_serves_def by meson
  from sync_connection_found [of p, OF refl le i(1), of "ready call", OF i(2)] obtain j where
    "GetSyncConnection (ready call) p = Some (Inr j)" "j < length (wp_sync p)" by blast
  then show thesis using conns that by simp
qed

lemma Escape_serves:
  assumes "pool_serves env ready libs p" and "length (e_escape env txt) \<le> length txt * 2"
  shows "wp_Escape (ready call) libs txt p = Some (p, Inr (c_str (e_escape env txt)))"
proof -
  obtain j where j: "GetSyncConnection (ready call) p = Some (Inr j)" "serves env (libs j) (wp_sync p ! j)"
    using some_connection [OF assms(1)] by metis
  then show ?thesis using assms(2) by (simp add: wp_Escape_def on_sync_connection_def serves_def Escape_def)
qed

lemma no_zero: "CHR 0x00 \<notin> set str \<Longrightarrow> c_str str = str"
  by (induction str) (auto simp: c_str_def)

lemma login_text_eq:
  "c_str (login_text (c_str (e_escape env user)) (c_str (e_escape env password))) = authorize_query env user password"
proof -
  have twice: "c_str (c_str str) = c_str str" for str by (simp add: c_str_def)
  have "CHR 0x00 \<notin> set (c_str str)" for str unfolding c_str_def by (metis (full_types, lifting) set_takeWhileD)
  then have "CHR 0x00 \<notin> set (authorize_query env user password)"
    unfolding authorize_query_def FS_def by (intro contra_subsetD [OF set_take_subset]) auto
  then show ?thesis by (simp add: login_text_def authorize_query_def twice no_zero)
qed

section \<open>Properties\<close>

text \<open>
  C19. The login asks the database what the client's model asks its environment: on a pool whose connections
  serve (each may be lost and made again), with one of them free whenever it is looked for, the two
  calls of \<^verbatim>\<open>Escape\<close>, the query and the reading of the first row always return. They give no row
  exactly when the query of the model has none, and otherwise the number of its first row, or
  the same fault, such as a column without a value.
\<close>

theorem login_through_pool:
  assumes pool: "pool_serves env ready libs p"
    and room: "length (e_escape env user) \<le> length user * 2" "length (e_escape env password) \<le> length password * 2"
  shows "\<exists>p'. login_query ready junk (e_lexical_cast env) libs user password p = Some (p',
    (case db_Query env (authorize_query env user password) of
       None \<Rightarrow> Inr None
     | Some rows \<Rightarrow> bindR (field_u32 env (hd rows) 1) (\<lambda>d. Inr (Some d))))"
proof -
  obtain j where j: "GetSyncConnection (ready 2) p = Some (Inr j)" "serves env (libs j) (wp_sync p ! j)"
    using some_connection [OF pool] by metis
  from Query_serves [OF j(2), of junk "authorize_query env user password"] obtain c' r where
    "Query junk (libs j) (Some (authorize_query env user password)) (wp_sync p ! j) = Some (c', Inr r)"
    and r: "case db_Query env (authorize_query env user password) of
         None \<Rightarrow> r = None
       | Some rows \<Rightarrow> \<exists>rs. r = Some rs \<and> first_number (e_lexical_cast env) rs = field_u32 env (hd rows) 1" by blast
  then have "wp_Query (ready 2) junk libs (Some (authorize_query env user password)) p
      = Some (p\<lparr>wp_sync := (wp_sync p)[j := c']\<rparr>, Inr r)"
    using j(1) by (simp add: wp_Query_def on_sync_connection_def)
  then show ?thesis
    using r by (auto simp: login_query_def Escape_serves [OF pool] room login_text_eq split: option.splits)
qed

section \<open>A small instance\<close>

text \<open>Two connections to a server that is gone at first and then has one worker with the minimal difficulty 16.\<close>

definition login_env :: env where
  "login_env = sample_env\<lparr>e_mysql := (\<lambda>q. Some [[Some ''1'', Some ''16'']]),
     e_lexical_cast := (\<lambda>s. if s = ''16'' then Inr 16 else Inl (Exception ''bad_lexical_cast''))\<rparr>"

definition login_lib :: mysql_lib where
  "login_lib = (sample_lib False)\<lparr>lib_query := \<lambda>t q. if t = 0 then Inl 2006 else Inr (sample_data\<lparr>qd_rows := [[Some ''1'', Some ''16'']]\<rparr>)\<rparr>"

theorem login_through_pool_witness:
  "\<exists>p'. login_query (\<lambda>call k j. j = 0) False (e_lexical_cast login_env) (\<lambda>j. login_lib) ''bob'' ''x'' sample_workers
    = Some (p', Inr (Some 16))"
proof -
  have "serves login_env login_lib sample_conn"
    unfolding serves_def
    by (auto simp: login_lib_def sample_lib_def login_env_def sample_env_def answers_def sample_data_def lost_rounds_def
        ClientError_def intro!: exI [of _ "1 :: nat"])
  then have "pool_serves login_env (\<lambda>call k j. j = 0) (\<lambda>j. login_lib) sample_workers"
    by (auto simp: pool_serves_def sample_workers_def nth_Cons split: nat.splits)
  from login_through_pool [OF this, of "''bob''" "''x''" False] show ?thesis
    by (simp add: login_env_def sample_env_def db_Query_def field_u32_def c_str_def)
qed

end
