(* ===== verification/Network_Props.thy ===== *)
theory Network_Props
  imports Client_Props
begin

text \<open>
  What the network manager's submission of a block achieves, through the JSON writer, the HTTP request and
  the daemon's answer.
\<close>

section \<open>The request\<close>

definition submit_params :: "Block \<Rightarrow> JSON" where
  "submit_params block = j_array [j_string (BinToASCII (Binary (write_Block block ByteBuffer_new)))]"

text \<open>What a daemon reads from the text of a submission.\<close>

definition daemon_block :: "qi \<Rightarrow> Block \<Rightarrow> string \<Rightarrow> Block result" where
  "daemon_block q old str =
     bindR (FromString q str) (\<lambda>doc.
     bindR (get_field ''params'' doc) (\<lambda>params.
     bindR (bindR (index_vec 0 params) GetString) (\<lambda>hex.
     bindR (read_Block old (ByteBuffer_of (ASCIIToBin hex))) (\<lambda>(block, _). Inr block))))"

lemma plain_submit_params: "plain (submit_params block)"
  by (simp add: submit_params_def hex_no_quotes)

lemma submit_request_readable:
  assumes q: "qi_laws q" and block: "wf_Block block" "length (enc_Block block) < 2 ^ 63"
  shows "\<exists>str. ToString sd (rpc_request ''submitblock'' (submit_params block)) = Inr str
    \<and> daemon_block q old str = Inr (block\<lparr>blk_signature := blk_signature old, blk_merkleTree := blk_merkleTree old\<rparr>)"
proof -
  let ?p = "submit_params block"
  have plain: "plain (rpc_request ''submitblock'' ?p)" by (intro plain_request plain_submit_params) simp
  obtain str where str: "ToString sd (rpc_request ''submitblock'' ?p) = Inr str"
    by (rule request_text [OF plain_ok [OF plain_submit_params]])
  have read: "FromString q str = Inr (rpc_request ''submitblock'' ?p)"
    using read_written_object [OF q plain _ str, of "[]"] by (simp add: rpc_request_eq Let_def)
  have "json_Size ?p > 0" by (simp add: submit_params_def j_array_eq json_Size_def)
  then have params: "get_field ''params'' (rpc_request ''submitblock'' ?p) = Inr ?p"
    by (simp add: get_field_def index_key_def become_def rpc_request_eq Let_def)
  have hex: "bindR (index_vec 0 ?p) GetString = Inr (BinToASCII (Binary (write_Block block ByteBuffer_new)))"
    by (simp add: submit_params_def j_array_eq index_vec_def j_string_def assign_string_def JSON_new_def GetString_def)
  have bytes: "ByteBuffer_of (Binary (write_Block block ByteBuffer_new)) = write_Block block ByteBuffer_new"
    by (simp add: ByteBuffer_of_def Binary_def Block_codec.put_enc ByteBuffer_new_def)
  from block_read_back [OF block, of old] str show ?thesis
    by (auto simp: daemon_block_def read params hex BinToASCII_round_trip bytes)
qed

section \<open>The answer\<close>

definition null_result :: "JSON \<Rightarrow> bool" where
  "null_result response \<longleftrightarrow> (\<exists>r. get_field ''result'' response = Inr r \<and> j_type r = JSON_NULL)"

lemma submit_to_accepts:
  assumes "submit_to env bytes rpc w = (w', Inr True)"
  shows "\<exists>t response. JSONRPC_Query (e_show_double env) (e_qi env) rpc (e_http env t rpc) ''submitblock''
      (j_array [j_string (BinToASCII bytes)]) = Inr response \<and> null_result response"
  using assms
  by (auto simp: submit_to_def rpc_Query_def mod_net_def null_result_def bindE_def getE_def modE_def liftE_def returnE_def
      split: sum.splits prod.splits if_splits)

lemma submit_loop_accepts:
  "submit_loop env bytes rpcs w = (w', Inr True) \<Longrightarrow>
   \<exists>rpc \<in> set rpcs. \<exists>t response. JSONRPC_Query (e_show_double env) (e_qi env) rpc (e_http env t rpc) ''submitblock''
      (j_array [j_string (BinToASCII bytes)]) = Inr response \<and> null_result response"
proof (induction rpcs arbitrary: w)
  case (Cons rpc rpcs)
  obtain w1 r where w1: "tryE (submit_to env bytes rpc) (\<lambda>_. returnE False) w = (w1, r)"
    by (cases "tryE (submit_to env bytes rpc) (\<lambda>_. returnE False) w")
  show ?case
  proof (cases "r = Inr True")
    case True
    with w1 have "submit_to env bytes rpc w = (w1, Inr True)"
      by (auto simp: tryE_def returnE_def split: prod.splits sum.splits fault.splits)
    from submit_to_accepts [OF this] show ?thesis by auto
  next
    case False
    with Cons.prems w1 have "submit_loop env bytes rpcs w1 = (w', Inr True)"
      by (auto simp: bindE_def split: sum.splits if_splits)
    from Cons.IH [OF this] show ?thesis by auto
  qed
qed (simp add: returnE_def)

section \<open>Properties\<close>

text \<open>
  C15. A block that the pool counts as accepted has reached a daemon and was not refused: one of the daemons
  was sent an HTTP request from whose body it can read back exactly this block, header and transactions, and
  it answered with a result that is null (or has no member \<open>result\<close> other than null).
\<close>

theorem SubmitBlock_accepted:
  assumes "qi_laws (e_qi env)" and "wf_Block block" "length (enc_Block block) < 2 ^ 63"
    and "SubmitBlock env block w = (w', Inr True)"
  shows "\<exists>rpc \<in> set (n_cons (net w)). \<exists>t str response.
      ToString (e_show_double env) (rpc_request ''submitblock'' (submit_params block)) = Inr str
    \<and> daemon_block (e_qi env) old str = Inr (block\<lparr>blk_signature := blk_signature old, blk_merkleTree := blk_merkleTree old\<rparr>)
    \<and> JSONRPC_Query (e_show_double env) (e_qi env) rpc (e_http env t rpc) ''submitblock'' (submit_params block) = Inr response
    \<and> null_result response"
proof -
  from assms(4) have "submit_loop env (Binary (write_Block block ByteBuffer_new)) (n_cons (net w)) w = (w', Inr True)"
    by (simp add: SubmitBlock_def bindE_get)
  from submit_loop_accepts [OF this] submit_request_readable [OF assms(1-3), of "e_show_double env" old]
  show ?thesis unfolding submit_params_def by blast
qed

section \<open>A small instance\<close>

text \<open>A daemon that answers every query with a null result.\<close>

definition null_reply :: JSON where
  "null_reply = j_object [(''result'', j_null)]"

definition null_exchange :: exchange where
  "null_exchange = \<lparr>x_error = None, x_first = Inr (''HTTP/1.1 200 OK'' @ [CHR 0x0D] @ LF @ [CHR 0x0D] @ LF
     @ ''{'' @ dquote @ ''result'' @ dquote @ '':null}''), x_more = None\<rparr>"

definition null_env :: env where
  "null_env = sample_env\<lparr>e_http := \<lambda>t rpc request. null_exchange\<rparr>"

definition null_world :: world where
  "null_world = (sample_world sample_block)\<lparr>net := (net (sample_world sample_block))\<lparr>n_cons := [sample_rpc]\<rparr>\<rparr>"

lemma null_reply_eq: "null_reply = Node JSON_OBJECT [] [(''result'', j_null)] [''result''] (VBool False)"
  using fold_store_key [of "[(''result'', j_null)]"] by (simp add: null_reply_def j_object_def store_all_def)

lemma null_answer:
  assumes "set method \<inter> {CHR 0x22, CHR 0x27} = {}" and "plain params"
  shows "JSONRPC_Query (e_show_double null_env) (e_qi null_env) rpc (e_http null_env t rpc) method params = Inr j_null"
proof -
  let ?b = "''{'' @ dquote @ ''result'' @ dquote @ '':null}''"
  have str: "ToString (\<lambda>_. []) null_reply = Inr ?b" by (simp add: ToString_def null_reply_eq JSON_new_def)
  have "JSONRPC_Query (\<lambda>_. []) sample_qi rpc (\<lambda>_. null_exchange) method params
      = Inr (case map_of (j_map null_reply) ''result'' of Some r \<Rightarrow> r | None \<Rightarrow> JSON_new JSON_NULL)"
    by (rule Query_answered [OF sample_laws assms, where s = ?b and rest = "[]" and b = ?b and later = None and hs = "[]"])
      (use str in \<open>auto simp: null_reply_eq null_exchange_def JSON_new_def\<close>)
  then show ?thesis by (simp add: null_env_def sample_env_def null_reply_eq)
qed

lemma null_Query:
  assumes "set method \<inter> {CHR 0x22, CHR 0x27} = {}" and "plain params"
  shows "bindE (rpc_Query null_env rpc method params) f w
    = f j_null (w\<lparr>net := (net w)\<lparr>n_calls := n_calls (net w) + 1\<rparr>\<rparr>)"
  using null_answer [OF assms, of rpc]
  by (simp add: rpc_Query_def mod_net_def bindE_def getE_def modE_def liftE_def)

lemma null_field: "get_field k j_null = Inr j_null"
  by (simp add: get_field_def index_key_def become_def JSON_new_def)

lemma null_BlockCheck: "n_cons (net w) = [rpc] \<Longrightarrow> \<exists>w'. BlockCheck null_env w = (w', Inr ())"
proof -
  have no_blocks: "get_int ''blocks'' j_null = Inl (Exception ''Node is not an int type'')"
    by (simp add: get_int_def null_field GetInt_def)
  have plain: "plain no_params" by (simp add: no_params_def JSON_new_def)
  have
    "check_daemon null_env rpc w = (w\<lparr>net := (net w)\<lparr>n_calls := n_calls (net w) + 1\<rparr>\<rparr>, Inl (Exception ''Node is not an int type''))" for w
    by (simp add: check_daemon_def null_Query plain bindE_lift no_blocks)
  then show "n_cons (net w) = [rpc] \<Longrightarrow> \<exists>w'. BlockCheck null_env w = (w', Inr ())"
    by (simp add: BlockCheck_def bindE_get) (simp add: bindE_def tryE_def returnE_def)
qed

lemma null_submit: "\<exists>w'. SubmitBlock null_env sample_block null_world = (w', Inr True)"
proof -
  let ?w = "null_world\<lparr>net := (net null_world)\<lparr>n_calls := n_calls (net null_world) + 1\<rparr>\<rparr>"
  obtain w' where w': "BlockCheck null_env ?w = (w', Inr ())"
    using null_BlockCheck [of ?w sample_rpc] by (auto simp: null_world_def)
  have "submit_to null_env (Binary (write_Block sample_block ByteBuffer_new)) sample_rpc null_world = (w', Inr True)"
    unfolding submit_to_def submit_params_def [symmetric]
    by (subst null_Query) (use w' in \<open>simp_all add: plain_submit_params bindE_lift null_field bindE_def [of "BlockCheck null_env"] returnE_def\<close>)
  then have "SubmitBlock null_env sample_block null_world = (w', Inr True)"
    by (simp add: SubmitBlock_def bindE_get null_world_def) (simp add: bindE_def tryE_def returnE_def)
  then show ?thesis by blast
qed

theorem SubmitBlock_accepted_witness:
  "\<exists>rpc \<in> set (n_cons (net null_world)). \<exists>t str response.
      ToString (e_show_double null_env) (rpc_request ''submitblock'' (submit_params sample_block)) = Inr str
    \<and> daemon_block (e_qi null_env) sample_block str = Inr sample_block
    \<and> JSONRPC_Query (e_show_double null_env) (e_qi null_env) rpc (e_http null_env t rpc) ''submitblock'' (submit_params sample_block)
        = Inr response
    \<and> null_result response"
proof -
  obtain w' where run: "SubmitBlock null_env sample_block null_world = (w', Inr True)" using null_submit by blast
  have q: "qi_laws (e_qi null_env)" using sample_laws by (simp add: null_env_def sample_env_def)
  have "wf_Block sample_block" "length (enc_Block sample_block) < 2 ^ 63"
    by (simp_all add: sample_block_def wf_Block_def wf_Transaction_def enc_Block_def enc_header_def enc_Transaction_def
        enc_VarInt_def)
  from SubmitBlock_accepted [OF q this run, of sample_block] show ?thesis by simp
qed

end
