(* ===== verification/Templates.thy ===== *)
theory Templates
  imports Network_Props System_Props
begin

text \<open>
  From a daemon's answer to the pool's work: what \<^verbatim>\<open>UpdateBlockTemplate\<close> and \<^verbatim>\<open>BlockCheck\<close>
  (\<open>NetworkMgr/NetworkMgr.cpp\<close>) make of the responses to \<open>getblocktemplate\<close> and \<open>getinfo\<close>.
\<close>

section \<open>A template\<close>

text \<open>
  A response offers work: it has the members the pool reads, the hash with 32 bytes, the bits with four, and
  the transactions in their serialised form, all of them as hexadecimal text.
\<close>

definition offers :: "JSON \<Rightarrow> int64 \<Rightarrow> BinaryData \<Rightarrow> int64 \<Rightarrow> uint32 \<Rightarrow> int64 \<Rightarrow> Transaction list \<Rightarrow> bool" where
  "offers response version prev time bits value txs \<longleftrightarrow>
     get_int ''version'' response = Inr version
     \<and> get_string ''previousblockhash'' response = Inr (BinToASCII prev) \<and> length prev = 32
     \<and> get_int ''curtime'' response = Inr time
     \<and> get_string ''bits'' response = Inr (BinToASCII (Reverse (word_bytes bits)))
     \<and> get_int ''coinbasevalue'' response = Inr value
     \<and> (\<exists>xs. get_field ''transactions'' response = Inr (j_array xs) \<and> length xs = length txs
          \<and> (\<forall>i < length txs. get_string ''data'' (xs ! i) = Inr (BinToASCII (enc_Transaction (txs ! i)))))
     \<and> length txs < 2 ^ 32 \<and> (\<forall>tx \<in> set txs. wf_Transaction tx \<and> length (enc_Transaction tx) < 2 ^ 63)"

definition offered_block :: "env \<Rightarrow> uint32 \<Rightarrow> int64 \<Rightarrow> BinaryData \<Rightarrow> int64 \<Rightarrow> uint32 \<Rightarrow> int64 \<Rightarrow> Transaction list \<Rightarrow> Block" where
  "offered_block env height version prev time bits value txs =
     (let tx = CreateCoinbaseTX height (ASCIIToBin (MiningAddress (e_cfg env))) value # txs;
          hs = map (tx_GetHash (e_sha env)) tx
      in \<lparr>blk_version = ucast version, blk_prevBlockHash = Reverse prev, blk_merkleRootHash = merkle_root (e_sha env) hs,
          blk_time = ucast time, blk_bits = bits, blk_nonce = e_junk env,
          blk_signature = [], blk_tx = tx, blk_merkleTree = merkle_rows (e_sha env) hs\<rparr>)"

lemma read_hex_transaction:
  assumes "wf_Transaction tx" and "length (enc_Transaction tx) < 2 ^ 63"
  shows "\<exists>b. read_Transaction (ByteBuffer_of (ASCIIToBin (BinToASCII (enc_Transaction tx)))) = Inr (tx, b)"
  using Transaction_codec.round_trip [OF assms]
  by (auto simp: Transaction_codec.put_enc ByteBuffer_new_def ByteBuffer_of_def BinToASCII_round_trip)

lemma mapR_all: "(\<And>x. x \<in> set xs \<Longrightarrow> f x = Inr (g x)) \<Longrightarrow> mapR f xs = Inr (map g xs)"
  by (induction xs) simp_all

lemma read_bits: "\<exists>b. Read (ByteBuffer_of (word_bytes bits)) = Inr (bits, b)" for bits :: uint32
  using Read_word_bytes [of "ByteBuffer_of (word_bytes bits)" bits "[]"]
  by (simp add: bb_ok_def remaining_def ByteBuffer_of_def)

lemma offered_template:
  assumes "offers response version prev time bits value txs"
  shows "template_block env height response = Inr (offered_block env height version prev time bits value txs)"
proof -
  from assms obtain xs where xs: "get_field ''transactions'' response = Inr (j_array xs)" "length xs = length txs"
      "\<And>i. i < length txs \<Longrightarrow> get_string ''data'' (xs ! i) = Inr (BinToASCII (enc_Transaction (txs ! i)))"
    and txs: "length txs < 2 ^ 32" "\<And>tx. tx \<in> set txs \<Longrightarrow> wf_Transaction tx \<and> length (enc_Transaction tx) < 2 ^ 63"
    unfolding offers_def by blast
  have n: "unat (json_Size (j_array xs)) = length txs" using xs(2) txs(1) by (simp add: json_Size_def j_array_eq)
  have "template_tx (j_array xs) i = Inr (txs ! i)" if i: "i < length txs" for i
  proof -
    have "unat (of_nat i :: uint32) = i" using i txs(1) by (intro unat_of_nat_fits) simp
    then have "index_vec (of_nat i) (j_array xs) = Inr (xs ! i)" using i xs(2) by (simp add: index_vec_def j_array_eq)
    moreover obtain b where "read_Transaction (ByteBuffer_of (ASCIIToBin (BinToASCII (enc_Transaction (txs ! i))))) = Inr (txs ! i, b)"
      using read_hex_transaction txs(2) i by (meson nth_mem)
    ultimately show ?thesis using xs(3) [OF i] by (simp add: template_tx_def)
  qed
  then have "mapR (template_tx (j_array xs)) [0..<length txs] = Inr (map (\<lambda>i. txs ! i) [0..<length txs])"
    by (intro mapR_all) simp
  then have all: "mapR (template_tx (j_array xs)) [0..<unat (json_Size (j_array xs))] = Inr txs"
    unfolding n by (simp add: map_nth)
  obtain b where b: "Read (ByteBuffer_of (word_bytes bits)) = Inr (bits, b)" using read_bits by blast
  show ?thesis
    using assms by (simp add: offers_def template_block_def xs(1) all b BinToASCII_round_trip Reverse_def BuildMerkleTree_eq offered_block_def Let_def)
qed


section \<open>A new block\<close>

lemma rpc_Query_run:
  assumes "JSONRPC_Query (e_show_double env) (e_qi env) rpc (e_http env (n_calls (net w)) rpc) method params = Inr r"
  shows "bindE (rpc_Query env rpc method params) f w = f r (w\<lparr>net := (net w)\<lparr>n_calls := n_calls (net w) + 1\<rparr>\<rparr>)"
  using assms by (simp add: rpc_Query_def mod_net_def bindE_def getE_def modE_def liftE_def)

lemma notify_loop_run: "notify_loop block nb n w = (w\<lparr>posted := posted w @ replicate n (TaskBlockNotify block nb)\<rparr>, Inr ())"
  by (induction n arbitrary: w) (simp_all add: post_def bindE_mod returnE_apply)

text \<open>
  What the daemon answers at this moment: to the next query that there is a block higher than the pool
  knows, to the one after it with work on top of it.
\<close>

definition announces :: "env \<Rightarrow> JSONRPC \<Rightarrow> world \<Rightarrow> int64 \<Rightarrow> JSON \<Rightarrow> bool" where
  "announces env rpc w blocks response \<longleftrightarrow>
     (\<exists>info. JSONRPC_Query (e_show_double env) (e_qi env) rpc (e_http env (n_calls (net w)) rpc) ''getinfo'' no_params = Inr info
        \<and> get_int ''blocks'' info = Inr blocks)
     \<and> JSONRPC_Query (e_show_double env) (e_qi env) rpc (e_http env (n_calls (net w) + 1) rpc) ''getblocktemplate'' no_params
         = Inr response
     \<and> (\<exists>h. get_int ''height'' response = Inr h \<and> int (unat (ucast blocks :: uint32)) \<le> sint h)"

lemma BlockCheck_announces:
  assumes daemon: "n_cons (net w) = [rpc]" and ann: "announces env rpc w blocks response"
    and newer: "n_blockHeight (net w) < ucast blocks" and work: "template_block env (ucast blocks) response = Inr block"
  shows "BlockCheck env w = (w\<lparr>net := (net w)\<lparr>n_blockHeight := ucast blocks, n_curBlockTmpl := Some block,
      n_calls := n_calls (net w) + 2\<rparr>, posted := posted w @ replicate (n_binds (net w)) (TaskBlockNotify (Some block) True)\<rparr>, Inr ())"
proof -
  let ?w2 = "w\<lparr>net := (net w)\<lparr>n_calls := n_calls (net w) + 1, n_blockHeight := ucast blocks\<rparr>\<rparr>"
  let ?w3 = "w\<lparr>net := (net w)\<lparr>n_blockHeight := ucast blocks, n_curBlockTmpl := Some block, n_calls := n_calls (net w) + 2\<rparr>\<rparr>"
  from ann obtain info h where info: "get_int ''blocks'' info = Inr blocks"
      "JSONRPC_Query (e_show_double env) (e_qi env) rpc (e_http env (n_calls (net w)) rpc) ''getinfo'' no_params = Inr info"
    and tmpl: "JSONRPC_Query (e_show_double env) (e_qi env) rpc (e_http env (n_calls (net ?w2)) rpc) ''getblocktemplate'' no_params = Inr response"
    and h: "get_int ''height'' response = Inr h" "\<not> sint h < int (unat (ucast blocks :: uint32))"
    unfolding announces_def by auto
  have "try_template env rpc ?w2 = (?w3, Inr True)"
    unfolding try_template_def
    by (subst rpc_Query_run [OF tmpl])
      (use h(2) in \<open>simp add: bindE_get bindE_lift h(1) work mod_net_def bindE_mod returnE_apply\<close>)
  then have "UpdateBlockTemplate env ?w2 = (?w3, Inr ())"
    by (simp add: UpdateBlockTemplate_def bindE_get daemon)
      (simp add: bindE_def [of "tryE _ _"] tryE_def returnE_apply)
  moreover have "BlockNotifySend True ?w3
      = (?w3\<lparr>posted := posted w @ replicate (n_binds (net w)) (TaskBlockNotify (Some block) True)\<rparr>, Inr ())"
    by (simp add: BlockNotifySend_def bindE_get notify_loop_run)
  ultimately have "check_daemon env rpc w
      = (?w3\<lparr>posted := posted w @ replicate (n_binds (net w)) (TaskBlockNotify (Some block) True)\<rparr>, Inr ())"
    unfolding check_daemon_def Let_def
    by (subst rpc_Query_run [OF info(2)])
      (use newer in \<open>simp add: bindE_get bindE_lift info(1) mod_net_def bindE_mod bindE_def [of "UpdateBlockTemplate env"]\<close>)
  then show ?thesis
    by (simp add: BlockCheck_def bindE_get daemon) (simp add: bindE_def [of "tryE _ _"] tryE_def returnE_apply)
qed


section \<open>The new work of every client\<close>

text \<open>The client has been given work for the block, and nothing else, and been told so.\<close>

definition served :: "env \<Rightarrow> Block \<Rightarrow> uint64 \<Rightarrow> Client \<Rightarrow> world \<Rightarrow> bool" where
  "served env block cid c w \<longleftrightarrow>
     (\<exists>job params t. make_job block (c_diff c) = Inr job \<and> job_params (c_jobid c) job True = Inr params
        \<and> ToString (e_show_double env) (notify_message params) = Inr t
        \<and> objs w cid = Some (c\<lparr>c_jobid := c_jobid c + 1, c_jobs := [ucast (c_jobid c) \<mapsto> job]\<rparr>)
        \<and> (cid, t @ LF) \<in> set (wire w))"

lemma run_first_task:
  assumes "posted w = t # ts" and "ok env" and "run_task env t (w\<lparr>posted := ts\<rparr>) = (w', Inr ())"
  shows "silent_step ok w w'"
  using silent_task [of ok env w "[]" t ts w' "Inr ()"] assms by simp

lemma jobs_sent:
  assumes "ok env" and "work_ok sha block"
  shows "distinct ids \<Longrightarrow> posted w = map (\<lambda>cid. TaskSendJob cid True) ids \<Longrightarrow> s_currentWork (server w) = Some block \<Longrightarrow>
    (\<And>cid. cid \<in> set ids \<Longrightarrow> \<exists>c. objs w cid = Some c \<and> 0 < c_diff c) \<Longrightarrow>
    \<exists>w'. (silent_step ok)\<^sup>*\<^sup>* w w' \<and> server w' = server w \<and> pending w' = pending w \<and> set (wire w) \<subseteq> set (wire w') \<and> posted w' = []
      \<and> dataMgr w' = dataMgr w \<and> database w' = database w
      \<and> (\<forall>cid. cid \<notin> set ids \<longrightarrow> objs w' cid = objs w cid)
      \<and> (\<forall>cid \<in> set ids. \<forall>c. objs w cid = Some c \<longrightarrow> served env block cid c w')"
proof (induction ids arbitrary: w)
  case (Cons cid ids)
  from Cons.prems(4) [of cid] obtain c where c: "objs w cid = Some c" "0 < c_diff c" by auto
  let ?w = "w\<lparr>posted := map (\<lambda>cid. TaskSendJob cid True) ids\<rparr>"
  from SendJob_run [of ?w cid c block sha True env] c Cons.prems(3) assms(2) obtain job params t where
    job: "make_job block (c_diff c) = Inr job" "job_params (c_jobid c) job True = Inr params"
      "ToString (e_show_double env) (notify_message params) = Inr t"
    and run: "SendJob env cid True ?w = (?w\<lparr>objs := (objs w)(cid \<mapsto> c\<lparr>c_jobid := c_jobid c + 1,
        c_jobs := [ucast (c_jobid c) \<mapsto> job]\<rparr>), wire := wire w @ [(cid, t @ LF)]\<rparr>, Inr ())"
    by auto
  let ?w1 = "?w\<lparr>objs := (objs w)(cid \<mapsto> c\<lparr>c_jobid := c_jobid c + 1, c_jobs := [ucast (c_jobid c) \<mapsto> job]\<rparr>),
      wire := wire w @ [(cid, t @ LF)]\<rparr>"
  have step: "silent_step ok w ?w1"
    using run Cons.prems(2) by (intro run_first_task [where ok = ok, OF _ assms(1)]) (auto simp: run_task_def)
  have "\<exists>c. objs ?w1 i = Some c \<and> 0 < c_diff c" if "i \<in> set ids" for i
    using Cons.prems(4) [of i] that by (auto simp: c(2))
  with Cons.IH [of ?w1] Cons.prems(1,3) obtain w' where w': "(silent_step ok)\<^sup>*\<^sup>* ?w1 w'" "server w' = server w" "pending w' = pending w"
      "set (wire ?w1) \<subseteq> set (wire w')" "posted w' = []" "dataMgr w' = dataMgr w" "database w' = database w"
      "\<And>i. i \<notin> set ids \<Longrightarrow> objs w' i = objs ?w1 i"
      "\<And>i c. i \<in> set ids \<Longrightarrow> objs ?w1 i = Some c \<Longrightarrow> served env block i c w'" by auto
  have "served env block cid c w'"
    unfolding served_def using job w'(4) w'(8) [of cid] Cons.prems(1) by (intro exI conjI) auto
  moreover have "served env block i d w'" if "i \<in> set ids" "objs w i = Some d" for i d
  proof -
    have "i \<noteq> cid" using that(1) Cons.prems(1) by auto
    then show ?thesis using w'(9) [OF that(1)] that(2) by simp
  qed
  ultimately show ?case
    using converse_rtranclp_into_rtranclp [OF step w'(1)] w'(2-8) c(1) Cons.prems(1) by (intro exI [of _ w']) auto
qed auto

lemma block_reaches:
  assumes reached: "reach (sys_init (env_ok sha pk)) (sys_step (env_ok sha pk)) w" and env: "env_ok sha pk env"
    and idle: "n_cons (net w) = [rpc]" "n_binds (net w) = 1" "posted w = []"
    and daemon: "announces env rpc w blocks response" "n_blockHeight (net w) < ucast blocks"
      "offers response version prev time bits value txs" "3 \<le> unat (drop_bit 24 bits)"
  shows "\<exists>w' block. (silent_step (env_ok sha pk))\<^sup>*\<^sup>* w w' \<and> template_block env (ucast blocks) response = Inr block
    \<and> s_currentWork (server w') = Some block \<and> s_clients (server w') = s_clients (server w)
    \<and> (\<forall>cid \<in> s_clients (server w). \<exists>c. objs w cid = Some c \<and> served env block cid c w')
    \<and> pending w \<subseteq> pending w' \<and> dataMgr w' = dataMgr w \<and> database w' = database w"
proof -
  let ?ok = "env_ok sha pk"
  let ?block = "offered_block env (ucast blocks) version prev time bits value txs"
  have block: "template_block env (ucast blocks) response = Inr ?block" by (rule offered_template [OF daemon(3)])
  have inv: "world_ok sha pk w" by (rule pool.reach_inv [OF reached])
  have "BlockCheckTimer \<in> pending w" using keeps_listening.reach_inv [OF reached] by (simp add: listening_ok_def timers_def)
  let ?w0 = "finish_io BlockCheckTimer w"
  let ?w1 = "?w0\<lparr>net := (net w)\<lparr>n_blockHeight := ucast blocks, n_curBlockTmpl := Some ?block, n_calls := n_calls (net w) + 2\<rparr>,
      posted := [TaskBlockNotify (Some ?block) True], pending := insert BlockCheckTimer (pending w)\<rparr>"
  have "announces env rpc ?w0 blocks response" using daemon(1) by (simp add: announces_def)
  from BlockCheck_announces [of ?w0, OF _ this _ block] idle daemon(2)
  have "BlockCheckTimerExpired env ?w0 = (?w1, Inr ())"
    by (simp add: BlockCheckTimerExpired_def BlockCheckTimerStart_def bindE_def [of "BlockCheck env"] start_io_apply insert_absorb)
  then have step1: "silent_step ?ok w ?w1"
    using env \<open>BlockCheckTimer \<in> pending w\<close> by (intro silent_check_timer [where r = "Inr ()"]) simp_all
  let ?ids = "sorted_list_of_set (s_clients (server w))"
  let ?w2 = "?w1\<lparr>server := (server w)\<lparr>s_currentWork := Some ?block\<rparr>, posted := map (\<lambda>cid. TaskSendJob cid True) ?ids\<rparr>"
  have step2: "silent_step ?ok ?w1 ?w2"
    by (rule run_first_task [where ok = ?ok, OF _ env]) (auto simp: run_task_def BlockNotify_apply)
  have ids: "set ?ids = s_clients (server w)" by simp
  have "work_ok sha ?block"
    using template_block_ok [OF env block] daemon(3,4)
    by (auto simp: work_ok_def block_ok_def offers_def offered_block_def Let_def Reverse_def)
  moreover have "\<exists>c. objs ?w2 cid = Some c \<and> 0 < c_diff c" if "cid \<in> set ?ids" for cid
    using inv that unfolding ids by (auto simp: world_ok_def client_ok_def)
  ultimately obtain w' where w': "(silent_step ?ok)\<^sup>*\<^sup>* ?w2 w'" "server w' = server ?w2" "pending w' = pending ?w2"
      "dataMgr w' = dataMgr ?w2" "database w' = database ?w2" "\<And>cid c. cid \<in> set ?ids \<Longrightarrow> objs ?w2 cid = Some c \<Longrightarrow> served env ?block cid c w'"
    using jobs_sent [of ?ok env sha ?block ?ids ?w2, OF env] by auto
  have "(silent_step ?ok)\<^sup>*\<^sup>* w w'"
    by (rule converse_rtranclp_into_rtranclp [OF step1 converse_rtranclp_into_rtranclp [OF step2 w'(1)]])
  moreover have "\<exists>c. objs w cid = Some c \<and> served env ?block cid c w'" if "cid \<in> s_clients (server w)" for cid
    using inv that w'(6) [of cid] unfolding ids by (auto simp: world_ok_def)
  ultimately show ?thesis using block w'(2-5) by (intro exI [of _ w'] exI [of _ ?block]) auto
qed

section \<open>Properties\<close>

text \<open>
  C13. The block that the network manager builds from a daemon's response is the one the daemon offers: its
  version, time and bits, the hash of its predecessor, and its transactions in their order, after
  the coinbase transaction that pays the pool's address the value offered, with their Merkle tree.
\<close>

theorem template_from_daemon:
  assumes "offers response version prev time bits value txs"
  shows "\<exists>block. template_block env height response = Inr block
    \<and> blk_version block = ucast version \<and> blk_time block = ucast time \<and> blk_bits block = bits
    \<and> Reverse (blk_prevBlockHash block) = prev
    \<and> blk_tx block = CreateCoinbaseTX height (ASCIIToBin (MiningAddress (e_cfg env))) value # txs
    \<and> blk_merkleRootHash block = merkle_root (e_sha env) (map (tx_GetHash (e_sha env)) (blk_tx block))"
  by (simp add: offered_template [OF assms] offered_block_def Let_def Reverse_def)

text \<open>
  C3. A new block reaches every miner. When the timer of the block check fires, the daemon reports a
  higher block and offers work on top of it, then the pool gets from there, by running the tasks it
  has posted, to a state in which the current work is the daemon's block and every connected client
  has exactly one job, for this block and at its own difficulty, and has been sent its \<open>mining.notify\<close>.
\<close>

theorem new_block_reaches_miners:
  assumes reached: "reach (sys_init (env_ok sha pk)) (sys_step (env_ok sha pk)) w" and env: "env_ok sha pk env"
    and idle: "n_cons (net w) = [rpc]" "n_binds (net w) = 1" "posted w = []"
    and daemon: "announces env rpc w blocks response" "n_blockHeight (net w) < ucast blocks"
      "offers response version prev time bits value txs" "3 \<le> unat (drop_bit 24 bits)"
  shows "\<exists>w' block. (sys_step (env_ok sha pk))\<^sup>*\<^sup>* w w' \<and> template_block env (ucast blocks) response = Inr block
    \<and> s_currentWork (server w') = Some block \<and> s_clients (server w') = s_clients (server w)
    \<and> (\<forall>cid \<in> s_clients (server w). \<exists>c. objs w cid = Some c \<and> served env block cid c w')"
  using block_reaches [OF assms] silent_sys_steps by blast

end
