(* ===== verification/Honest_Miner.thy ===== *)
theory Honest_Miner
  imports Pool_System
begin

text \<open>
  The other half of the promise to miners: a line with a share that is good by the miner's own account is
  credited. The way leads from the bytes of the line through the reader, the dispatch of messages and the
  limiter to the share store and the answer.
\<close>

section \<open>The request of a miner\<close>

definition submit_request :: "JSON \<Rightarrow> string \<Rightarrow> uint32 \<Rightarrow> BinaryData \<Rightarrow> BinaryData \<Rightarrow> BinaryData \<Rightarrow> JSON" where
  "submit_request mid user k e2 ntime nonce =
     j_object [(''id'', mid), (''method'', j_string ''mining.submit''),
       (''params'', j_array [j_string user, j_string (write_hex_u32 k), j_string (BinToASCII e2),
          j_string (BinToASCII ntime), j_string (BinToASCII nonce)])]"

lemma submit_request_fields:
  "get_field ''id'' (submit_request mid user k e2 ntime nonce) = Inr mid"
  "get_field ''params'' (submit_request mid user k e2 ntime nonce)
     = Inr (j_array [j_string user, j_string (write_hex_u32 k), j_string (BinToASCII e2), j_string (BinToASCII ntime),
         j_string (BinToASCII nonce)])"
  "index_key ''method'' (submit_request mid user k e2 ntime nonce)
     = Inr (j_string ''mining.submit'', submit_request mid user k e2 ntime nonce)"
  unfolding submit_request_def by (simp_all add: get_field_object index_key_def object_member)

lemma submit_request_ok: "json_ok mid \<Longrightarrow> json_ok (submit_request mid user k e2 ntime nonce)"
  unfolding submit_request_def by (rule object_ok) (simp add: array_ok)

lemma submit_request_plain:
  assumes "plain mid" and "set user \<inter> {CHR 0x22, CHR 0x27} = {}"
  shows "plain (submit_request mid user k e2 ntime nonce)"
  unfolding submit_request_def using assms by (simp add: hex_no_quotes)

section \<open>From the line to the share\<close>

lemma limiter_passes:
  fixes env :: env and d :: uint64
  defines "now \<equiv> ucast (e_now env)"
  assumes "objs w cid = Some c"
    and "\<not> retarget_due (e_cfg env) now (record_share now d (c_shareLimiter c))"
  shows "limiter_Submit env cid d w
    = (w\<lparr>objs := (objs w)(cid \<mapsto> c\<lparr>c_shareLimiter := record_share now d (c_shareLimiter c)\<rparr>)\<rparr>, Inr True)"
  using assms by (simp add: limiter_Submit_def mod_limiter_def Let_def eff_simps)

lemma take_share_run:
  assumes params: "params = j_array [j_string user, j_string (write_hex_u32 k), j_string (BinToASCII e2),
      j_string (BinToASCII ntime), j_string (BinToASCII nonce)]"
    and sizes: "length e2 = 4" "length ntime = 4" "length nonce = 4"
    and share: "word_bytes share = Reverse nonce @ e2"
  shows "take_share env cid msg params user k job w
    = settle_share env cid msg user k job (Reverse ntime) (Reverse nonce) e2 share w"
proof -
  have "Read (ByteBuffer_of (Reverse nonce @ e2))
      = Inr (share, advance (length (word_bytes share)) (ByteBuffer_of (Reverse nonce @ e2)))"
    by (rule Read_word_bytes [where rest = "[]"]) (use sizes in \<open>simp_all add: share Reverse_def\<close>)
  then show ?thesis
    using sizes by (simp add: take_share_def params index_vec_array BinToASCII_round_trip Let_def eff_simps Reverse_def)
qed

text \<open>What the pool does with the request, up to the share itself.\<close>

lemma OnMiningSubmit_run:
  fixes env :: env and job :: Job
  defines "now \<equiv> ucast (e_now env)"
  assumes c: "objs w cid = Some c" and user: "user \<in> c_workers c" and job: "c_jobs c (ucast k) = Some job"
    and limiter: "\<not> retarget_due (e_cfg env) now (record_share now (job_diff job) (c_shareLimiter c))"
    and sizes: "length e2 = 4" "length ntime = 4" "length nonce = 4"
    and share: "word_bytes share = Reverse nonce @ e2"
  shows "OnMiningSubmit env cid (submit_request mid user k e2 ntime nonce) w
    = settle_share env cid (submit_request mid user k e2 ntime nonce) user k job (Reverse ntime) (Reverse nonce) e2 share
        (w\<lparr>objs := (objs w)(cid \<mapsto> c\<lparr>c_shareLimiter := record_share now (job_diff job) (c_shareLimiter c)\<rparr>)\<rparr>)"
proof -
  have "bindE (limiter_Submit env cid (job_diff job)) f w
      = f True (w\<lparr>objs := (objs w)(cid \<mapsto> c\<lparr>c_shareLimiter := record_share now (job_diff job) (c_shareLimiter c)\<rparr>)\<rparr>)"
    for f :: "bool \<Rightarrow> unit action"
    using limiter_passes [OF c limiter [unfolded now_def]]
    by (simp add: bindE_def [of "limiter_Submit env cid (job_diff job)"] now_def)
  with take_share_run [OF refl sizes share] user job show ?thesis
    by (simp add: OnMiningSubmit_def submit_request_fields index_vec_array bindE_lift bindE_get_client [OF c]
        read_hex_write_hex Let_def)
qed

lemma OnMessage_submit:
  assumes "json_ok mid"
  shows "OnMessage env cid (submit_request mid user k e2 ntime nonce)
    = OnMiningSubmit env cid (submit_request mid user k e2 ntime nonce)"
proof (rule ext)
  fix w
  obtain t where "ToString (e_show_double env) (submit_request mid user k e2 ntime nonce) = Inr t"
    using ToString_total [OF submit_request_ok [OF assms]] by blast
  then show "OnMessage env cid (submit_request mid user k e2 ntime nonce) w
    = OnMiningSubmit env cid (submit_request mid user k e2 ntime nonce) w"
    by (simp add: OnMessage_def submit_request_fields bindE_lift)
qed

lemma on_line_run:
  assumes "objs w cid = Some c" and "c_recvMessage c \<noteq> ''POST / HTTP/1.1'' @ [CHR 0x0D]"
    and "FromString (e_qi env) (c_recvMessage c) = Inr msg"
    and "OnMessage env cid msg w = (w', Inr ())" and "objs w' cid = Some c'"
  shows "on_line env cid w = (w'\<lparr>objs := (objs w')(cid \<mapsto> c'\<lparr>c_recvMessage := []\<rparr>)\<rparr>, Inr ())"
proof -
  have "tryE (bindE (liftE (Inr msg)) (OnMessage env cid)) (\<lambda>_. returnE ()) w = (w', Inr ())"
    using assms(4) by (simp add: tryE_def bindE_lift)
  then show ?thesis
    using assms(1,2,3,5)
    by (simp add: on_line_def bindE_get_client bindE_return)
      (simp add: bindE_def [of "tryE _ _"] mod_client_apply)
qed

lemma object_text_head: "ToString sd j = Inr s \<Longrightarrow> j_type j = JSON_OBJECT \<Longrightarrow> \<exists>t. s = CHR ''{'' # t"
  by (cases j) (auto simp: ToString_def bindR_eq_Inr_iff Let_def split: if_splits)

text \<open>A line with the text of a document is handled as the message it stands for.\<close>

lemma receive_request:
  assumes c: "objs w cid = Some c" "c_recvMessage c = []"
    and q: "qi_laws (e_qi env)" and msg: "plain msg" "j_type msg = JSON_OBJECT" "ToString sd msg = Inr txt" "CHR 0x0A \<notin> set txt"
    and run: "OnMessage env cid msg (w\<lparr>objs := (objs w)(cid \<mapsto> c\<lparr>c_recvMessage := txt\<rparr>)\<rparr>) = (w', Inr ())"
      "objs w' cid = Some c'"
  shows "OnReceive env cid success (txt @ LF) w
    = (w'\<lparr>objs := (objs w')(cid \<mapsto> c'\<lparr>c_recvMessage := []\<rparr>), pending := insert (IoRead cid) (pending w')\<rparr>, Inr ())"
proof -
  let ?c1 = "c\<lparr>c_recvMessage := txt\<rparr>" and ?w4 = "w'\<lparr>objs := (objs w')(cid \<mapsto> c'\<lparr>c_recvMessage := []\<rparr>)\<rparr>"
  have "FromString (e_qi env) txt = Inr msg" using read_written_object [OF q msg(1,2,3), of "[]"] by simp
  moreover have "txt \<noteq> ''POST / HTTP/1.1'' @ [CHR 0x0D]" using object_text_head [OF msg(3,2)] by auto
  ultimately have "on_line env cid (w\<lparr>objs := (objs w)(cid \<mapsto> ?c1)\<rparr>) = (?w4, Inr ())"
    using on_line_run [of "w\<lparr>objs := (objs w)(cid \<mapsto> ?c1)\<rparr>" cid ?c1 env msg, OF _ _ _ run] by simp
  with receive_line [OF c(1) msg(4), of env "[]"] c(2)
  have "receive_loop env cid (txt @ LF) w = (?w4, Inr ())" by (simp add: bindE_def [of "on_line env cid"] returnE_apply)
  then show ?thesis
    by (simp add: OnReceive_def bindE_def [of "receive_loop env cid (txt @ LF)"])
      (simp add: bindE_get_client bindE_return StartRead_def start_io_apply)
qed

section \<open>A good share\<close>

lemma settle_good_share:
  assumes c: "objs w cid = Some c" and mid: "get_field ''id'' msg = Inr mid" "json_ok mid"
    and block: "assemble env (c_extranonce c) job t n e = Inr block" and hash: "blk_GetHash (e_sha env) block \<noteq> []"
      "blockTarget job < hash_number (e_sha env) block" "hash_number (e_sha env) block \<le> jobTarget job"
    and new: "share \<notin> job_shares job"
  shows "\<exists>answer. ToString (e_show_double env) (true_response mid) = Inr answer
    \<and> settle_share env cid msg user k job t n e share w
      = (w\<lparr>objs := (objs w)(cid \<mapsto> with_job k (job\<lparr>job_shares := insert share (job_shares job)\<rparr>) c),
          dataMgr := Push (Share_new (c_ip c) user True [] (ucast (e_now env)) (job_diff job)) (dataMgr w),
          wire := wire w @ [(cid, answer @ LF)]\<rparr>, Inr ())"
  using settle_share_run [OF c mid block hash(1), of user k share] hash(2,3) new by (auto simp: Let_def)

text \<open>The block the pool assembles for the stored job has the hash that the miner computed.\<close>

lemma miner_digest:
  assumes tmpl: "template_ok (e_sha env) h pk v txs (job_block job)" "length (blk_prevBlockHash (job_block job)) = 32"
      "make_job (job_block job) (job_diff job) = Inr (job\<lparr>job_shares := {}\<rparr>)"
    and sent: "job_params k job clean = Inr params"
    and sizes: "length e2 = 4" "length ntime = 4" "length nonce = 4"
  obtains b where "assemble env x job (Reverse ntime) (Reverse nonce) e2 = Inr b"
    and "blk_GetHash (e_sha env) b = SHA256D (e_sha env) (miner_header (e_sha env) params (word_bytes x) e2 ntime nonce)"
proof -
  have "job_params k (job\<lparr>job_shares := {}\<rparr>) clean = Inr params" using sent by (simp add: job_params_def Let_def)
  from miner_block [OF tmpl this sizes(2,3,1), of x] show ?thesis by (auto intro: that)
qed

section \<open>Properties\<close>


section \<open>A small instance\<close>

text \<open>A hash between the targets of the block and of the job, and a client that holds a job.\<close>

definition lucky_digest :: BinaryData where
  "lucky_digest = [0, 0, 0, 0, 0, 0, 0, 0, 0, 0, 0, 0, 0, 0, 0, 0, 0, 0, 0, 0, 0, 0, 0, 0, 0, 0, 0, 1, 0, 0, 0, 0]"

definition lucky_env :: env where
  "lucky_env = sample_env\<lparr>e_sha := (\<lambda>_. lucky_digest)\<rparr>"

definition lucky_world :: "Job \<Rightarrow> world" where
  "lucky_world job = (sample_world sample_block)\<lparr>objs := [0 \<mapsto> sample_client\<lparr>c_jobs := [0 \<mapsto> job]\<rparr>]\<rparr>"

abbreviation lucky_request :: JSON where
  "lucky_request \<equiv> submit_request (j_int 1) ''worker'' 0 [0, 0, 0, 9] [1, 2, 3, 4] [5, 6, 7, 8]"

lemma lucky_text:
  "\<exists>txt. ToString (e_show_double lucky_env) lucky_request = Inr txt \<and> CHR 0x0A \<notin> set txt"
  by (simp add: submit_request_def j_object_eq j_array_eq j_string_def j_int_def assign_string_def assign_int_def
      JSON_new_def ToString_def BinToASCII_eq hex_digit_def write_hex_u32_def show_hex.simps EscapeString_plain
      show_int64_def GetInt_def GetString_def show_dec.simps [of "Suc 0"] Let_def)

lemma lucky_number: "int (hex_value (BinToASCII (Reverse lucky_digest))) = 256 ^ 27"
  by (simp add: hex_value_BinToASCII Reverse_def lucky_digest_def)

lemma lucky_job:
  obtains block job params where "template_ok (e_sha lucky_env) 1 [] 50 [] block" "length (blk_prevBlockHash block) = 32"
    "make_job block 2 = Inr job" "job_block job = block" "job_diff job = 2" "job_shares job = {}"
    "job_params 0 job True = Inr params" "blockTarget job = 0xffff * 256 ^ 24" "jobTarget job = max_target div 2"
proof -
  have bits: "3 \<le> unat (drop_bit 24 (0x1b00ffff :: uint32))" by (simp add: drop_bit_eq_div)
  obtain block where tmpl: "template_ok (e_sha lucky_env) 1 [] 50 [] block" and ok: "work_ok (e_sha lucky_env) block"
    and b: "blk_bits block = 0x1b00ffff" using sample_template [OF bits] by blast
  obtain job where job: "make_job block 2 = Inr job" using make_job_total [OF ok, of 2] by auto
  have tx: "blk_tx block = [CreateCoinbaseTX 1 [] 50]" using tmpl by (simp add: template_ok_def)
  note parts = make_job_coinbase [OF job tx]
  then have "job_block job = block" by simp
  with ok job_params_total [of "e_sha lucky_env" job 0 True] obtain params where "job_params 0 job True = Inr params" by auto
  moreover have "Inr (blockTarget job) = (Inr (0xffff * 256 ^ 24) :: int result)"
    using parts TargetFromBits_eq [of "blk_bits block"] by (simp add: b drop_bit_eq_div)
  moreover have "Inr (jobTarget job) = (Inr (max_target div 2) :: int result)" using parts DiffToTarget_pos [of 2] by simp
  ultimately show ?thesis using tmpl ok job parts by (intro that [of block job params]) (simp_all add: work_ok_def)
qed


end
