(* ===== verification/Sessions.thy ===== *)
theory Sessions
  imports Honest_Miner Mining_Work
begin

text \<open>
  What a miner gets for its first two requests: \<^verbatim>\<open>OnMiningSubscribe\<close> and \<^verbatim>\<open>OnMiningAuthorize\<close>
  (\<open>Stratum/Client.cpp\<close>) on every branch that returns.
\<close>

section \<open>Messages\<close>

definition difficulty_message :: "uint64 \<Rightarrow> JSON" where
  "difficulty_message d =
     j_object [(''id'', j_null), (''params'', j_array [j_int d]), (''method'', j_string ''mining.set_difficulty'')]"

definition login_answer :: "JSON \<Rightarrow> bool \<Rightarrow> JSON" where
  "login_answer mid ok =
     j_object [(''id'', mid),
       (''error'', if ok then j_null else j_array [j_int 20, j_string ''Authentication failed'', j_null]),
       (''result'', j_bool True)]"

definition subscription :: "JSON \<Rightarrow> uint32 \<Rightarrow> JSON" where
  "subscription mid x =
     j_object [(''id'', mid),
       (''result'', j_array [j_array [j_string ''mining.notify'', j_string ''ae6812eb4cd7735a302a8a9dd95cf71f''],
          j_string (BinToASCII (word_bytes x)), j_int 4]),
       (''error'', j_null)]"

lemma null_ok: "json_ok j_null"
  by (simp add: JSON_new_def)

lemma messages_ok:
  "json_ok (difficulty_message d)" "json_ok mid \<Longrightarrow> json_ok (login_answer mid ok)" "json_ok mid \<Longrightarrow> json_ok (subscription mid x)"
  unfolding difficulty_message_def login_answer_def subscription_def
  by (rule object_ok; simp add: array_ok null_ok)+

text \<open>The texts of the messages, in the order in which they are sent to one client.\<close>

definition sent_lines :: "env \<Rightarrow> uint64 \<Rightarrow> JSON list \<Rightarrow> (uint64 \<times> string) list \<Rightarrow> bool" where
  "sent_lines env cid msgs ts \<longleftrightarrow>
     list_all2 (\<lambda>msg (to, line). to = cid \<and> (\<exists>t. ToString (e_show_double env) msg = Inr t \<and> line = t @ LF)) msgs ts"

lemma sent_lines_append: "sent_lines env cid ms ls \<Longrightarrow> sent_lines env cid ms' ls' \<Longrightarrow> sent_lines env cid (ms @ ms') (ls @ ls')"
  unfolding sent_lines_def by (rule list_all2_appendI)

lemma SendMessage_sends:
  assumes "json_ok msg"
  obtains line where "sent_lines env cid [msg] [line]" and "\<And>w. SendMessage env cid msg w = (w\<lparr>wire := wire w @ [line]\<rparr>, Inr ())"
proof -
  obtain t where t: "ToString (e_show_double env) msg = Inr t" using ToString_total [OF assms] by blast
  show ?thesis by (rule that [of "(cid, t @ LF)"]) (simp_all add: sent_lines_def SendMessage_def eff_simps t)
qed

section \<open>Authorisation\<close>

lemma raise_difficulty:
  assumes c: "objs w cid = Some c"
  shows "\<exists>lines. (if c_diff c < c_minDiff c then SetDifficulty env cid (c_minDiff c) False else returnE ()) w
      = (w\<lparr>objs := (objs w)(cid \<mapsto> c\<lparr>c_diff := max (c_diff c) (c_minDiff c)\<rparr>), wire := wire w @ lines\<rparr>, Inr ())
    \<and> sent_lines env cid (if c_diff c < c_minDiff c then [difficulty_message (c_minDiff c)] else []) lines"
proof (cases "c_diff c < c_minDiff c")
  case True
  obtain line where "sent_lines env cid [difficulty_message (c_minDiff c)] [line]"
    "\<And>w. SendMessage env cid (difficulty_message (c_minDiff c)) w = (w\<lparr>wire := wire w @ [line]\<rparr>, Inr ())"
    by (rule SendMessage_sends [OF messages_ok(1)]) blast
  with True c show ?thesis
    by (intro exI [of _ "[line]"])
      (auto simp: SetDifficulty_def Let_def bindE_get_client [OF c] bindE_mod_client difficulty_message_def
        bindE_def [of "SendMessage _ _ _"] returnE_apply max_def)
next
  case False
  moreover have "(objs w)(cid \<mapsto> c) = objs w" using c by (simp add: fun_upd_idem)
  ultimately show ?thesis by (intro exI [of _ "[]"]) (simp add: returnE_apply sent_lines_def max_def)
qed


lemma authorize_run:
  assumes c: "objs w cid = Some c" and msg: "get_field ''params'' msg = Inr (j_array (j_string user # j_string password # rest))"
      "get_field ''id'' msg = Inr mid" "json_ok mid"
    and row: "db_Query env (authorize_query env user password) = Some rows" "field_u32 env (hd rows) 1 = Inr d"
  shows "\<exists>lines. OnMiningAuthorize env cid msg w
      = (w\<lparr>objs := (objs w)(cid \<mapsto> c\<lparr>c_workers := insert user (c_workers c), c_minDiff := ucast d, c_diff := max (c_diff c) (ucast d)\<rparr>),
          wire := wire w @ lines\<rparr>, Inr ())
    \<and> sent_lines env cid ((if c_diff c < ucast d then [difficulty_message (ucast d)] else []) @ [login_answer mid True]) lines"
proof -
  let ?c = "c\<lparr>c_workers := insert user (c_workers c), c_minDiff := ucast d\<rparr>"
  let ?w = "w\<lparr>objs := (objs w)(cid \<mapsto> ?c)\<rparr>"
  obtain ls where raise: "(if c_diff ?c < c_minDiff ?c then SetDifficulty env cid (c_minDiff ?c) False else returnE ()) ?w
      = (?w\<lparr>objs := (objs ?w)(cid \<mapsto> ?c\<lparr>c_diff := max (c_diff ?c) (c_minDiff ?c)\<rparr>), wire := wire ?w @ ls\<rparr>, Inr ())"
    and ls: "sent_lines env cid (if c_diff ?c < c_minDiff ?c then [difficulty_message (c_minDiff ?c)] else []) ls"
    using raise_difficulty [of ?w cid ?c env] by auto
  obtain line where line: "sent_lines env cid [login_answer mid True] [line]"
    and send: "\<And>w. SendMessage env cid (login_answer mid True) w = (w\<lparr>wire := wire w @ [line]\<rparr>, Inr ())"
    by (rule SendMessage_sends [OF messages_ok(2) [OF msg(3)]]) blast
  have "OnMiningAuthorize env cid msg w = (?w\<lparr>objs := (objs ?w)(cid \<mapsto> ?c\<lparr>c_diff := max (c_diff ?c) (c_minDiff ?c)\<rparr>),
      wire := wire ?w @ ls @ [line]\<rparr>, Inr ())"
    using c row raise send
    by (simp add: OnMiningAuthorize_def msg index_vec_array bindE_lift bindE_mod_client bindE_get_client
        bindE_def [of "if _ then _ else _"] login_answer_def)
  moreover have "sent_lines env cid ((if c_diff c < ucast d then [difficulty_message (ucast d)] else []) @ [login_answer mid True])
      (ls @ [line])"
    using sent_lines_append [OF ls line] by (cases "c_diff c < ucast d") simp_all
  ultimately show ?thesis by (intro exI [of _ "ls @ [line]"]) simp
qed

lemma authorize_fails:
  assumes msg: "get_field ''params'' msg = Inr (j_array (j_string user # j_string password # rest))"
      "get_field ''id'' msg = Inr mid" "json_ok mid"
    and row: "db_Query env (authorize_query env user password) = None"
  shows "\<exists>lines. OnMiningAuthorize env cid msg w = (w\<lparr>wire := wire w @ lines\<rparr>, Inr ())
    \<and> sent_lines env cid [login_answer mid False] lines"
proof -
  obtain line where line: "sent_lines env cid [login_answer mid False] [line]"
    "\<And>w. SendMessage env cid (login_answer mid False) w = (w\<lparr>wire := wire w @ [line]\<rparr>, Inr ())"
    by (rule SendMessage_sends [OF messages_ok(2) [OF msg(3)]]) blast
  then show ?thesis
    by (intro exI [of _ "[line]"]) (simp add: OnMiningAuthorize_def msg row index_vec_array bindE_lift login_answer_def)
qed

section \<open>Subscription\<close>

lemma subscribe_answer:
  assumes c: "objs w cid = Some c" and msg: "get_field ''id'' msg = Inr mid"
    and send: "\<And>w'. SendMessage env cid (subscription mid (s_extranonce (server w))) w' = (w'\<lparr>wire := wire w' @ [line]\<rparr>, Inr ())"
  shows "OnMiningSubscribe env cid msg w = SendJob env cid False
    (w\<lparr>server := (server w)\<lparr>s_extranonce := s_extranonce (server w) + 1\<rparr>,
       objs := (objs w)(cid \<mapsto> c\<lparr>c_subscribed := True, c_extranonce := s_extranonce (server w)\<rparr>), wire := wire w @ [line]\<rparr>)"
  using c send
  by (simp add: OnMiningSubscribe_def Let_def msg bindE_lift bindE_mod_client bindE_def [of GetExtranonce] GetExtranonce_apply
      bindE_def [of "SendMessage _ _ _"] subscription_def Binary_def ByteBuffer_new_def)

lemma SendJob_without_work:
  assumes c: "objs w cid = Some c" and none: "s_currentWork (server w) = None"
  shows "SendJob env cid clean w
    = (if clean then w\<lparr>objs := (objs w)(cid \<mapsto> c\<lparr>c_jobs := Map.empty\<rparr>)\<rparr> else w, Inl (Undefined ''null pointer''))"
proof -
  have job: "GetJob cid w = (w, Inl (Undefined ''null pointer''))" if "objs w cid = Some c" "s_currentWork (server w) = None" for w c
    using that by (simp add: GetJob_def GetWork_def bindE_get bindE_get_client liftE_def)
  show ?thesis
    using assms job [of w c] job [of "w\<lparr>objs := (objs w)(cid \<mapsto> c\<lparr>c_jobs := Map.empty\<rparr>)\<rparr>"]
    by (simp add: SendJob_def CleanJobs_def bindE_mod_client bindE_return bindE_def [of "GetJob cid"])
qed

lemma subscribe_run:
  assumes c: "objs w cid = Some c" and msg: "get_field ''id'' msg = Inr mid" "json_ok mid"
    and work: "s_currentWork (server w) = Some block" "work_ok sha block" "0 < c_diff c"
  shows "\<exists>job params lines. make_job block (c_diff c) = Inr job \<and> job_params (c_jobid c) job False = Inr params
    \<and> OnMiningSubscribe env cid msg w
      = (w\<lparr>server := (server w)\<lparr>s_extranonce := s_extranonce (server w) + 1\<rparr>,
          objs := (objs w)(cid \<mapsto> c\<lparr>c_subscribed := True, c_extranonce := s_extranonce (server w), c_jobid := c_jobid c + 1,
            c_jobs := (c_jobs c)(ucast (c_jobid c) \<mapsto> job)\<rparr>),
          wire := wire w @ lines\<rparr>, Inr ())
    \<and> sent_lines env cid [subscription mid (s_extranonce (server w)), notify_message params] lines"
proof -
  let ?x = "s_extranonce (server w)"
  let ?c = "c\<lparr>c_subscribed := True, c_extranonce := ?x\<rparr>"
  obtain line where line: "sent_lines env cid [subscription mid ?x] [line]"
    and send: "\<And>w. SendMessage env cid (subscription mid ?x) w = (w\<lparr>wire := wire w @ [line]\<rparr>, Inr ())"
    by (rule SendMessage_sends [OF messages_ok(3) [OF msg(2)]]) blast
  let ?w = "w\<lparr>server := (server w)\<lparr>s_extranonce := ?x + 1\<rparr>, objs := (objs w)(cid \<mapsto> ?c), wire := wire w @ [line]\<rparr>"
  from SendJob_run [of ?w cid ?c block sha False env] work obtain job params t where
    job: "make_job block (c_diff c) = Inr job" "job_params (c_jobid c) job False = Inr params"
      "ToString (e_show_double env) (notify_message params) = Inr t"
    and run: "SendJob env cid False ?w = (?w\<lparr>objs := (objs ?w)(cid \<mapsto> ?c\<lparr>c_jobid := c_jobid c + 1,
        c_jobs := (c_jobs c)(ucast (c_jobid c) \<mapsto> job)\<rparr>), wire := wire ?w @ [(cid, t @ LF)]\<rparr>, Inr ())"
    by auto
  have "OnMiningSubscribe env cid msg w = SendJob env cid False ?w"
    using subscribe_answer [OF c msg(1) send] by simp
  moreover have "sent_lines env cid [subscription mid ?x, notify_message params] [line, (cid, t @ LF)]"
    using line job(3) by (simp add: sent_lines_def)
  ultimately show ?thesis using job(1,2) run by (intro exI [of _ job] exI [of _ params] exI [of _ "[line, (cid, t @ LF)]"]) simp
qed


section \<open>Properties\<close>


text \<open>
  C17. A subscription always succeeds while there is work: the client is marked as subscribed, gets the next
  extranonce of the server, and the first thing it is sent is the answer with this extranonce and the size
  four of its own part, followed by the notification of a job for the current work at its difficulty.
\<close>

theorem subscribe_outcome:
  assumes "objs w cid = Some c" and "get_field ''id'' msg = Inr mid" "json_ok mid"
    and "s_currentWork (server w) = Some block" "work_ok sha block" "0 < c_diff c"
  shows "\<exists>job params lines. make_job block (c_diff c) = Inr job \<and> job_params (c_jobid c) job False = Inr params
    \<and> OnMiningSubscribe env cid msg w
      = (w\<lparr>server := (server w)\<lparr>s_extranonce := s_extranonce (server w) + 1\<rparr>,
          objs := (objs w)(cid \<mapsto> c\<lparr>c_subscribed := True, c_extranonce := s_extranonce (server w), c_jobid := c_jobid c + 1,
            c_jobs := (c_jobs c)(ucast (c_jobid c) \<mapsto> job)\<rparr>),
          wire := wire w @ lines\<rparr>, Inr ())
    \<and> sent_lines env cid [subscription mid (s_extranonce (server w)), notify_message params] lines"
  using assms by (rule subscribe_run)

text \<open>
  C23. Without work a subscription is the end of the program. As long as no daemon has given the pool a
  template, a client that subscribes is marked as subscribed, uses up an extranonce and is sent the answer; then the
  template is dereferenced although there is none, which is undefined behaviour and not an exception
  that a handler would catch. So it is in a \<open>SendJob\<close> that is posted for a client.
\<close>

theorem subscribe_without_work:
  assumes c: "objs w cid = Some c" and msg: "get_field ''id'' msg = Inr mid" "json_ok mid"
    and none: "s_currentWork (server w) = None"
  shows "\<exists>lines. OnMiningSubscribe env cid msg w
      = (w\<lparr>server := (server w)\<lparr>s_extranonce := s_extranonce (server w) + 1\<rparr>,
          objs := (objs w)(cid \<mapsto> c\<lparr>c_subscribed := True, c_extranonce := s_extranonce (server w)\<rparr>),
          wire := wire w @ lines\<rparr>, Inl (Undefined ''null pointer''))
    \<and> sent_lines env cid [subscription mid (s_extranonce (server w))] lines
    \<and> (\<exists>w'. SendJob env cid clean w = (w', Inl (Undefined ''null pointer'')))"
proof -
  obtain line where line: "sent_lines env cid [subscription mid (s_extranonce (server w))] [line]"
    and send: "\<And>w'. SendMessage env cid (subscription mid (s_extranonce (server w))) w' = (w'\<lparr>wire := wire w' @ [line]\<rparr>, Inr ())"
    by (rule SendMessage_sends [OF messages_ok(3) [OF msg(2)]]) blast
  let ?c = "c\<lparr>c_subscribed := True, c_extranonce := s_extranonce (server w)\<rparr>"
  let ?w = "w\<lparr>server := (server w)\<lparr>s_extranonce := s_extranonce (server w) + 1\<rparr>, objs := (objs w)(cid \<mapsto> ?c),
      wire := wire w @ [line]\<rparr>"
  have "OnMiningSubscribe env cid msg w = SendJob env cid False ?w"
    using subscribe_answer [OF c msg(1) send] by simp
  moreover have "SendJob env cid False ?w = (?w, Inl (Undefined ''null pointer''))"
    using SendJob_without_work [of ?w cid ?c env False] none by simp
  ultimately show ?thesis
    using line SendJob_without_work [OF c none, of env clean] by (intro exI [of _ "[line]"]) simp
qed

section \<open>A small instance\<close>

definition login_request :: "JSON \<Rightarrow> string \<Rightarrow> string \<Rightarrow> JSON" where
  "login_request mid user password =
     j_object [(''id'', mid), (''method'', j_string ''mining.authorize''),
       (''params'', j_array [j_string user, j_string password])]"

lemma login_request_fields:
  "get_field ''id'' (login_request mid user password) = Inr mid"
  "get_field ''params'' (login_request mid user password) = Inr (j_array [j_string user, j_string password])"
  "index_key ''method'' (login_request mid user password) = Inr (j_string ''mining.authorize'', login_request mid user password)"
  unfolding login_request_def by (simp_all add: get_field_object index_key_def object_member)

text \<open>A database with one worker, whose minimal difficulty is 16.\<close>

definition worker_env :: env where
  "worker_env = lucky_env\<lparr>e_mysql := (\<lambda>q. Some [[Some ''1'', Some ''16'']]), e_lexical_cast := (\<lambda>s. Inr 16)\<rparr>"

lemma worker_row:
  "db_Query worker_env q = Some [[Some ''1'', Some ''16'']]" "field_u32 worker_env [Some ''1'', Some ''16''] 1 = Inr 16"
  by (simp_all add: db_Query_def field_u32_def worker_env_def)


theorem subscribe_outcome_witness:
  "\<exists>block job params lines. make_job block 2 = Inr job \<and> job_params 0 job False = Inr params
    \<and> wire (fst (OnMiningSubscribe sample_env 0 (j_object [(''id'', j_int 7)]) (sample_world block))) = lines
    \<and> sent_lines sample_env 0 [subscription (j_int 7) 1, notify_message params] lines"
proof -
  obtain block where ok: "work_ok (e_sha sample_env) block" using sample_template_bits by blast
  have "objs (sample_world block) 0 = Some sample_client" "c_diff sample_client = 2" "c_jobid sample_client = 0"
    "s_currentWork (server (sample_world block)) = Some block" "wire (sample_world block) = []"
    "s_extranonce (server (sample_world block)) = 1"
    by (simp_all add: sample_world_def sample_client_def)
  with subscribe_outcome [of "sample_world block" 0 sample_client "j_object [(''id'', j_int 7)]" "j_int 7" block
      "e_sha sample_env" sample_env] ok show ?thesis
    by (auto simp: get_field_object intro!: exI [of _ block])
qed

end
