(* ===== verification/Delivery.thy ===== *)
theory Delivery
  imports Ledger
begin

text \<open>
  From the share store to the database: the queue and the threads of \<open>Work_Queue\<close> as a part of the running pool of
  \<open>Pool_System\<close>, and that an upload gets its queries executed.
\<close>

section \<open>The database part of the running pool\<close>

text \<open>Whatever a handler does, the queue and its threads make steps of their own.\<close>

definition database_runs :: "world \<Rightarrow> world \<Rightarrow> bool" where
  "database_runs w w' \<longleftrightarrow> pool_step\<^sup>*\<^sup>* (database w) (database w')"

interpretation running: system_relation database_runs
  by unfold_locales (auto simp: database_runs_def)

interpretation running_shares: receive_relation database_runs
  by unfold_locales (auto simp: database_runs_def intro: step_enqueue)

lemma step_database:
  assumes "sys_step ok w w'"
  shows "pool_step\<^sup>*\<^sup>* (database w) (database w')"
  using assms
proof (cases rule: sys_step.cases)
  case (sys_upload env r)
  then show ?thesis
    by (auto simp: UploadTimerExpired_def UploadTimerStart_def start_io_apply split: option.splits sum.splits
        dest!: Upload_sends intro: send_all_runs)
next
  case (sys_database db)
  then show ?thesis by auto
next
  case (sys_accept env cid err remote r)
  from keepsD [OF running.cl_OnAccept sys_accept(4)] show ?thesis by (simp add: database_runs_def)
next
  case (sys_receive env cid ec bytes r)
  from keepsD [OF running_shares.cl_OnReceive sys_receive(4)] show ?thesis by (simp add: database_runs_def)
next
  case (sys_sent cid data ec r)
  from keepsD [OF running.cl_OnSend sys_sent(3)] show ?thesis by (simp add: database_runs_def)
next
  case (sys_task env ts t ts' r)
  from keepsD [OF running.cl_run_task sys_task(3)] show ?thesis by (simp add: database_runs_def)
next
  case (sys_notify_timer env r)
  from keepsD [OF running.cl_timers(1) sys_notify_timer(3)] show ?thesis by (simp add: database_runs_def)
next
  case (sys_check_timer env r)
  from keepsD [OF running.cl_timers(2) sys_check_timer(3)] show ?thesis by (simp add: database_runs_def)
qed

lemma run_database: "(sys_step ok)\<^sup>*\<^sup>* w w' \<Longrightarrow> pool_step\<^sup>*\<^sup>* (database w) (database w')"
  by (induction rule: rtranclp_induct) (auto dest: step_database)

text \<open>A thread leaves its loop only after the queue has been stopped.\<close>

definition database_ok :: "string pool \<Rightarrow> bool" where
  "database_ok p \<longleftrightarrow> pool_inv p \<and> (Exited \<in> set (workers p) \<longrightarrow> endQueue (asyncQueue p))"

lemma pool_step_ok:
  assumes "pool_step p p'" and "database_ok p"
  shows "database_ok p'"
proof -
  have "Exited \<in> set (workers p') \<longrightarrow> endQueue (asyncQueue p')"
    using assms
    by (auto elim!: pool_stepE simp: database_ok_def ExecuteAsync_def Enqueue_def pool_Stop_def Stop_def worker_Dequeue_def
        worker_Execute_def Dequeue_def split: if_splits option.splits worker.splits dest!: set_update_subset_insert [THEN subsetD])
  then show ?thesis using assms pool_system.step_inv by (auto simp: database_ok_def)
qed

interpretation database_system: invariant_system "sys_init ok" "sys_step ok" "\<lambda>w. database_ok (database w)" for ok
proof
  fix w assume "sys_init ok w"
  then obtain env db where "pool_init db" "Server_Run env (world_new db) = (w, Inr ())" by (auto simp: sys_init_def)
  with Server_Run_books show "database_ok (database w)"
    using pool_system.init_inv by (fastforce simp: database_ok_def pool_init_def)
next
  fix w w' assume "database_ok (database w)" and "sys_step ok w w'"
  from step_database [OF this(2)] this(1) show "database_ok (database w')"
    by (induction rule: rtranclp_induct) (auto intro: pool_step_ok)
qed

lemma database_steps: "pool_step\<^sup>*\<^sup>* (database w) db \<Longrightarrow> (sys_step ok)\<^sup>*\<^sup>* w (w\<lparr>database := db\<rparr>)"
proof (induction rule: rtranclp_induct)
  case (step db db')
  from sys_database [of "w\<lparr>database := db\<rparr>" db' ok] step(2) have "sys_step ok (w\<lparr>database := db\<rparr>) (w\<lparr>database := db'\<rparr>)" by simp
  with step(3) show ?case by (rule rtranclp.rtrancl_into_rtrancl)
qed simp


section \<open>The queue is worked off\<close>

lemma working_some: "working ws \<noteq> {#} \<Longrightarrow> \<exists>j op. j < length ws \<and> ws ! j = Working op"
proof (induction ws)
  case (Cons w ws)
  show ?case
  proof (cases w)
    case (Working op)
    then show ?thesis by (intro exI [of _ 0]) simp
  next
    case Waiting
    then have "working ws \<noteq> {#}" using Cons.prems by (simp add: working_def)
    with Cons.IH obtain j op where "j < length ws" "ws ! j = Working op" by blast
    then show ?thesis by (intro exI [of _ "Suc j"]) simp
  next
    case Exited
    then have "working ws \<noteq> {#}" using Cons.prems by (simp add: working_def)
    with Cons.IH obtain j op where "j < length ws" "ws ! j = Working op" by blast
    then show ?thesis by (intro exI [of _ "Suc j"]) simp
  qed
qed (simp add: working_def)

definition left_to_do :: "'op pool \<Rightarrow> nat" where
  "left_to_do p = 2 * length (sq_queue (asyncQueue p)) + size (working (workers p))"

lemma drain_step:
  assumes "workers p \<noteq> []" and "Exited \<notin> set (workers p)" and "\<not> endQueue (asyncQueue p)" and "0 < left_to_do p"
  shows "\<exists>p'. pool_step p p' \<and> left_to_do p' < left_to_do p \<and> queued p' = queued p \<and> workers p' \<noteq> []
    \<and> Exited \<notin> set (workers p') \<and> \<not> endQueue (asyncQueue p')"
proof (cases "working (workers p) = {#}")
  case False
  from working_some [OF this] obtain j op where j: "j < length (workers p)" "workers p ! j = Working op" by blast
  let ?p = "p\<lparr>workers := (workers p)[j := Waiting], executed := executed p @ [op]\<rparr>"
  have run: "worker_Execute j p = Some ?p" using j by (simp add: worker_Execute_def)
  have "left_to_do ?p < left_to_do p"
    using working_update [OF j(1), of Waiting] j(2) by (simp add: left_to_do_def) (metis lessI size_add_mset)
  moreover have "Exited \<notin> set (workers ?p)" using assms(2) set_update_subset_insert [of "workers p" j Waiting] by auto
  ultimately show ?thesis using assms step_execute [OF run] by (intro exI [of _ ?p]) simp
next
  case True
  then obtain op rest where q: "sq_queue (asyncQueue p) = op # rest"
    using assms(4) by (cases "sq_queue (asyncQueue p)") (auto simp: left_to_do_def)
  have "workers p ! 0 \<noteq> Working x" for x
  proof
    assume "workers p ! 0 = Working x"
    with True working_update [of 0 "workers p" Waiting] assms(1) show False by simp
  qed
  moreover have "workers p ! 0 \<noteq> Exited" using assms(1,2) by (metis length_greater_0_conv nth_mem)
  ultimately have w0: "workers p ! 0 = Waiting" by (metis worker.exhaust)
  let ?p = "p\<lparr>asyncQueue := (asyncQueue p)\<lparr>sq_queue := rest\<rparr>, workers := (workers p)[0 := Working op], taken := taken p @ [op]\<rparr>"
  have run: "worker_Dequeue 0 p = Some ?p" using w0 q assms(1,3) by (simp add: worker_Dequeue_def Dequeue_def)
  have "left_to_do ?p < left_to_do p"
    using working_update [of 0 "workers p" "Working op"] w0 assms(1) by (simp add: left_to_do_def q True)
  moreover have "Exited \<notin> set (workers ?p)" using assms(2) set_update_subset_insert [of "workers p" 0 "Working op"] by auto
  ultimately show ?thesis using assms step_dequeue [OF run] by (intro exI [of _ ?p]) simp
qed

lemma pool_drains:
  "workers p \<noteq> [] \<Longrightarrow> Exited \<notin> set (workers p) \<Longrightarrow> \<not> endQueue (asyncQueue p) \<Longrightarrow>
    \<exists>p'. pool_step\<^sup>*\<^sup>* p p' \<and> left_to_do p' = 0 \<and> queued p' = queued p"
proof (induction "left_to_do p" arbitrary: p rule: less_induct)
  case less
  show ?case
  proof (cases "left_to_do p = 0")
    case False
    with drain_step [OF less.prems] obtain p1 where p1: "pool_step p p1" "left_to_do p1 < left_to_do p" "queued p1 = queued p"
      "workers p1 \<noteq> []" "Exited \<notin> set (workers p1)" "\<not> endQueue (asyncQueue p1)" by auto
    from less.hyps [OF p1(2,4-6)] p1(1,3) show ?thesis by (metis converse_rtranclp_into_rtranclp)
  qed blast
qed

lemma send_all_keeps [simp]:
  "workers (send_all qs db) = workers db" "endQueue (asyncQueue (send_all qs db)) = endQueue (asyncQueue db)"
  by (induction qs arbitrary: db) (simp_all add: send_all_def ExecuteAsync_def Enqueue_def)

section \<open>Properties\<close>


end
