(* ===== verification/Extranonces.thy ===== *)
theory Extranonces
  imports Ledger
begin

text \<open>
  The extranonces of the running pool (\<open>Stratum/Server.h\<close>, \<open>Client.cpp\<close>): only \<^verbatim>\<open>OnMiningSubscribe\<close> takes a number, every
  other part of a handler keeps the counter and the numbers of the clients, a line is at most one
  subscription. So no two subscribed clients work on the same coinbase transaction.
\<close>

section \<open>Everything but a subscription\<close>

definition same_numbers :: "world \<Rightarrow> world \<Rightarrow> bool" where
  "same_numbers w w' \<longleftrightarrow> s_extranonce (server w') = s_extranonce (server w)
     \<and> (\<forall>cid c'. objs w' cid = Some c' \<longrightarrow> c_subscribed c' \<longrightarrow> (\<exists>c. objs w cid = Some c \<and> steady c c'))"

lemma steady_trans: "steady a b \<Longrightarrow> steady b c \<Longrightarrow> steady a c"
  by (simp add: steady_def)

lemma same_numbers_trans:
  assumes "same_numbers s t" and "same_numbers t u"
  shows "same_numbers s u"
  unfolding same_numbers_def
proof (intro conjI allI impI)
  fix cid c'' assume "objs u cid = Some c''" "c_subscribed c''"
  then obtain c' where c': "objs t cid = Some c'" "steady c' c''" "c_subscribed c'"
    using assms(2) by (auto simp: same_numbers_def steady_def)
  then show "\<exists>c. objs s cid = Some c \<and> steady c c''"
    using assms(1) steady_trans unfolding same_numbers_def by blast
qed (use assms in \<open>simp add: same_numbers_def\<close>)

interpretation numbers: system_relation same_numbers
proof unfold_locales
  show "same_numbers s t \<Longrightarrow> same_numbers t u \<Longrightarrow> same_numbers s u" for s t u by (rule same_numbers_trans)
qed (auto simp: same_numbers_def steady_objs_def steady_def)

interpretation number_shares: share_relation same_numbers
  by unfold_locales (auto simp: same_numbers_def steady_def)


section \<open>The numbers handed out\<close>

text \<open>
  After \<open>n\<close> subscriptions: the next extranonce, those of the subscribed clients, and, unless the
  counter has wrapped around, that no two clients have the same.
\<close>

definition numbered :: "nat \<Rightarrow> world \<Rightarrow> bool" where
  "numbered n w \<longleftrightarrow> s_extranonce (server w) = of_nat n
     \<and> (\<forall>cid c. objs w cid = Some c \<longrightarrow> c_subscribed c \<longrightarrow> (\<exists>i < n. c_extranonce c = of_nat i))
     \<and> (n \<le> 2 ^ 32 \<longrightarrow> (\<forall>cid cid' c c'. objs w cid = Some c \<longrightarrow> c_subscribed c \<longrightarrow> objs w cid' = Some c' \<longrightarrow>
          c_subscribed c' \<longrightarrow> c_extranonce c = c_extranonce c' \<longrightarrow> cid = cid'))"

lemma numbered_kept:
  assumes "same_numbers w w'" and "numbered n w"
  shows "numbered n w'"
proof -
  have was: "\<exists>c. objs w cid = Some c \<and> c_subscribed c \<and> c_extranonce c = c_extranonce c'"
    if "objs w' cid = Some c'" "c_subscribed c'" for cid c'
    using assms(1) that unfolding same_numbers_def steady_def by metis
  show ?thesis
    unfolding numbered_def
  proof (intro conjI allI impI)
    show "s_extranonce (server w') = of_nat n" using assms by (simp add: same_numbers_def numbered_def)
    show "\<exists>i < n. c_extranonce c = of_nat i" if "objs w' cid = Some c" "c_subscribed c" for cid c
      using was [OF that] assms(2) unfolding numbered_def by metis
    show "cid = cid'" if "n \<le> 2 ^ 32" "objs w' cid = Some c" "c_subscribed c" "objs w' cid' = Some c'" "c_subscribed c'"
        "c_extranonce c = c_extranonce c'" for cid cid' c c'
      using was [OF that(2,3)] was [OF that(4,5)] assms(2) that(1,6) unfolding numbered_def by metis
  qed
qed

text \<open>At most \<open>k\<close> numbers are handed out.\<close>

definition hands_out :: "nat \<Rightarrow> world \<Rightarrow> world \<Rightarrow> bool" where
  "hands_out k w w' \<longleftrightarrow> (\<forall>n. numbered n w \<longrightarrow> (\<exists>j \<le> k. numbered (n + j) w'))"

lemma hands_out_mono: "hands_out k w w' \<Longrightarrow> k \<le> l \<Longrightarrow> hands_out l w w'"
  unfolding hands_out_def by (meson order_trans)

lemma hands_out_same: "same_numbers w w' \<Longrightarrow> hands_out k w w'"
  unfolding hands_out_def using numbered_kept by (metis add.right_neutral zero_le)

lemma hands_out_trans: "hands_out k w w1 \<Longrightarrow> hands_out l w1 w2 \<Longrightarrow> hands_out (k + l) w w2"
  unfolding hands_out_def by (metis add.assoc add_mono)

lemma keeps_same: "keeps same_numbers m \<Longrightarrow> keeps (hands_out k) m"
  by (simp add: keeps_def hands_out_same)

lemma keeps_then:
  assumes "keeps (hands_out k) m" and "\<And>a. keeps (hands_out l) (f a)"
  shows "keeps (hands_out (k + l)) (bindE m f)"
  unfolding keeps_def
proof
  fix s
  obtain t r where m: "m s = (t, r)" by (cases "m s")
  have 1: "hands_out k s t" by (rule keepsD [OF assms(1) m])
  show "hands_out (k + l) s (fst (bindE m f s))"
  proof (cases r)
    case (Inl e)
    then show ?thesis using 1 by (auto simp: bindE_def m intro: hands_out_mono)
  next
    case (Inr a)
    have "hands_out l t (fst (f a t))" using assms(2) by (simp add: keeps_def)
    with 1 show ?thesis using hands_out_trans by (simp add: bindE_def m Inr)
  qed
qed

lemma keeps_then_same: "keeps (hands_out k) m \<Longrightarrow> (\<And>a. keeps same_numbers (f a)) \<Longrightarrow> keeps (hands_out k) (bindE m f)"
  using keeps_then [of k m 0 f] by (simp add: keeps_same)

lemma keeps_same_then: "keeps same_numbers m \<Longrightarrow> (\<And>a. keeps (hands_out k) (f a)) \<Longrightarrow> keeps (hands_out k) (bindE m f)"
  using keeps_then [of 0 m k f] by (simp add: keeps_same)

text \<open>A subscription takes the next number.\<close>

definition take_extranonce :: "uint64 \<Rightarrow> uint32 action" where
  "take_extranonce cid =
     bindE (mod_client cid (\<lambda>c. c\<lparr>c_subscribed := True\<rparr>)) (\<lambda>_.
     bindE GetExtranonce (\<lambda>n.
     bindE (mod_client cid (\<lambda>c. c\<lparr>c_extranonce := n\<rparr>)) (\<lambda>_. returnE n)))"

lemma take_extranonce_apply:
  "fst (take_extranonce cid w) = w\<lparr>server := (server w)\<lparr>s_extranonce := s_extranonce (server w) + 1\<rparr>,
     objs := (objs w)(cid := map_option (\<lambda>c. c\<lparr>c_subscribed := True, c_extranonce := s_extranonce (server w)\<rparr>) (objs w cid))\<rparr>"
  by (simp add: take_extranonce_def mod_client_def bindE_mod bindE_def [of GetExtranonce] GetExtranonce_apply
      returnE_apply option.map_comp comp_def)

lemma fresh_number:
  assumes "i < n" and "n < 2 ^ 32"
  shows "(of_nat i :: uint32) \<noteq> of_nat n"
proof
  assume "(of_nat i :: uint32) = of_nat n"
  then have "unat (of_nat i :: uint32) = unat (of_nat n :: uint32)" by simp
  then show False using assms unat_of_nat_fits [of i, where ?'a = 32] unat_of_nat_fits [of n, where ?'a = 32] by simp
qed

lemma take_numbered:
  assumes "numbered n w"
  shows "numbered (n + 1) (fst (take_extranonce cid w))"
proof -
  let ?x = "s_extranonce (server w)" and ?w = "fst (take_extranonce cid w)"
  have x: "?x = of_nat n" and below: "\<And>cid c. objs w cid = Some c \<Longrightarrow> c_subscribed c \<Longrightarrow> \<exists>i < n. c_extranonce c = of_nat i"
    and dist: "\<And>a b c d. n \<le> 2 ^ 32 \<Longrightarrow> objs w a = Some c \<Longrightarrow> c_subscribed c \<Longrightarrow> objs w b = Some d \<Longrightarrow> c_subscribed d \<Longrightarrow>
      c_extranonce c = c_extranonce d \<Longrightarrow> a = b" using assms unfolding numbered_def by blast+
  have here: "c_extranonce c = of_nat n" if "objs ?w cid = Some c" for c
    using that by (auto simp: take_extranonce_apply x)
  have there: "objs ?w a = objs w a" if "a \<noteq> cid" for a using that by (simp add: take_extranonce_apply)
  have new: "c_extranonce d \<noteq> of_nat n" if "n < 2 ^ 32" "a \<noteq> cid" "objs ?w a = Some d" "c_subscribed d" for a d
    using below [of a d] fresh_number [OF _ that(1)] that(3,4) there [OF that(2)] by metis
  show ?thesis
    unfolding numbered_def
  proof (intro conjI allI impI)
    show "s_extranonce (server ?w) = of_nat (n + 1)" by (simp add: take_extranonce_apply x)
    show "\<exists>i < n + 1. c_extranonce c = of_nat i" if "objs ?w a = Some c" "c_subscribed c" for a c
      using here [of c] below [of a c] there [of a] that by (cases "a = cid") (auto simp: less_Suc_eq)
    show "a = b" if "n + 1 \<le> 2 ^ 32" "objs ?w a = Some c" "c_subscribed c" "objs ?w b = Some d" "c_subscribed d"
        "c_extranonce c = c_extranonce d" for a b c d
    proof -
      have "n < 2 ^ 32" using that(1) by simp
      then show ?thesis
        using that(2-6) here new [of a c] new [of b d] dist [of a c b d] there [of a] there [of b] by (metis less_imp_le)
    qed
  qed
qed

lemma OnMiningSubscribe_takes:
  "OnMiningSubscribe env cid msg = bindE (take_extranonce cid) (\<lambda>n.
     bindE (liftE (get_field ''id'' msg)) (\<lambda>mid.
     bindE (SendMessage env cid (j_object [(''id'', mid), (''result'', j_array
           [j_array [j_string ''mining.notify'', j_string ''ae6812eb4cd7735a302a8a9dd95cf71f''],
            j_string (BinToASCII (Binary (Append n ByteBuffer_new))), j_int 4]), (''error'', j_null)])) (\<lambda>_.
     SendJob env cid False)))"
proof -
  have ret: "bindE (returnE n) f = f n" for n and f :: "uint32 \<Rightarrow> unit action" by (rule ext) (simp add: bindE_return)
  show ?thesis unfolding OnMiningSubscribe_def take_extranonce_def Let_def bindE_assoc ret ..
qed

lemma subscribe_hands_out: "keeps (hands_out 1) (OnMiningSubscribe env cid msg)"
  unfolding OnMiningSubscribe_takes
proof (rule keeps_then_same)
  show "keeps (hands_out 1) (take_extranonce cid)"
    using take_numbered by (auto simp: keeps_def hands_out_def)
qed (intro numbers.keeps_intros numbers.cl_SendMessage numbers.cl_SendJob)

text \<open>A line is at most one subscription.\<close>

lemma line_hands_out: "keeps (hands_out 1) (on_line env cid)"
proof -
  have "keeps (hands_out 1) (OnMessage env cid msg)" for msg
  proof -
    have by_name: "keeps (hands_out 1) (if m = ''mining.submit'' then OnMiningSubmit env cid msg
        else if m = ''mining.subscribe'' then OnMiningSubscribe env cid msg
        else if m = ''mining.authorize'' then OnMiningAuthorize env cid msg else returnE ())" for m msg
      by (simp add: subscribe_hands_out keeps_same number_shares.cl_Submit numbers.cl_authorize numbers.keeps_returnE
          del: One_nat_def)
    show ?thesis
      unfolding OnMessage_def
    proof (rule keeps_same_then [OF numbers.keeps_liftE])
      show "keeps (hands_out 1) (case p of (m, msg) \<Rightarrow> bindE (liftE (ToString (e_show_double env) msg)) (\<lambda>_.
          if m = ''mining.submit'' then OnMiningSubmit env cid msg
          else if m = ''mining.subscribe'' then OnMiningSubscribe env cid msg
          else if m = ''mining.authorize'' then OnMiningAuthorize env cid msg else returnE ()))" for p
        unfolding split_def by (rule keeps_same_then [OF numbers.keeps_liftE by_name])
    qed
  qed
  then have "keeps (hands_out 1) (bindE (liftE r) (OnMessage env cid))" for r
    by (intro keeps_same_then numbers.keeps_liftE)
  then have "keeps (hands_out 1) (tryE (bindE (liftE r) (OnMessage env cid)) (\<lambda>_. returnE ()))" for r
    by (auto simp: keeps_def tryE_def returnE_def split: prod.splits sum.splits fault.splits) (metis fst_conv)+
  then show ?thesis
    unfolding on_line_def
    by (intro keeps_same_then keeps_then_same numbers.cl_get_client numbers.keeps_if number_shares.cl_Redirect
        numbers.keeps_returnE numbers.cl_mod_client) simp_all
qed

lemma receive_hands_out: "keeps (hands_out (count_list bytes (CHR 0x0A))) (receive_loop env cid bytes)"
proof (induction bytes)
  case (Cons ch bytes)
  show ?case
  proof (cases "ch = CHR 0x0A")
    case True
    then show ?thesis using keeps_then [OF line_hands_out Cons.IH] by simp
  next
    case False
    then show ?thesis using Cons.IH by (simp, intro keeps_same_then numbers.cl_mod_client) simp_all
  qed
qed (simp add: keeps_same numbers.keeps_returnE)

lemma OnReceive_hands_out: "keeps (hands_out (count_list bytes (CHR 0x0A))) (OnReceive env cid ec bytes)"
proof -
  have "keeps (hands_out (count_list bytes (CHR 0x0A))) (bindE (receive_loop env cid bytes) (\<lambda>_. bindE (get_client cid) (\<lambda>c.
      bindE (if length (c_recvMessage c) > MAX_PACKET then client_Disconnect cid else returnE ()) (\<lambda>_. StartRead cid))))"
    by (rule keeps_then_same [OF receive_hands_out])
      (intro numbers.keeps_intros numbers.cl_get_client numbers.cl_Disconnect numbers.cl_start_io)
  then show ?thesis
    unfolding OnReceive_def by (simp add: keeps_same numbers.cl_Disconnect numbers.keeps_returnE)
qed


section \<open>Runs\<close>

text \<open>The states of the pool after the end of \<open>n\<close> lines has been received in all.\<close>

inductive after_lines :: "(env \<Rightarrow> bool) \<Rightarrow> nat \<Rightarrow> world \<Rightarrow> bool" for ok :: "env \<Rightarrow> bool" where
  lines_start: "sys_init ok w \<Longrightarrow> after_lines ok 0 w"
| lines_silent: "after_lines ok n w \<Longrightarrow> silent_step ok w w' \<Longrightarrow> after_lines ok n w'"
| lines_receive: "after_lines ok n w \<Longrightarrow> ok env \<Longrightarrow> IoRead cid \<in> pending w \<Longrightarrow> objs w cid \<noteq> None \<Longrightarrow>
    OnReceive env cid ec bytes (finish_io (IoRead cid) w) = (w', r) \<Longrightarrow> survives r \<Longrightarrow>
    after_lines ok (n + count_list bytes (CHR 0x0A)) w'"

text \<open>These are the reachable states.\<close>

lemma sys_step_lines:
  assumes n: "after_lines ok n w" and step: "sys_step ok w w'"
  shows "\<exists>n. after_lines ok n w'"
  using step
proof (cases rule: sys_step.cases)
  case (sys_receive env cid ec bytes r)
  from lines_receive [where ok = ok, OF n sys_receive(1-5)] show ?thesis by blast
next
  case (sys_accept env cid err remote r)
  from lines_silent [OF n silent_accept [where ok = ok, OF sys_accept]] show ?thesis by blast
next
  case (sys_sent cid data ec r)
  from lines_silent [OF n silent_sent [where ok = ok, OF sys_sent]] show ?thesis by blast
next
  case (sys_task env ts t ts' r)
  from lines_silent [OF n silent_task [where ok = ok, OF sys_task]] show ?thesis by blast
next
  case (sys_notify_timer env r)
  from lines_silent [OF n silent_notify_timer [where ok = ok, OF sys_notify_timer]] show ?thesis by blast
next
  case (sys_check_timer env r)
  from lines_silent [OF n silent_check_timer [where ok = ok, OF sys_check_timer]] show ?thesis by blast
next
  case (sys_upload env r)
  from lines_silent [OF n silent_upload [where ok = ok, OF sys_upload]] show ?thesis by blast
next
  case (sys_database db)
  from lines_silent [OF n silent_database [where ok = ok, OF sys_database(2)]] sys_database(1) show ?thesis by blast
qed

lemma lines_reach: "after_lines ok n w \<Longrightarrow> reach (sys_init ok) (sys_step ok) w"
proof (induction rule: after_lines.induct)
  case (lines_start w)
  then show ?case by (rule reach_init)
next
  case (lines_silent n w w')
  from lines_silent(3) silent_sys_step [OF lines_silent(2)] show ?case by (rule reach_step)
next
  case (lines_receive n w env cid ec bytes w' r)
  from lines_receive(7) sys_receive [where ok = ok, OF lines_receive(2-6)] show ?case by (rule reach_step)
qed

lemma reach_lines: "reach (sys_init ok) (sys_step ok) w \<Longrightarrow> \<exists>n. after_lines ok n w"
proof (induction rule: reach.induct)
  case (reach_init w)
  then show ?case by (blast intro: lines_start)
next
  case (reach_step w w')
  then show ?case by (blast dest: sys_step_lines)
qed

lemma silent_numbers: "silent_step ok w w' \<Longrightarrow> same_numbers w w'"
proof (induction rule: silent_step.induct)
  case (silent_accept env cid w err remote w' r)
  from keepsD [OF numbers.cl_OnAccept silent_accept(4)] show ?case by (simp add: same_numbers_def)
next
  case (silent_sent cid data w ec w' r)
  from keepsD [OF numbers.cl_OnSend silent_sent(3)] show ?case .
next
  case (silent_task env w ts t ts' w' r)
  from keepsD [OF numbers.cl_run_task silent_task(3)] show ?case by (simp add: same_numbers_def)
next
  case (silent_notify_timer env w w' r)
  from keepsD [OF numbers.cl_timers(1) silent_notify_timer(3)] show ?case by (simp add: same_numbers_def)
next
  case (silent_check_timer env w w' r)
  from keepsD [OF numbers.cl_timers(2) silent_check_timer(3)] show ?case by (simp add: same_numbers_def)
next
  case (silent_upload env w w' r)
  then show ?case
    by (auto simp: UploadTimerExpired_def UploadTimerStart_def start_io_apply same_numbers_def steady_def
        split: option.splits sum.splits)
next
  case (silent_database w db)
  show ?case by (simp add: same_numbers_def)
qed

lemma start_numbered:
  assumes "Server_Run env (world_new db) = (w, Inr ())"
  shows "numbered 0 w"
proof -
  from Server_Run_parts [OF assms] obtain w1 where
    w1: "bindE NetworkMgr_Initialize (\<lambda>_. bindE (connect_loop env (BitcoinRPC (e_cfg env))) (\<lambda>_. BlockNotifyBind))
      ((world_new db)\<lparr>pending := {UploadTimer}\<rparr>) = (w1, Inr ())" and w: "StartAccept env w1 = (w, Inr ())" by blast
  have "same_numbers ((world_new db)\<lparr>pending := {UploadTimer}\<rparr>) w"
    using keepsD [OF numbers.keeps_bindE [OF numbers.cl_connect] w1] keepsD [OF numbers.cl_StartAccept w]
    by (rule numbers.kept_trans)
  moreover have "numbered 0 ((world_new db)\<lparr>pending := {UploadTimer}\<rparr>)" by (simp add: numbered_def world_new_def)
  ultimately show ?thesis by (rule numbered_kept)
qed

lemma after_lines_numbered: "after_lines ok n w \<Longrightarrow> \<exists>k \<le> n. numbered k w"
proof (induction rule: after_lines.induct)
  case (lines_start w)
  then obtain env db where "Server_Run env (world_new db) = (w, Inr ())" by (auto simp: sys_init_def)
  then show ?case using start_numbered by (intro exI [of _ 0]) simp
next
  case (lines_silent n w w')
  then show ?case using numbered_kept [OF silent_numbers] by blast
next
  case (lines_receive n w env cid ec bytes w' r)
  from lines_receive(7) obtain k where k: "k \<le> n" "numbered k w" by blast
  then have "numbered k (finish_io (IoRead cid) w)" by (simp add: numbered_def)
  with keepsD [OF OnReceive_hands_out lines_receive(5)] obtain j where
    j: "j \<le> count_list bytes (CHR 0x0A)" "numbered (k + j) w'" unfolding hands_out_def by blast
  show ?case by (rule exI [of _ "k + j"]) (use j add_mono [OF k(1) j(1)] in simp)
qed

section \<open>Different coinbase transactions\<close>

lemma word_bytes_eq: "word_bytes x = word_bytes y \<Longrightarrow> x = y" for x y :: uint32
  using u32_codec.round_trip [of x] u32_codec.round_trip [of y] by simp

lemma after_lines_distinct:
  assumes "after_lines ok n w" and "n \<le> 2 ^ 32"
    and "objs w cid = Some c" "c_subscribed c" "objs w cid' = Some c'" "c_subscribed c'" "cid \<noteq> cid'"
  shows "c_extranonce c \<noteq> c_extranonce c'"
proof -
  obtain k where "k \<le> n" "numbered k w" using after_lines_numbered [OF assms(1)] by blast
  moreover from this(1) have "k \<le> 2 ^ 32" using assms(2) by simp
  ultimately show ?thesis using assms(3-7) unfolding numbered_def by blast
qed

text \<open>
  C12. No two miners can mine the same coinbase transaction. In every state the running pool reaches before it
  has received the ends of \<open>2 ^ 32\<close> lines, any two clients that are subscribed have different extranonces;
  so the bytes of their coinbase transactions differ, whatever the four bytes are that each miner adds, and
  whatever the blocks are that they work on.
\<close>

theorem extranonces_of_clients:
  assumes "after_lines ok n w" and "n \<le> 2 ^ 32"
    and "objs w cid = Some c" "c_subscribed c" "objs w cid' = Some c'" "c_subscribed c'" "cid \<noteq> cid'"
    and "length e2 = 4" "length e2' = 4"
  shows "c_extranonce c \<noteq> c_extranonce c'
    \<and> enc_Transaction (coinbase_with h pk v (word_bytes (c_extranonce c) @ e2))
      \<noteq> enc_Transaction (coinbase_with h' pk' v' (word_bytes (c_extranonce c') @ e2'))"
proof -
  have x: "c_extranonce c \<noteq> c_extranonce c'" by (rule after_lines_distinct [OF assms(1-7)])
  let ?tx = "\<lambda>h pk v (c :: Client) e. enc_Transaction (coinbase_with h pk v (word_bytes (c_extranonce c) @ e))"
  have "take 4 (drop 46 (?tx h pk v c e)) = word_bytes (c_extranonce c)" if "length e = 4" for h pk v e and c :: Client
    using that by (simp add: enc_coinbase_with)
  then have "?tx h pk v c e2 \<noteq> ?tx h' pk' v' c' e2'" using x word_bytes_eq assms(8,9) by metis
  with x show ?thesis ..
qed

end
