(* ===== verification/Pool_Run.thy ===== *)
theory Pool_Run
  imports Templates Sessions Delivery Extranonces
begin

text \<open>
  One run of the whole pool, from its start to a share that pays: it shows that the theorems on reachable
  states speak of states in which everything has happened. The hash function is one that every block
  satisfies at difficulty two and none at the difficulty of the network. A second run has two miners that subscribe.
\<close>

section \<open>The start with a daemon\<close>

text \<open>A daemon that answers nothing yet.\<close>

definition start_env :: env where
  "start_env = lucky_env\<lparr>e_cfg := (e_cfg lucky_env)\<lparr>BitcoinRPC := [''d'']\<rparr>, e_explode := (\<lambda>s d. [''host'', ''port'', ''user'', ''pass'']),
     e_http := (\<lambda>t rpc request. null_exchange)\<rparr>"

abbreviation run_sha :: hash_fn where "run_sha \<equiv> e_sha lucky_env"
abbreviation run_pk :: BinaryData where "run_pk \<equiv> ASCIIToBin ''00''"
abbreviation run_ok :: "env \<Rightarrow> bool" where "run_ok \<equiv> env_ok run_sha run_pk"
abbreviation run_reach :: "world \<Rightarrow> bool" where "run_reach \<equiv> reach (sys_init run_ok) (sys_step run_ok)"

lemma start_env_ok: "run_ok start_env"
  by (simp add: env_ok_def start_env_def lucky_env_def sample_env_def sample_config_def)

lemma start_Query:
  assumes "set method \<inter> {CHR 0x22, CHR 0x27} = {}" and "plain params"
  shows "bindE (rpc_Query start_env rpc method params) f w
    = f j_null (w\<lparr>net := (net w)\<lparr>n_calls := n_calls (net w) + 1\<rparr>\<rparr>)"
  by (rule rpc_Query_run)
    (use null_answer [OF assms, of rpc] in \<open>simp add: start_env_def lucky_env_def null_env_def sample_env_def\<close>)

lemma no_params_plain: "plain no_params"
  by (simp add: no_params_def JSON_new_def)

lemma start_BlockCheck:
  assumes "n_cons (net w) = [rpc]"
  shows "BlockCheck start_env w = (w\<lparr>net := (net w)\<lparr>n_calls := n_calls (net w) + 1\<rparr>\<rparr>, Inr ())"
proof -
  have "get_int ''blocks'' j_null = Inl (Exception ''Node is not an int type'')"
    by (simp add: get_int_def null_field GetInt_def)
  then have "check_daemon start_env rpc w = (w\<lparr>net := (net w)\<lparr>n_calls := n_calls (net w) + 1\<rparr>\<rparr>, Inl (Exception ''Node is not an int type''))"
    by (simp add: check_daemon_def start_Query no_params_plain bindE_lift)
  then show ?thesis
    using assms by (simp add: BlockCheck_def bindE_get) (simp add: bindE_def [of "tryE _ _"] tryE_def returnE_apply)
qed

lemma start_Connect:
  assumes "n_cons (net w) = []"
  shows "\<exists>rpc. Connect start_env info w = (w\<lparr>net := (net w)\<lparr>n_cons := [rpc], n_calls := n_calls (net w) + 2\<rparr>\<rparr>, Inr ())"
proof -
  obtain rpc where rpc: "JSONRPC_Connect (e_base64 start_env) (e_resolve start_env) (e_connect start_env) info [] = Inr rpc"
    by (simp add: JSONRPC_Connect_def start_env_def lucky_env_def sample_env_def Let_def)
  let ?w = "w\<lparr>net := (net w)\<lparr>n_calls := n_calls (net w) + 1, n_cons := [rpc]\<rparr>\<rparr>"
  have "Connect start_env info w = BlockCheck start_env ?w"
    using assms by (simp add: Connect_def rpc bindE_lift start_Query no_params_plain null_field mod_net_def bindE_mod bindE_get)
  then show ?thesis using start_BlockCheck [of ?w rpc] by (intro exI [of _ rpc]) simp
qed

text \<open>No share was recorded yet, and nothing was queued for the database.\<close>

definition fresh_store :: "world \<Rightarrow> bool" where
  "fresh_store w \<longleftrightarrow> dataMgr w = \<lparr>datastore = []\<rparr> \<and> database w = sample_pool"

lemma run_start:
  "\<exists>w rpc. sys_init run_ok w \<and> run_reach w \<and> net w = \<lparr>n_binds = 1, n_blockHeight = 0, n_cons = [rpc], n_curBlockTmpl = None, n_calls = 2\<rparr>
    \<and> server w = \<lparr>s_clients = {}, s_clientId = 1, s_bans = [], s_currentWork = None, s_extranonce = 0\<rparr>
    \<and> posted w = [] \<and> objs w 0 = Some (Client_new start_env 0) \<and> fresh_store w"
proof -
  let ?info = "\<lparr>Host = ''host'', Port = ''port'', User = ''user'', Pass = ''pass'', B64Auth = []\<rparr>"
  let ?w1 = "(world_new sample_pool)\<lparr>pending := timers\<rparr>"
  obtain rpc where rpc: "Connect start_env ?info ?w1
      = (?w1\<lparr>net := \<lparr>n_binds = 0, n_blockHeight = 0, n_cons = [rpc], n_curBlockTmpl = None, n_calls = 2\<rparr>\<rparr>, Inr ())"
    using start_Connect [of ?w1 ?info] by (auto simp: world_new_def)
  let ?w2 = "?w1\<lparr>net := \<lparr>n_binds = 0, n_blockHeight = 0, n_cons = [rpc], n_curBlockTmpl = None, n_calls = 2\<rparr>\<rparr>"
  let ?w3 = "?w2\<lparr>net := (net ?w2)\<lparr>n_binds := 1\<rparr>, server := (server ?w2)\<lparr>s_clientId := 1\<rparr>, objs := [0 \<mapsto> Client_new start_env 0],
      pending := insert (IoAccept 0) timers\<rparr>"
  have loop: "connect_loop start_env (BitcoinRPC (e_cfg start_env)) ?w1 = (?w2, Inr ())"
    using rpc by (simp add: start_env_def bindE_def [of "Connect _ _"] returnE_apply)
  have nm: "NetworkMgr_Initialize ((world_new sample_pool)\<lparr>pending := {UploadTimer}\<rparr>) = (?w1, Inr ())"
    by (auto simp: run_defs mod_net_def world_new_def timers_def bindE_def modE_def start_io_def)
  have "e_listen start_env (StratumPort (e_cfg start_env)) = Inr ()"
    by (simp add: start_env_def lucky_env_def sample_env_def)
  then have "bindE BlockNotifyBind (\<lambda>_. Server_Start start_env) ?w2 = (?w3, Inr ())"
    by (simp add: BlockNotifyBind_def mod_net_def bindE_mod bindE_get bindE_def [of "BlockNotify _ _"] BlockNotify_apply
        Server_Start_def bindE_lift StartAccept_apply world_new_def bindE_assoc)
  then have "Server_Run start_env (world_new sample_pool) = (?w3, Inr ())"
    unfolding Server_Run_def
    by (simp add: bindE_def [of DataMgr_Initialize] DataMgr_Initialize_apply world_new_def)
      (simp add: bindE_def [of NetworkMgr_Initialize] bindE_def [of "connect_loop _ _"] nm [unfolded world_new_def, simplified] loop [unfolded world_new_def, simplified])
  moreover have "pool_init sample_pool" by (simp add: pool_init_def sample_pool_def)
  ultimately have "sys_init run_ok ?w3" unfolding sys_init_def using start_env_ok by blast
  moreover from this have "run_reach ?w3" by (rule reach_init [of "sys_init run_ok"])
  ultimately show ?thesis by (intro exI [of _ ?w3] exI [of _ rpc]) (simp add: world_new_def fresh_store_def)
qed


section \<open>A daemon with work, a database with a worker\<close>

definition work_offered :: JSON where
  "work_offered = j_object [(''version'', j_int 2), (''previousblockhash'', j_string (BinToASCII (replicate 32 0))),
     (''curtime'', j_int 1400000000), (''bits'', j_string (BinToASCII (Reverse (word_bytes (0x1b00ffff :: uint32))))),
     (''coinbasevalue'', j_int 50), (''height'', j_int 6), (''transactions'', j_array [])]"

definition reply :: "JSON \<Rightarrow> JSON" where
  "reply result = j_object [(''result'', result)]"

definition reply_exchange :: "JSON \<Rightarrow> exchange" where
  "reply_exchange result =
     \<lparr>x_error = None, x_first = Inr (''HTTP/1.1 200 OK'' @ [CHR 0x0D] @ LF @ [CHR 0x0D] @ LF
        @ (case ToString (\<lambda>_. []) (reply result) of Inr str \<Rightarrow> str | Inl _ \<Rightarrow> [])), x_more = None\<rparr>"

definition run_env :: env where
  "run_env = worker_env\<lparr>e_http := \<lambda>t rpc request.
     reply_exchange (if even t then j_object [(''blocks'', j_int 5)] else work_offered)\<rparr>"

lemma run_env_ok: "run_ok run_env"
  by (simp add: env_ok_def run_env_def worker_env_def lucky_env_def sample_env_def sample_config_def)

lemma run_answer:
  assumes "set method \<inter> {CHR 0x22, CHR 0x27} = {}" and "plain result" and "e_http run_env t rpc = (\<lambda>_. reply_exchange result)"
  shows "JSONRPC_Query (e_show_double run_env) (e_qi run_env) rpc (e_http run_env t rpc) method no_params = Inr result"
proof -
  have plain: "plain (reply result)" using assms(2) by (simp add: reply_def)
  obtain str where str: "ToString (\<lambda>_. []) (reply result) = Inr str" using ToString_total [OF plain_ok [OF plain]] by blast
  have "JSONRPC_Query (\<lambda>_. []) sample_qi rpc (\<lambda>_. reply_exchange result) method no_params
      = Inr (case map_of (j_map (reply result)) ''result'' of Some r \<Rightarrow> r | None \<Rightarrow> JSON_new JSON_NULL)"
    by (rule Query_answered [OF sample_laws assms(1) no_params_plain plain, where s = str and rest = "[]" and b = str
          and later = None and hs = "[]"])
      (use str in \<open>simp_all add: reply_def reply_exchange_def\<close>)
  moreover have "map_of (j_map (reply result)) ''result'' = Some result"
    unfolding reply_def by (rule object_member) simp_all
  ultimately show ?thesis using assms(3) by (simp add: run_env_def worker_env_def lucky_env_def sample_env_def)
qed

lemma work_fields:
  "get_int ''version'' work_offered = Inr 2" "get_string ''previousblockhash'' work_offered = Inr (BinToASCII (replicate 32 0))"
  "get_int ''curtime'' work_offered = Inr 1400000000"
  "get_string ''bits'' work_offered = Inr (BinToASCII (Reverse (word_bytes (0x1b00ffff :: uint32))))"
  "get_int ''coinbasevalue'' work_offered = Inr 50" "get_int ''height'' work_offered = Inr 6"
  "get_field ''transactions'' work_offered = Inr (j_array [])"
  unfolding work_offered_def get_int_def get_string_def
  by (simp_all add: get_field_object del: One_nat_def) (simp_all add: j_int_def assign_int_def JSON_new_def GetInt_def)

lemma run_offers: "offers work_offered 2 (replicate 32 0) 1400000000 0x1b00ffff 50 []"
  unfolding offers_def by (simp add: work_fields)

lemma run_announces:
  assumes "n_calls (net w) = 2"
  shows "announces run_env rpc w 5 work_offered"
proof -
  have blocks: "get_int ''blocks'' (j_object [(''blocks'', j_int 5)]) = Inr 5"
    by (simp add: get_int_def get_field_object) (simp add: j_int_def assign_int_def JSON_new_def GetInt_def)
  have "plain work_offered" by (simp add: work_offered_def hex_no_quotes)
  then show ?thesis
    unfolding announces_def assms
    by (intro conjI exI [of _ "j_object [(''blocks'', j_int 5)]"] exI [of _ 6] run_answer)
      (simp_all add: blocks work_fields run_env_def)
qed


theorem template_from_daemon_witness:
  "\<exists>block. template_block run_env 5 work_offered = Inr block
    \<and> blk_version block = 2 \<and> blk_time block = 1400000000 \<and> blk_bits block = 0x1b00ffff
    \<and> Reverse (blk_prevBlockHash block) = replicate 32 0 \<and> blk_tx block = [CreateCoinbaseTX 5 run_pk 50]"
proof -
  have pk: "ASCIIToBin (MiningAddress (e_cfg run_env)) = run_pk" using run_env_ok by (simp add: env_ok_def)
  from template_from_daemon [OF run_offers, of run_env 5] show ?thesis unfolding pk by auto
qed


section \<open>The run\<close>

text \<open>A miner has connected; its connection is read from, the pool is idle and has one daemon.\<close>

lemma run_connected:
  "\<exists>w rpc. run_reach w \<and> n_cons (net w) = [rpc] \<and> n_binds (net w) = 1 \<and> n_blockHeight (net w) = 0 \<and> n_calls (net w) = 2
    \<and> posted w = [] \<and> s_clients (server w) = {0} \<and> s_currentWork (server w) = None \<and> IoRead 0 \<in> pending w \<and> objs w 0 = Some ((Client_new start_env 0)\<lparr>c_ip := 7\<rparr>) \<and> fresh_store w"
proof -
  obtain w rpc where w: "run_reach w" "net w = \<lparr>n_binds = 1, n_blockHeight = 0, n_cons = [rpc], n_curBlockTmpl = None, n_calls = 2\<rparr>"
    "server w = \<lparr>s_clients = {}, s_clientId = 1, s_bans = [], s_currentWork = None, s_extranonce = 0\<rparr>"
    "posted w = []" "objs w 0 = Some (Client_new start_env 0)" "fresh_store w" using run_start by blast
  obtain w' where w': "OnAccept run_env 0 False (Inr 7) (finish_io (IoAccept 0) w) = (w', Inr ())"
    "IoRead 0 \<in> pending w'" "objs w' 0 = Some ((Client_new start_env 0)\<lparr>c_ip := 7\<rparr>)" "s_clients (server w') = {0}"
    "net w' = net w" "posted w' = []"
    "s_currentWork (server w') = None" "dataMgr w' = dataMgr w" "database w' = database w"
    using accept_step [OF w(5), of run_env 7] by (auto simp: w(3,4))
  have "IoAccept 0 \<in> pending w" using keeps_listening.reach_inv [OF w(1)] by (simp add: listening_ok_def w(3))
  then have "sys_step run_ok w w'" using w(5) by (intro sys_accept [where ok = run_ok, OF run_env_ok _ _ w'(1)]) simp_all
  with w(1) have "run_reach w'" by (rule reach_step)
  with w' show ?thesis by (intro exI [of _ w'] exI [of _ rpc]) (use w(6) in \<open>simp add: w(2) fresh_store_def\<close>)
qed

theorem new_block_reaches_miners_witness:
  "\<exists>w w' block c. run_reach w \<and> (sys_step run_ok)\<^sup>*\<^sup>* w w' \<and> template_block run_env 5 work_offered = Inr block
    \<and> s_currentWork (server w) = None \<and> s_currentWork (server w') = Some block
    \<and> s_clients (server w') = {0} \<and> objs w 0 = Some c \<and> c_jobs c = Map.empty \<and> served run_env block 0 c w'"
proof -
  obtain w rpc where w: "run_reach w" "n_cons (net w) = [rpc]" "n_binds (net w) = 1" "n_blockHeight (net w) = 0" "n_calls (net w) = 2"
    "posted w = []" "s_clients (server w) = {0}" "s_currentWork (server w) = None" "objs w 0 = Some ((Client_new start_env 0)\<lparr>c_ip := 7\<rparr>)"
    using run_connected by blast
  have "n_blockHeight (net w) < ucast (5 :: int64)" "3 \<le> unat (drop_bit 24 (0x1b00ffff :: uint32))"
    by (simp_all add: w(4) drop_bit_eq_div)
  from new_block_reaches_miners [OF w(1) run_env_ok w(2,3,6) run_announces [OF w(5)] this(1) run_offers this(2)] w
  show ?thesis by (fastforce simp: Client_new_def)
qed

text \<open>In the same state a subscription finds no work.\<close>

theorem subscribe_without_work_witness:
  "\<exists>w w' c. run_reach w \<and> 0 \<in> s_clients (server w) \<and> IoRead 0 \<in> pending w \<and> objs w 0 = Some c
    \<and> OnMiningSubscribe run_env 0 (j_object [(''id'', j_int 7)]) w = (w', Inl (Undefined ''null pointer''))"
proof -
  obtain w where w: "run_reach w" "s_clients (server w) = {0}" "IoRead 0 \<in> pending w" "s_currentWork (server w) = None"
    "objs w 0 = Some ((Client_new start_env 0)\<lparr>c_ip := 7\<rparr>)"
    using run_connected by blast
  with subscribe_without_work [OF w(5) _ _ w(4), of "j_object [(''id'', j_int 7)]" "j_int 7"] show ?thesis
    by (fastforce simp: get_field_object)
qed

text \<open>The daemon reports a block, and the miner has a job.\<close>

lemma run_working:
  "\<exists>w block job params. run_reach w \<and> template_block run_env 5 work_offered = Inr block
    \<and> make_job block 2 = Inr job \<and> job_params 0 job True = Inr params \<and> IoRead 0 \<in> pending w
    \<and> objs w 0 = Some ((Client_new start_env 0)\<lparr>c_ip := 7, c_jobid := 1, c_jobs := [0 \<mapsto> job]\<rparr>)
    \<and> fresh_store w \<and> s_currentWork (server w) = Some block \<and> (\<exists>t. ToString (e_show_double run_env) (notify_message params) = Inr t \<and> (0, t @ LF) \<in> set (wire w))"
proof -
  obtain w rpc where w: "run_reach w" "n_cons (net w) = [rpc]" "n_binds (net w) = 1" "n_blockHeight (net w) = 0" "n_calls (net w) = 2"
    "posted w = []" "s_clients (server w) = {0}" "IoRead 0 \<in> pending w" "objs w 0 = Some ((Client_new start_env 0)\<lparr>c_ip := 7\<rparr>)"
    "fresh_store w" using run_connected by blast
  have "n_blockHeight (net w) < ucast (5 :: int64)" "3 \<le> unat (drop_bit 24 (0x1b00ffff :: uint32))"
    by (simp_all add: w(4) drop_bit_eq_div)
  from block_reaches [OF w(1) run_env_ok w(2,3,6) run_announces [OF w(5)] this(1) run_offers this(2)] obtain w' block where
    w': "(silent_step run_ok)\<^sup>*\<^sup>* w w'" "template_block run_env 5 work_offered = Inr block" "s_currentWork (server w') = Some block"
      "served run_env block 0 ((Client_new start_env 0)\<lparr>c_ip := 7\<rparr>) w'" "pending w \<subseteq> pending w'"
      "dataMgr w' = dataMgr w" "database w' = database w" by (auto simp: w(7,9))
  have diff: "c_diff (Client_new start_env 0) = 2" "c_jobid (Client_new start_env 0) = 0"
    by (simp_all add: Client_new_def start_env_def lucky_env_def sample_env_def sample_config_def)
  have "run_reach w'" using silent_sys_steps [OF w'(1)] w(1) by (rule reach_steps)
  with w'(2-7) w(8,10) show ?thesis unfolding served_def fresh_store_def by (auto simp: diff)
qed

lemma login_text_ok:
  "\<exists>str. ToString (e_show_double run_env) (login_request (j_int 1) ''worker'' ''x'') = Inr str \<and> CHR 0x0A \<notin> set str"
  by (simp add: login_request_def j_object_eq j_array_eq j_string_def j_int_def assign_string_def assign_int_def
      JSON_new_def ToString_def EscapeString_plain show_int64_def GetInt_def GetString_def show_dec.simps [of "Suc 0"] Let_def)

lemma run_laws: "qi_laws (e_qi run_env)"
  using sample_laws by (simp add: run_env_def worker_env_def lucky_env_def sample_env_def)

text \<open>The miner logs in; the database knows the worker.\<close>

lemma run_logged_in:
  "\<exists>w block job params c. run_reach w \<and> template_block run_env 5 work_offered = Inr block
    \<and> make_job block 2 = Inr job \<and> job_params 0 job True = Inr params
    \<and> objs w 0 = Some c \<and> c_jobs c = [0 \<mapsto> job] \<and> ''worker'' \<in> c_workers c \<and> c_shareLimiter c = ShareLimiter_new start_env
    \<and> c_ip c = 7 \<and> c_extranonce c = 0 \<and> c_diff c = 16
    \<and> c_recvMessage c = [] \<and> IoRead 0 \<in> pending w \<and> fresh_store w"
proof -
  obtain w block job params where w: "run_reach w" "template_block run_env 5 work_offered = Inr block"
    "make_job block 2 = Inr job" "job_params 0 job True = Inr params" "IoRead 0 \<in> pending w"
    "objs w 0 = Some ((Client_new start_env 0)\<lparr>c_ip := 7, c_jobid := 1, c_jobs := [0 \<mapsto> job]\<rparr>)"
    "fresh_store w" using run_working by blast
  let ?c = "(Client_new start_env 0)\<lparr>c_ip := 7, c_jobid := 1, c_jobs := [0 \<mapsto> job]\<rparr>"
  let ?msg = "login_request (j_int 1) ''worker'' ''x''"
  obtain str where str: "ToString (e_show_double run_env) ?msg = Inr str" "CHR 0x0A \<notin> set str"
    using login_text_ok by blast
  let ?w0 = "finish_io (IoRead 0) w"
  let ?w1 = "?w0\<lparr>objs := (objs w)(0 \<mapsto> ?c\<lparr>c_recvMessage := str\<rparr>)\<rparr>"
  have ok: "json_ok ?msg" unfolding login_request_def by (rule object_ok) (simp add: array_ok)
  have row: "db_Query run_env q = Some [[Some ''1'', Some ''16'']]" "field_u32 run_env (hd [[Some ''1'', Some ''16'']]) 1 = Inr 16" for q
    by (simp_all add: db_Query_def field_u32_def run_env_def worker_env_def)
  from authorize_run [of ?w1 0 "?c\<lparr>c_recvMessage := str\<rparr>" ?msg "''worker''" "''x''" "[]" "j_int 1" run_env, OF _ _ _ _ row] obtain ls where
    login: "OnMiningAuthorize run_env 0 ?msg ?w1 = (?w1\<lparr>objs := (objs w)(0 \<mapsto> ?c\<lparr>c_recvMessage := str,
        c_workers := insert ''worker'' (c_workers ?c), c_minDiff := 16, c_diff := max (c_diff ?c) 16\<rparr>), wire := wire w @ ls\<rparr>, Inr ())"
    by (auto simp: login_request_fields)
  obtain t where "ToString (e_show_double run_env) ?msg = Inr t" using ToString_total [OF ok] by blast
  then have message: "OnMessage run_env 0 ?msg ?w1 = OnMiningAuthorize run_env 0 ?msg ?w1"
    by (simp add: OnMessage_def login_request_fields bindE_lift)
  let ?c2 = "?c\<lparr>c_recvMessage := str, c_workers := insert ''worker'' (c_workers ?c), c_minDiff := 16, c_diff := max (c_diff ?c) 16\<rparr>"
  let ?w2 = "?w1\<lparr>objs := (objs w)(0 \<mapsto> ?c2), wire := wire w @ ls\<rparr>"
  let ?w3 = "?w2\<lparr>objs := (objs w)(0 \<mapsto> ?c2\<lparr>c_recvMessage := []\<rparr>), pending := insert (IoRead 0) (pending ?w0)\<rparr>"
  have "plain ?msg" by (simp add: login_request_def)
  moreover have "j_type ?msg = JSON_OBJECT" by (simp add: login_request_def)
  moreover have "c_recvMessage ?c = []" by (simp add: Client_new_def)
  ultimately have "OnReceive run_env 0 success (str @ LF) ?w0 = (?w3, Inr ())"
    using receive_request [of ?w0 0 ?c run_env ?msg "e_show_double run_env" str ?w2 ?c2] w(6) run_laws str login message by simp
  then have "sys_step run_ok w ?w3" using run_env_ok w(5,6) by (intro sys_receive [where r = "Inr ()"]) simp_all
  with w(1) have reached: "run_reach ?w3" by (rule reach_step)
  have "c_extranonce ?c = 0" "c_shareLimiter ?c = ShareLimiter_new start_env" "max (c_diff ?c) 16 = 16"
    by (simp_all add: Client_new_def start_env_def lucky_env_def sample_env_def sample_config_def)
  then show ?thesis using reached w(2-4,7) unfolding fresh_store_def by (intro exI [of _ ?w3] exI [of _ block] exI [of _ job] exI [of _ params] exI [of _ "?c2\<lparr>c_recvMessage := []\<rparr>"]) simp
qed


text \<open>The miner sends a share, and it is credited.\<close>

lemma run_job:
  assumes "template_block run_env 5 work_offered = Inr block" and "make_job block 2 = Inr job"
  obtains h v txs where "template_ok run_sha h run_pk v txs (job_block job)" "length (blk_prevBlockHash (job_block job)) = 32"
    "make_job (job_block job) (job_diff job) = Inr (job\<lparr>job_shares := {}\<rparr>)" "job_diff job = 2" "job_shares job = {}"
    "blockTarget job = 0xffff * 256 ^ 24" "jobTarget job = max_target div 2"
proof -
  from template_block_ok [OF run_env_ok assms(1)] obtain h v txs where tmpl: "template_ok run_sha h run_pk v txs block"
    by (auto simp: block_ok_def)
  have "block = offered_block run_env 5 2 (replicate 32 0) 1400000000 0x1b00ffff 50 []"
    using offered_template [OF run_offers, of run_env 5] assms(1) by simp
  then have b: "blk_bits block = 0x1b00ffff" "length (blk_prevBlockHash block) = 32"
    by (simp_all add: offered_block_def Let_def Reverse_def)
  have tx: "blk_tx block = CreateCoinbaseTX h run_pk v # txs" using tmpl by (simp add: template_ok_def)
  note parts = make_job_coinbase [OF assms(2) tx]
  note job = make_job_parts [OF assms(2)]
  then have "job\<lparr>job_shares := {}\<rparr> = job" by simp
  moreover have "Inr (blockTarget job) = (Inr (0xffff * 256 ^ 24) :: int result)"
    using parts TargetFromBits_eq [of "blk_bits block"] by (simp add: b drop_bit_eq_div)
  moreover have "Inr (jobTarget job) = (Inr (max_target div 2) :: int result)" using parts DiffToTarget_pos [of 2] by simp
  ultimately show ?thesis using tmpl b(2) job assms(2) by (intro that) simp_all
qed

lemma run_submit:
  assumes block: "template_block run_env 5 work_offered = Inr block" and job: "make_job block 2 = Inr job"
    and params: "job_params 0 job True = Inr params"
    and c: "objs w 0 = Some c" "c_jobs c = [0 \<mapsto> job]" "''worker'' \<in> c_workers c" "c_shareLimiter c = ShareLimiter_new start_env"
      "c_ip c = 7" "c_extranonce c = 0" "c_diff c = 16"
  shows "\<exists>w' c'. OnMiningSubmit run_env 0 lucky_request w = (w', Inr ()) \<and> objs w' 0 = Some c'
    \<and> dataMgr w' = Push (Share_new 7 ''worker'' True [] 1400000000 2) (dataMgr w) \<and> database w' = database w"
proof -
  obtain h v txs where tmpl: "template_ok run_sha h run_pk v txs (job_block job)" "length (blk_prevBlockHash (job_block job)) = 32"
    "make_job (job_block job) (job_diff job) = Inr (job\<lparr>job_shares := {}\<rparr>)" and d: "job_diff job = 2" "job_shares job = {}"
    and targets: "blockTarget job = 0xffff * 256 ^ 24" "jobTarget job = max_target div 2"
    by (rule run_job [OF block job])
  have sha: "e_sha run_env = run_sha" by (simp add: run_env_def worker_env_def)
  have lucky: "SHA256D run_sha x = lucky_digest" for x by (simp add: SHA256D_def SHA256_def lucky_env_def)
  obtain b where b: "assemble run_env 0 job (Reverse [1, 2, 3, 4]) (Reverse [5, 6, 7, 8]) [0, 0, 0, 9] = Inr b"
    "blk_GetHash run_sha b = lucky_digest"
    using miner_digest [of run_env h run_pk v txs job 0 True params "[0, 0, 0, 9]" "[1, 2, 3, 4]" "[5, 6, 7, 8]" 0] tmpl params
    by (auto simp: sha lucky)
  have num: "hash_number run_sha b = 256 ^ 27" by (simp add: hash_number_def b(2) lucky_number)
  have now: "ucast (e_now run_env) = (1400000000 :: uint64)" by (simp add: run_env_def worker_env_def lucky_env_def sample_env_def)
  have share: "word_bytes (0x0900000005060708 :: uint64) = Reverse [5, 6, 7, 8] @ [0, 0, 0, 9]"
    by (simp add: word_bytes_def Reverse_def drop_bit_eq_div upt_rec)
  have limiter: "\<not> retarget_due (e_cfg run_env) 1400000000 (record_share 1400000000 (job_diff job) (c_shareLimiter c))"
    by (simp add: c(4) d retarget_due_def record_share_def ShareLimiter_new_def start_env_def run_env_def worker_env_def lucky_env_def
        sample_env_def sample_config_def Let_def)
  let ?w = "w\<lparr>objs := (objs w)(0 \<mapsto> c\<lparr>c_shareLimiter := record_share 1400000000 (job_diff job) (c_shareLimiter c)\<rparr>)\<rparr>"
  have "OnMiningSubmit run_env 0 lucky_request w
      = settle_share run_env 0 lucky_request ''worker'' 0 job (Reverse [1, 2, 3, 4]) (Reverse [5, 6, 7, 8]) [0, 0, 0, 9] 0x0900000005060708 ?w"
    using OnMiningSubmit_run [OF c(1,3), where k = 0 and job = job and env = run_env and ?e2.0 = "[0, 0, 0, 9]"
        and ntime = "[1, 2, 3, 4]" and nonce = "[5, 6, 7, 8]" and share = "0x0900000005060708" and mid = "j_int 1"] limiter share by (simp add: c(2) now)
  moreover have "\<exists>answer. settle_share run_env 0 lucky_request ''worker'' 0 job (Reverse [1, 2, 3, 4]) (Reverse [5, 6, 7, 8]) [0, 0, 0, 9] 0x0900000005060708 ?w
      = (?w\<lparr>objs := (objs ?w)(0 \<mapsto> with_job 0 (job\<lparr>job_shares := insert 0x0900000005060708 (job_shares job)\<rparr>)
            (c\<lparr>c_shareLimiter := record_share 1400000000 (job_diff job) (c_shareLimiter c)\<rparr>)),
          dataMgr := Push (Share_new 7 ''worker'' True [] 1400000000 2) (dataMgr ?w), wire := wire ?w @ [(0, answer @ LF)]\<rparr>, Inr ())"
    using settle_good_share [of ?w 0 "c\<lparr>c_shareLimiter := record_share 1400000000 (job_diff job) (c_shareLimiter c)\<rparr>" lucky_request
        "j_int 1" run_env job "Reverse [1, 2, 3, 4]" "Reverse [5, 6, 7, 8]" "[0, 0, 0, 9]" b "0x0900000005060708" "''worker''" 0]
    by (auto simp: submit_request_fields sha b num c(5,6) d now targets max_target_def lucky_digest_def)
  ultimately show ?thesis by auto
qed

lemma run_share:
  "\<exists>w c w'. run_reach w \<and> objs w 0 = Some c \<and> c_extranonce c = 0
    \<and> OnMiningSubmit run_env 0 lucky_request w = (w', Inr ())
    \<and> datastore (dataMgr w') = datastore (dataMgr w) @ [Share_new 7 ''worker'' True [] 1400000000 2]"
proof -
  obtain w block job params c where w: "run_reach w" "template_block run_env 5 work_offered = Inr block"
    "make_job block 2 = Inr job" "job_params 0 job True = Inr params"
    and c: "objs w 0 = Some c" "c_jobs c = [0 \<mapsto> job]" "''worker'' \<in> c_workers c" "c_shareLimiter c = ShareLimiter_new start_env"
      "c_ip c = 7" "c_extranonce c = 0" "c_diff c = 16"
    using run_logged_in by blast
  from run_submit [OF w(2-4) c] show ?thesis using w(1) c(1,6) by (auto simp: Push_def)
qed

text \<open>The same as a step of the pool: the line of the request is received.\<close>

lemma run_credited:
  "\<exists>w. run_reach w \<and> datastore (dataMgr w) = [Share_new 7 ''worker'' True [] 1400000000 2] \<and> database w = sample_pool"
proof -
  obtain w block job params c where w: "run_reach w" "template_block run_env 5 work_offered = Inr block"
    "make_job block 2 = Inr job" "job_params 0 job True = Inr params"
    and c: "objs w 0 = Some c" "c_jobs c = [0 \<mapsto> job]" "''worker'' \<in> c_workers c" "c_shareLimiter c = ShareLimiter_new start_env"
      "c_ip c = 7" "c_extranonce c = 0" "c_diff c = 16"
    and idle: "c_recvMessage c = []" "IoRead 0 \<in> pending w" "fresh_store w"
    using run_logged_in by blast
  have sd: "e_show_double run_env = e_show_double lucky_env" by (simp add: run_env_def worker_env_def)
  obtain str where str: "ToString (e_show_double run_env) lucky_request = Inr str" "CHR 0x0A \<notin> set str"
    using lucky_text unfolding sd by blast
  let ?w1 = "(finish_io (IoRead 0) w)\<lparr>objs := (objs w)(0 \<mapsto> c\<lparr>c_recvMessage := str\<rparr>)\<rparr>"
  obtain w' c' where w': "OnMiningSubmit run_env 0 lucky_request ?w1 = (w', Inr ())" "objs w' 0 = Some c'"
    "dataMgr w' = Push (Share_new 7 ''worker'' True [] 1400000000 2) (dataMgr w)" "database w' = database w"
    using run_submit [OF w(2-4), of ?w1 "c\<lparr>c_recvMessage := str\<rparr>"] c by auto
  let ?w2 = "w'\<lparr>objs := (objs w')(0 \<mapsto> c'\<lparr>c_recvMessage := []\<rparr>), pending := insert (IoRead 0) (pending w')\<rparr>"
  have "OnMessage run_env 0 lucky_request ?w1 = (w', Inr ())" using w'(1) by (simp add: OnMessage_submit)
  moreover have "plain lucky_request" by (rule submit_request_plain) simp_all
  moreover have "j_type lucky_request = JSON_OBJECT" by (simp add: submit_request_def)
  ultimately have "OnReceive run_env 0 success (str @ LF) (finish_io (IoRead 0) w) = (?w2, Inr ())"
    using receive_request [of "finish_io (IoRead 0) w" 0 c run_env lucky_request "e_show_double run_env" str w' c'] c(1) idle(1)
      run_laws str w'(2) by simp
  then have "sys_step run_ok w ?w2" using run_env_ok idle(2) c(1) by (intro sys_receive [where r = "Inr ()"]) simp_all
  with w(1) have "run_reach ?w2" by (rule reach_step)
  then show ?thesis using w'(3,4) idle(3) by (intro exI [of _ ?w2]) (simp add: fresh_store_def Push_def)
qed


text \<open>The theorem on credited shares, at this share.\<close>

theorem credited_share_is_work_witness:
  "\<exists>w w' s block h v e2 txs. run_reach w \<and> OnMiningSubmit run_env 0 lucky_request w = (w', Inr ())
    \<and> datastore (dataMgr w') = datastore (dataMgr w) @ [s] \<and> share_result s \<and> share_diff s = 2
    \<and> 2 * hash_number run_sha block \<le> max_target
    \<and> blk_tx block = coinbase_with h run_pk v (word_bytes (0 :: uint32) @ e2) # txs \<and> length e2 = 4"
proof -
  obtain w c w' where w: "run_reach w" "objs w 0 = Some c" "c_extranonce c = 0"
    "OnMiningSubmit run_env 0 lucky_request w = (w', Inr ())"
    "datastore (dataMgr w') = datastore (dataMgr w) @ [Share_new 7 ''worker'' True [] 1400000000 2]"
    using run_share by blast
  let ?s = "Share_new 7 ''worker'' True [] 1400000000 2"
  have s: "share_result ?s" "share_diff ?s = 2" by (simp_all add: Share_new_def)
  from credited_share_is_work [OF w(1) run_env_ok w(2,4)] w(5) s obtain block h v e2 txs where
    "2 * hash_number run_sha block \<le> max_target" "blk_tx block = coinbase_with h run_pk v (word_bytes (0 :: uint32) @ e2) # txs"
    "length e2 = 4" by (auto simp: w(3))
  with w s show ?thesis by blast
qed

section \<open>Two miners\<close>

text \<open>Two miners have connected when the daemon reports the block.\<close>

lemma run_two_connected:
  "\<exists>w rpc c0 c1. run_reach w \<and> after_lines run_ok 0 w \<and> n_cons (net w) = [rpc] \<and> n_binds (net w) = 1 \<and> n_blockHeight (net w) = 0 \<and> n_calls (net w) = 2
    \<and> posted w = [] \<and> s_clients (server w) = {1, 0} \<and> {IoRead 0, IoRead 1} \<subseteq> pending w
    \<and> objs w 0 = Some c0 \<and> objs w 1 = Some c1 \<and> c_recvMessage c0 = [] \<and> c_recvMessage c1 = []"
proof -
  obtain w rpc where w: "sys_init run_ok w" "net w = \<lparr>n_binds = 1, n_blockHeight = 0, n_cons = [rpc], n_curBlockTmpl = None, n_calls = 2\<rparr>"
    "server w = \<lparr>s_clients = {}, s_clientId = 1, s_bans = [], s_currentWork = None, s_extranonce = 0\<rparr>"
    "posted w = []" "objs w 0 = Some (Client_new start_env 0)" using run_start by blast
  let ?c0 = "(Client_new start_env 0)\<lparr>c_ip := 7\<rparr>" and ?c1 = "(Client_new run_env 1)\<lparr>c_ip := 8\<rparr>"
  let ?w1 = "w\<lparr>server := (server w)\<lparr>s_clients := {0}, s_clientId := 2\<rparr>, objs := (objs w)(0 \<mapsto> ?c0, 1 \<mapsto> Client_new run_env 1),
      pending := insert (IoAccept 1) (insert (IoRead 0) (pending w - {IoAccept 0}))\<rparr>"
  let ?w2 = "?w1\<lparr>server := (server w)\<lparr>s_clients := {1, 0}, s_clientId := 3\<rparr>, objs := (objs ?w1)(1 \<mapsto> ?c1, 2 \<mapsto> Client_new run_env 2),
      pending := insert (IoAccept 2) (insert (IoRead 1) (pending ?w1 - {IoAccept 1}))\<rparr>"
  have reached: "run_reach w" by (rule reach_init [of "sys_init run_ok", OF w(1)])
  have "IoAccept 0 \<in> pending w" using keeps_listening.reach_inv [OF reached] by (simp add: listening_ok_def w(3))
  moreover have "OnAccept run_env 0 False (Inr 7) (finish_io (IoAccept 0) w) = (?w1, Inr ())"
    using accept_state [OF w(5), of run_env 7] by (simp add: w(3) del: fun_upd_apply)
  ultimately have step1: "silent_step run_ok w ?w1" using run_env_ok w(5) by (intro silent_accept [where r = "Inr ()"]) simp_all
  have "OnAccept run_env 1 False (Inr 8) (finish_io (IoAccept 1) ?w1) = (?w2, Inr ())"
    using accept_state [of ?w1 1 "Client_new run_env 1" run_env 8] by (simp add: w(3) del: fun_upd_apply) (simp add: w(3))
  then have "silent_step run_ok ?w1 ?w2" using run_env_ok by (intro silent_accept [where r = "Inr ()"]) simp_all
  then have lines: "after_lines run_ok 0 ?w2"
    using lines_silent [where ok = run_ok, OF lines_silent [where ok = run_ok, OF lines_start [where ok = run_ok, OF w(1)] step1]] by blast
  then have "run_reach ?w2" by (rule lines_reach)
  with lines show ?thesis using w by (intro exI [of _ ?w2] exI [of _ rpc] exI [of _ ?c0] exI [of _ ?c1]) (simp add: Client_new_def)
qed

text \<open>A miner that is read from subscribes.\<close>

definition subscribe_request :: JSON where
  "subscribe_request = j_object [(''id'', j_int 1), (''method'', j_string ''mining.subscribe''), (''params'', j_array [])]"

lemma subscribe_request_fields:
  "get_field ''id'' subscribe_request = Inr (j_int 1)" "index_key ''method'' subscribe_request = Inr (j_string ''mining.subscribe'', subscribe_request)"
  unfolding subscribe_request_def by (simp_all add: get_field_object index_key_def object_member)

lemma subscribe_text:
  "\<exists>str. ToString (e_show_double run_env) subscribe_request = Inr str \<and> CHR 0x0A \<notin> set str"
  by (simp add: subscribe_request_def j_object_eq j_array_eq j_string_def j_int_def assign_string_def assign_int_def
      JSON_new_def ToString_def EscapeString_plain show_int64_def GetInt_def GetString_def show_dec.simps [of "Suc 0"] Let_def)

lemma run_subscribes:
  assumes lines: "after_lines run_ok n w" and c: "objs w cid = Some c" "c_recvMessage c = []" "IoRead cid \<in> pending w"
    and work: "s_currentWork (server w) = Some block" "work_ok run_sha block"
  shows "\<exists>w' c'. after_lines run_ok (n + 1) w' \<and> objs w' = (objs w)(cid \<mapsto> c') \<and> c_subscribed c' \<and> c_recvMessage c' = []
    \<and> pending w' = pending w \<and> s_currentWork (server w') = Some block"
proof -
  obtain str where str: "ToString (e_show_double run_env) subscribe_request = Inr str" "CHR 0x0A \<notin> set str"
    using subscribe_text by blast
  let ?w0 = "finish_io (IoRead cid) w" and ?c = "c\<lparr>c_recvMessage := str\<rparr>"
  let ?w1 = "?w0\<lparr>objs := (objs w)(cid \<mapsto> ?c)\<rparr>"
  have ok: "world_ok run_sha run_pk w" by (rule pool.reach_inv [OF lines_reach [OF lines]])
  then have "0 < c_diff c" using c(1) by (auto simp: world_ok_def client_ok_def)
  then obtain job ls where run: "OnMiningSubscribe run_env cid subscribe_request ?w1
      = (?w1\<lparr>server := (server ?w1)\<lparr>s_extranonce := s_extranonce (server ?w1) + 1\<rparr>,
          objs := (objs ?w1)(cid \<mapsto> ?c\<lparr>c_subscribed := True, c_extranonce := s_extranonce (server ?w1), c_jobid := c_jobid ?c + 1,
            c_jobs := (c_jobs ?c)(ucast (c_jobid ?c) \<mapsto> job)\<rparr>), wire := wire ?w1 @ ls\<rparr>, Inr ())"
    using subscribe_run [of ?w1 cid ?c subscribe_request "j_int 1" block run_sha run_env] work by (fastforce simp: subscribe_request_fields)
  let ?c2 = "?c\<lparr>c_subscribed := True, c_extranonce := s_extranonce (server ?w1), c_jobid := c_jobid ?c + 1,
      c_jobs := (c_jobs ?c)(ucast (c_jobid ?c) \<mapsto> job)\<rparr>"
  let ?w2 = "?w1\<lparr>server := (server ?w1)\<lparr>s_extranonce := s_extranonce (server ?w1) + 1\<rparr>, objs := (objs ?w1)(cid \<mapsto> ?c2), wire := wire ?w1 @ ls\<rparr>"
  let ?w3 = "?w2\<lparr>objs := (objs w)(cid \<mapsto> ?c2\<lparr>c_recvMessage := []\<rparr>), pending := insert (IoRead cid) (pending ?w0)\<rparr>"
  have plain: "plain subscribe_request" "j_type subscribe_request = JSON_OBJECT" by (simp_all add: subscribe_request_def)
  have "OnMessage run_env cid subscribe_request ?w1 = OnMiningSubscribe run_env cid subscribe_request ?w1"
    using str(1) by (simp add: OnMessage_def subscribe_request_fields bindE_lift)
  then have "OnReceive run_env cid success (str @ LF) ?w0 = (?w3, Inr ())"
    using receive_request [of ?w0 cid c run_env subscribe_request "e_show_double run_env" str ?w2 ?c2] c run_laws plain str run
    by simp
  from lines_receive [where ok = run_ok, OF lines run_env_ok c(3) _ this] have "after_lines run_ok (n + 1) ?w3"
    using str(2) c(1) by (simp add: count_list_0_iff)
  then show ?thesis using work c(3) by (intro exI [of _ ?w3] exI [of _ "?c2\<lparr>c_recvMessage := []\<rparr>"]) (simp add: insert_absorb)
qed

text \<open>Both miners of the run have subscribed: two lines were received.\<close>

lemma run_two_subscribed:
  "\<exists>w c0 c1. after_lines run_ok 2 w \<and> objs w 0 = Some c0 \<and> c_subscribed c0 \<and> objs w 1 = Some c1 \<and> c_subscribed c1"
proof -
  obtain w rpc c0 c1 where w: "run_reach w" "after_lines run_ok 0 w" "n_cons (net w) = [rpc]" "n_binds (net w) = 1"
    "n_blockHeight (net w) = 0" "n_calls (net w) = 2" "posted w = []" "s_clients (server w) = {1, 0}" "{IoRead 0, IoRead 1} \<subseteq> pending w"
    and c: "objs w 0 = Some c0" "objs w 1 = Some c1" "c_recvMessage c0 = []" "c_recvMessage c1 = []"
    using run_two_connected by blast
  have "n_blockHeight (net w) < ucast (5 :: int64)" "3 \<le> unat (drop_bit 24 (0x1b00ffff :: uint32))"
    by (simp_all add: w(5) drop_bit_eq_div)
  from block_reaches [OF w(1) run_env_ok w(3,4,7) run_announces [OF w(6)] this(1) run_offers this(2)] obtain w' block where
    w': "(silent_step run_ok)\<^sup>*\<^sup>* w w'" "template_block run_env 5 work_offered = Inr block" "s_currentWork (server w') = Some block"
      "served run_env block 0 c0 w'" "served run_env block 1 c1 w'" "pending w \<subseteq> pending w'" by (auto simp: w(8) c)
  have lines: "after_lines run_ok 0 w'"
    using w'(1) w(2) by (induction rule: rtranclp_induct) (blast intro: lines_silent)+
  have block: "work_ok run_sha block"
    using template_block_ok [OF run_env_ok w'(2)] offered_template [OF run_offers, of run_env 5] w'(2)
    by (auto simp: work_ok_def block_ok_def offered_block_def Let_def Reverse_def drop_bit_eq_div)
  obtain d0 d1 where d: "objs w' 0 = Some d0" "c_recvMessage d0 = []" "objs w' 1 = Some d1" "c_recvMessage d1 = []"
    using w'(4,5) c(3,4) by (auto simp: served_def)
  have io: "IoRead 0 \<in> pending w'" "IoRead 1 \<in> pending w'" using w(9) w'(6) by auto
  obtain w1 e0 where w1: "after_lines run_ok 1 w1" "objs w1 = (objs w')(0 \<mapsto> e0)" "c_subscribed e0" "pending w1 = pending w'"
    "s_currentWork (server w1) = Some block" using run_subscribes [OF lines d(1,2) io(1) w'(3) block] by auto
  have "objs w1 1 = Some d1" "IoRead 1 \<in> pending w1" using w1 d(3) io(2) by simp_all
  from run_subscribes [OF w1(1) this(1) d(4) this(2) w1(5) block] obtain w2 e1 where
    "after_lines run_ok (1 + 1) w2" "objs w2 = (objs w1)(1 \<mapsto> e1)" "c_subscribed e1" by blast
  with w1(2,3) show ?thesis by (intro exI [of _ w2] exI [of _ e0] exI [of _ e1]) (simp add: numeral_2_eq_2)
qed

theorem extranonces_of_clients_witness:
  "\<exists>w c0 c1. after_lines run_ok 2 w \<and> objs w 0 = Some c0 \<and> c_subscribed c0 \<and> objs w 1 = Some c1 \<and> c_subscribed c1
    \<and> c_extranonce c0 \<noteq> c_extranonce c1
    \<and> enc_Transaction (coinbase_with 5 run_pk 50 (word_bytes (c_extranonce c0) @ [0, 0, 0, 9]))
      \<noteq> enc_Transaction (coinbase_with 5 run_pk 50 (word_bytes (c_extranonce c1) @ [0, 0, 0, 9]))"
proof -
  obtain w c0 c1 where w: "after_lines run_ok 2 w" "objs w 0 = Some c0" "c_subscribed c0" "objs w 1 = Some c1" "c_subscribed c1"
    using run_two_subscribed by blast
  have n: "(2 :: nat) \<le> 2 ^ 32" and cid: "(0 :: uint64) \<noteq> 1" and e2: "length ([0, 0, 0, 9] :: BinaryData) = 4" by simp_all
  from extranonces_of_clients [OF w(1) n w(2-5) cid e2 e2] w show ?thesis by blast
qed

end
