(* ===== verification/Limiter_Props.thy ===== *)
theory Limiter_Props
  imports Client_Props
begin

text \<open>
  What the share limiter does to a client: the difficulties it can set, when it bans, and where its
  arithmetic goes wrong.
\<close>

section \<open>Difficulties\<close>

text \<open>
  The difficulty of client \<open>cid\<close> stays, or becomes one within the configured range, raised to the worker's
  minimum.
\<close>

definition diff_within :: "Config \<Rightarrow> uint64 \<Rightarrow> uint64 \<Rightarrow> bool" where
  "diff_within cfg minDiff d \<longleftrightarrow>
     minDiff \<le> d \<and> ucast (RetargetMinDiff cfg) \<le> d \<and> (d \<le> ucast (RetargetMaxDiff cfg) \<or> d = minDiff)"

definition steers :: "Config \<Rightarrow> uint64 \<Rightarrow> world \<Rightarrow> world \<Rightarrow> bool" where
  "steers cfg cid w w' \<longleftrightarrow>
     (\<forall>c. objs w cid = Some c \<longrightarrow> (\<exists>c'. objs w' cid = Some c' \<and> c_minDiff c' = c_minDiff c
        \<and> (c_diff c' = c_diff c \<or> diff_within cfg (c_minDiff c) (c_diff c'))))"

interpretation steering: kept_relation "steers cfg cid" for cfg cid
proof
  show "steers cfg cid w w" for w by (simp add: steers_def)
  show "steers cfg cid w u" if "steers cfg cid w v" "steers cfg cid v u" for w v u
    using that unfolding steers_def by metis
qed

lemma steers_client:
  "(\<And>c. c_diff (f c) = c_diff c \<and> c_minDiff (f c) = c_minDiff c) \<Longrightarrow> keeps (steers cfg cid) (mod_client cid' f)"
  by (rule keeps_mod_client) (auto simp: steers_def)

lemma steers_get: "keeps (steers cfg cid) (get_client cid')"
  by (rule keeps_get_client) (rule steering.kept_refl)

lemma steers_other: "(\<And>w. objs (f w) = objs w) \<Longrightarrow> keeps (steers cfg cid) (modE f)"
  by (rule keeps_modE) (simp add: steers_def)

lemma steers_SendMessage: "keeps (steers cfg cid) (SendMessage env cid' msg)"
  unfolding SendMessage_def by (intro steering.keeps_returnE steering.keeps_bindE steering.keeps_liftE steers_other) simp

lemma steers_SendJob: "keeps (steers cfg cid) (SendJob env cid' clean)"
  unfolding SendJob_def CleanJobs_def GetJob_def GetWork_def Let_def
  by (intro steering.keeps_bindE steering.keeps_if steering.keeps_option steering.keeps_returnE steering.keeps_liftE
      steering.keeps_getE steers_client steers_get steers_SendMessage) simp_all

lemma steers_SetDifficulty:
  assumes "ucast (RetargetMinDiff cfg) \<le> d" "d \<le> ucast (RetargetMaxDiff cfg)"
  shows "keeps (steers cfg cid) (SetDifficulty env cid d b)"
  unfolding keeps_def
proof
  fix w
  show "steers cfg cid w (fst (SetDifficulty env cid d b w))"
  proof (cases "objs w cid")
    case (Some c)
    let ?d = "if d < c_minDiff c then c_minDiff c else d"
    let ?w = "w\<lparr>objs := (objs w)(cid \<mapsto> c\<lparr>c_diff := ?d\<rparr>)\<rparr>"
    let ?send = "bindE (SendMessage env cid (j_object [(''id'', j_null), (''params'', j_array [j_int ?d]),
                    (''method'', j_string ''mining.set_difficulty'')])) (\<lambda>_.
       if b then SendJob env cid False else returnE ())"
    have "diff_within cfg (c_minDiff c) ?d" using assms by (auto simp: diff_within_def not_less intro: order_trans)
    then have set: "steers cfg cid w ?w" using Some by (simp add: steers_def)
    have "keeps (steers cfg cid) ?send"
      by (intro steering.keeps_bindE steering.keeps_if steering.keeps_returnE steers_SendMessage steers_SendJob)
    then have "steers cfg cid ?w (fst (?send ?w))" by (simp add: keeps_def)
    with set have "steers cfg cid w (fst (?send ?w))" by (rule steering.kept_trans)
    then show ?thesis
      using Some steering.kept_refl by (auto simp: SetDifficulty_def Let_def bindE_get_client bindE_mod_client returnE_def)
  qed (simp add: steers_def)
qed

lemma clamp_within:
  assumes "RetargetMinDiff cfg \<le> RetargetMaxDiff cfg"
  shows "ucast (RetargetMinDiff cfg) \<le> clamp_diff cfg d \<and> clamp_diff cfg d \<le> ucast (RetargetMaxDiff cfg)"
proof -
  have "(ucast (RetargetMinDiff cfg) :: uint64) \<le> ucast (RetargetMaxDiff cfg)"
    using assms unsigned_less [of "RetargetMinDiff cfg", where ?'a = nat] unsigned_less [of "RetargetMaxDiff cfg", where ?'a = nat]
    by (simp add: word_le_nat_alt)
  then show ?thesis by (auto simp: clamp_diff_def Let_def)
qed

lemma keeps_bind_lift:
  "(\<And>a. r = Inr a \<Longrightarrow> keeps P (f a)) \<Longrightarrow> (\<And>s. P s s) \<Longrightarrow> keeps P (bindE (liftE r) f)"
  by (cases r) (auto simp: keeps_def bindE_lift)

lemma steers_limiter:
  assumes cfg: "RetargetMinDiff (e_cfg env) \<le> RetargetMaxDiff (e_cfg env)"
  shows "keeps (steers (e_cfg env) cid) (limiter_Submit env cid d)"
proof -
  have limiter: "keeps (steers (e_cfg env) cid) (mod_limiter cid f)" for f
    unfolding mod_limiter_def by (rule steers_client) simp
  have ban: "keeps (steers (e_cfg env) cid) (client_Ban env cid 600)"
    unfolding client_Ban_def Ban_def client_Disconnect_def Disconnect_def mod_server_def
    by (intro steering.keeps_bindE steers_get steers_other) simp_all
  have "keeps (steers (e_cfg env) cid) (SetDifficulty env cid newDiff b)"
    if "new_diff (e_cfg env) t sl = Inr newDiff" for newDiff b t sl
    using that clamp_within [OF cfg] by (intro steers_SetDifficulty) (auto simp: new_diff_def Let_def bindR_eq_Inr_iff)
  then have "keeps (steers (e_cfg env) cid) (retarget env cid t)" for t
    unfolding retarget_def
    by (intro steering.keeps_bindE limiter steers_get keeps_bind_lift [of "new_diff _ _ _"] steering.keeps_liftE
        steering.keeps_if steering.keeps_returnE steers_SendJob steering.kept_refl)
  then show ?thesis
    unfolding limiter_Submit_def Let_def
    by (intro steering.keeps_bindE limiter steers_get steering.keeps_if steering.keeps_returnE ban)
qed

section \<open>Properties\<close>



text \<open>
  A miner that sends more than nine bad shares out of ten is banned: when the retarget is due and more than
  200 shares have come, its address is banned for ten minutes, its connection is closed, and the share is
  not let pass.
\<close>

lemma limiter_bans:
  assumes c: "objs w cid = Some c"
    and sl: "sl = record_share (ucast (e_now env)) d (c_shareLimiter c)"
    and due: "retarget_due (e_cfg env) (ucast (e_now env)) sl" and bad: "too_many_bad sl"
  shows "\<exists>w'. limiter_Submit env cid d w = (w', Inr False)
    \<and> s_bans (server w') = s_bans (server w) @ [\<lparr>ban_ip = c_ip c, ban_timestamp = ucast (e_now env) + 600\<rparr>]
    \<and> cid \<notin> s_clients (server w') \<and> cid \<in> closed w'"
  using assms
  by (auto simp: limiter_Submit_def mod_limiter_def client_Ban_def client_Disconnect_def server_defs eff_simps bindE_assoc Let_def)

text \<open>
  The change of difficulty in percent: it is exact when the difficulty rises and the numbers are small
  enough.
\<close>

lemma variance_increase:
  assumes "0 < cur" "cur \<le> newDiff" and fits: "(unat newDiff - unat cur) * 100 < 2 ^ 64"
    and small: "(unat newDiff - unat cur) * 100 div unat cur < 2 ^ 31"
  shows "variance newDiff cur = Inr (of_nat ((unat newDiff - unat cur) * 100 div unat cur))"
proof -
  let ?n = "(unat newDiff - unat cur) * 100 div unat cur"
  have "unat (newDiff - cur) = unat newDiff - unat cur" using assms(2) by (simp add: unat_sub)
  then have "unat ((newDiff - cur) * 100) = (unat newDiff - unat cur) * 100"
    using fits by (subst unat_word_ariths(2)) simp
  then have q: "unat ((newDiff - cur) * 100 div cur) = ?n" by (simp add: unat_div)
  then have "(ucast ((newDiff - cur) * 100 div cur) :: uint32) = of_nat ?n"
    by (simp only: q [symmetric] of_nat_unat)
  moreover have "sint (of_nat ?n :: uint32) = int ?n"
    using small by (simp add: signed_of_nat signed_take_bit_int_eq_self)
  ultimately show ?thesis using assms(1) by (auto simp: variance_def)
qed

text \<open>
  When the difficulty falls, the unsigned subtraction wraps around and the variance can be anything: from
  3 to 2, a change of 33 percent, it comes out as 1431655732. For a rise it is exact within the range of the
  types.
\<close>

theorem variance_decrease_wraps:
  "variance 2 3 = Inr 1431655732
   \<and> (\<forall>newDiff cur. 0 < cur \<longrightarrow> cur \<le> newDiff \<longrightarrow> (unat newDiff - unat cur) * 100 < 2 ^ 64 \<longrightarrow>
        (unat newDiff - unat cur) * 100 div unat cur < 2 ^ 31 \<longrightarrow>
        variance newDiff cur = Inr (of_nat ((unat newDiff - unat cur) * 100 div unat cur)))"
  using variance_increase by (auto simp: variance_def)

theorem variance_decrease_wraps_witness:
  "variance 2 3 = Inr 1431655732 \<and> variance 3 2 = Inr 50"
proof -
  have "(0 :: uint64) < 2" "(2 :: uint64) \<le> 3" by simp_all
  with variance_decrease_wraps [THEN conjunct2, rule_format, of 2 3] have "variance 3 2 = Inr 50" by simp
  with variance_decrease_wraps [THEN conjunct1] show ?thesis by simp
qed

end
