(* ===== verification/Spec2Isabelle.thy ===== *)
theory Spec2Isabelle
  imports Program Login Pool_Run Limiter_Props
begin

text \<open>
  A verification library for the mining pool server under \<open>src/src/server\<close>: a Stratum server
  (\<open>poolserver/\<close>) on a layer of shared code (\<open>shared/\<close>).

  \<^bold>\<open>The program.\<close> Miners connect over TCP and speak Stratum, a line of JSON for every message. The
  \<^emph>\<open>stratum server\<close> accepts them and keeps a \<^emph>\<open>client\<close> for each; a client hands out \<^emph>\<open>jobs\<close>, checks the
  \<^emph>\<open>shares\<close> that come back and adjusts its difficulty with a \<^emph>\<open>share limiter\<close>. The \<^emph>\<open>network manager\<close> asks
  the Bitcoin daemons for the height of the chain and for block templates, tells the stratum server of
  new ones, and submits solved blocks. The \<^emph>\<open>data manager\<close> collects shares and, on a timer, hands them in
  bulk to the queue of the \<^emph>\<open>database workers\<close>, threads with a MySQL connection each. Below are a JSON
  document class with its writer and reader, the JSON-RPC connection to a daemon, the Bitcoin data types with their
  serialisation, Merkle tree and targets, the byte buffer, and helpers for hexadecimal text.

  \<^bold>\<open>Theories and sources.\<close> Every operation is a definition with the name of the function it translates; an
  operation that throws has an error branch (\<open>Exception\<close>), and so has one that the C++ standard gives no
  meaning (\<open>Undefined\<close>).
  \<^item> \<open>Prelude\<close>, \<open>Effects\<close>: integers, results, state with exceptions; the locales \<open>keyed_store\<close>, \<open>fifo\<close>,
    \<open>invariant_system\<close>, \<open>simulation\<close> and \<open>kept_relation\<close>.
  \<^item> \<open>Byte_Buffer\<close>, \<open>Serialization\<close>: \<open>shared/ByteBuffer.h\<close>, \<open>shared/Bitcoin/Serialization.cpp\<close> and the data
    types. The locale \<open>codec\<close> is what a serialisable type promises; it is interpreted for integers,
    \<open>VarInt\<close>, \<open>Script\<close>, \<open>OutPoint\<close>, \<open>TxIn\<close>, \<open>TxOut\<close>, \<open>Transaction\<close> and \<open>Block\<close>.
  \<^item> \<open>Hex\<close>: \<open>shared/Util.cpp\<close>. \<open>Merkle\<close>: \<open>shared/Crypto.cpp\<close>, \<open>shared/Bitcoin/Block.cpp\<close>, \<open>Transaction.cpp\<close>.
    \<open>Bitcoin\<close>: \<open>shared/Bitcoin/Script.h\<close>, \<open>Bitcoin.h\<close>.
  \<^item> \<open>Doubles\<close>, \<open>Json\<close>, \<open>Json_Reader\<close>, \<open>Json_Round_Trip\<close>: \<open>shared/JSON/JSON.h\<close>, \<open>JSON.cpp\<close>, \<open>JSONReader.h\<close>.
  \<^item> \<open>Json_Rpc\<close>: \<open>shared/JSONRPC/JSONRPC.cpp\<close>, from the document of a query to the bytes of the HTTP request
    and from the bytes of the response to the result.
  \<^item> \<open>Work_Queue\<close>: \<open>SynchronisedQueue\<close> of \<open>shared/Util.h\<close> and the worker threads
    (\<open>shared/MySQL/DatabaseWorker.cpp\<close>) as a transition system. \<open>Share_Store\<close>: \<open>poolserver/DataMgr\<close>.
  \<^item> \<open>Mysql_Values\<close>: \<open>shared/MySQL/Field.h\<close>, \<open>QueryResult.cpp\<close>, \<open>PreparedStatement.cpp\<close>. \<open>Mysql_Connection\<close>:
    \<open>shared/MySQL/DatabaseConnection.cpp\<close>, \<open>DatabaseOperation.cpp\<close>, \<open>DatabaseWorkerPool.cpp\<close>, and
    \<^verbatim>\<open>Server::InitDatabase\<close>.
  \<^item> \<open>Pool_State\<close>: the records of the running pool (\<open>world\<close>) and of what lies outside (\<open>env\<close>).
    \<open>Stratum_Server\<close>, \<open>Network_Mgr\<close>, \<open>Stratum_Client\<close>: \<open>poolserver/Stratum/Server.cpp\<close>, \<open>Server.h\<close>,
    \<open>poolserver/NetworkMgr/NetworkMgr.cpp\<close>, \<open>poolserver/Stratum/Client.cpp\<close>, \<open>Job.h\<close>, \<open>ShareLimiter.cpp\<close>, one
    definition for each handler, with the whole of \<^verbatim>\<open>OnMiningSubmit\<close>.
  \<^item> \<open>Client_Props\<close>, \<open>Limiter_Props\<close>, \<open>Network_Props\<close>, \<open>Mining_Work\<close>: what these handlers do.
  \<^item> \<open>Pool_System\<close>: \<open>poolserver/Server/Server.cpp\<close> and the callbacks of the I/O service as a transition
    system (\<open>sys_step\<close>). An accept, a read and the wait for a timer are operations that are started and stay
    \<open>pending\<close> until their handler is called; a write is on the \<open>wire\<close>; what is posted is in a queue. \<open>System_Props\<close>: which
    operations are pending. \<open>Ledger\<close>: the abstract specification of the pool. \<open>Extranonces\<close>: the numbers that subscriptions take. \<open>Delivery\<close>: the queue of \<open>Work_Queue\<close> as a part
    of the running pool.
  \<^item> \<open>Honest_Miner\<close>: a good share from the bytes of its line to the answer. \<open>Sessions\<close>: subscription and
    authorisation. \<open>Templates\<close>: from a daemon's answer to the work of every client. \<open>Login\<close>: the query of
    \<^verbatim>\<open>OnMiningAuthorize\<close> run on the connections of \<open>Mysql_Connection\<close>. \<open>Pool_Run\<close>: one run from the start of the pool over a
    connection, a new block and a login to a share that pays, so that the theorems on reachable states are not empty,
    and one with two miners that subscribe.
  \<^item> \<open>Logging\<close>: \<open>shared/Logging/Log.cpp\<close>. \<open>Configuration\<close>: the options of \<open>poolserver/Main.cpp\<close> and
    \<open>shared/Configuration/Config.h\<close>. \<open>Program\<close>: \<^verbatim>\<open>main\<close>, \<^verbatim>\<open>Server::Run\<close> and the destructors, with all parts above.

  \<^bold>\<open>What is shown.\<close>
  \<^item> The pool as a whole: an invariant of every reachable state; every credited share is a proof of work
    that pays the pool; the pool refines a ledger in which shares are recorded, kept in order and handed
    to the database once; it never stops listening, a miner that is not banned can connect, a new block
    reaches every miner, and an upload gets its shares executed by the database threads.
  \<^item> Mining: a line with a share that is good by the miner's own account is credited and answered; the header the miner hashes is the header the pool checks; jobs are sent as they
    should be; every outcome of a submission; a block counted as accepted was read by a
    daemon; difficulties stay in range; bans hold; packets may be cut anywhere. Until \<open>2 ^ 32\<close> lines have been received no two
    subscribed clients have the same extranonce, so none does another's work (the counter has 32 bits, and a line is at most one
    subscription).
  \<^item> Merkle trees and branches equal their recursive reference; targets and
    difficulties have their arithmetical meaning.
  \<^item> Text and bytes: transactions and blocks are read back, and reading any bytes is safe; the
    JSON reader ends on every text and undoes the writer; a daemon's answer is the result of the
    query, and no answer does harm; documents stay well-formed, hexadecimal text is decoded
    like its reference.
  \<^item> Database: the upload ends and loses nothing, the worker threads lose nothing and go on; queries survive lost connections and deliver their rows; parameters reach the library
    unchanged; a free connection is found; the login of a worker, run
    through them, gives what the client model takes from its environment.
  \<^item> Configuration: every option comes from the right place; a \<^verbatim>\<open>main\<close> that gets to its worker threads is an
    initial state of the running pool.
  \<^item> Where the code fails: a subscription before there is work, clients that are forgotten, parameters that were skipped or are too many,
    connections that die for good, a variance that wraps around, operations lost by stopping the queue, nodes of the reader that are
    never freed, connections that are deleted twice at the end.

  \<^bold>\<open>How the proofs are built.\<close> An action of a handler keeps a relation between the states before and after;
  the locales \<open>kept_relation\<close>, \<open>net_relation\<close>, \<open>client_relation\<close>, \<open>io_relation\<close>, \<open>system_relation\<close>,
  \<open>session_relation\<close>, \<open>share_relation\<close>, \<open>line_relation\<close> and \<open>receive_relation\<close> prove once for all handlers what their parts
  give, and are interpreted for the relations of each property. \<open>invariant_system\<close> is interpreted for the
  worker pool, the running pool (what its objects satisfy, what is pending, its database threads) and the ledger, \<open>simulation\<close> for the running pool over the ledger.

  \<^bold>\<open>Bounds and fuel.\<close> The JSON rules recurse with fuel \<open>4 * length + 4\<close>, proved to be enough for every text. Loops that
  can run forever in the program (the upload, binding parameters with an 8-bit counter, queries over lost
  connections, the search for a connection) are partial functions into \<open>option\<close>, for which termination is a
  theorem. Integers keep their width; the offsets into the Merkle tree are natural numbers with a proof that they
  fit into 32 bits.

  \<^bold>\<open>Parameters.\<close> SHA-256; the clock, read once for a handler; sockets, name resolution and what a daemon
  answers; the MySQL client library; Boost's \<open>split\<close>, Base64 iterators, \<open>lexical_cast\<close>, \<open>iequals\<close> and program
  options; Spirit's tokens for white space and numbers; the text of a \<^verbatim>\<open>double\<close>; the values of variables that are
  not initialised.

  \<^bold>\<open>Not modelled.\<close> A handler is one step: handlers of the same client are serialised by its strand or
  touch it under locks, except where \<^verbatim>\<open>SendJob\<close> is posted outside the strand; in \<^verbatim>\<open>_OnAccept\<close> reading starts before the
  client is in the set. Deallocation other than that of the reader, the stratum server and the database connections, threads other than
  as the interleaving of steps (their number is counted in \<open>Program\<close>, their end is not), the calls of the log
  inside other operations, and the formatting of dates. What is left of the sources are declarations, accessors and includes.
\<close>

section \<open>The pool and its books\<close>



end
